(* ===== verification/Prelude.thy ===== *)
theory Prelude
  imports Main "HOL-Library.AList"
begin

text \<open>
  Shared vocabulary of the development: the exceptions the code raises, Python dictionaries as
  association lists, and the string operations the code uses (\<open>strip\<close>, \<open>split\<close>, \<open>partition\<close>,
  \<open>startswith\<close>, \<open>int\<close>, \<open>str\<close>, \<open>repr\<close>).

  Text is a list of 8-bit characters holding its UTF-8 encoding. All delimiters the code looks for
  are ASCII, so searching and splitting the encoded text gives the encoded pieces, and the
  byte-lexicographic order is the code-point order. Case mapping, digit and whitespace classes
  are modelled on their ASCII part.
\<close>

section \<open>Fact collections\<close>

named_theorems py_simps \<open>evaluation of the Python string and dictionary operations\<close>
named_theorems result_simps \<open>unfolding of the error-passing combinators\<close>

section \<open>Exceptions and results\<close>

text \<open>
  The exceptions that the modelled code raises or lets through, each with its message where the
  source builds one. \<open>HTTPException\<close> carries the status code and detail of FastAPI's error.
\<close>

datatype py_error =
    ValueError string
  | KeyError string
  | TypeError string
  | SyntaxError string
  | ZeroDivisionError string
  | OverflowError string
  | InputValidationError string
  | HTTPException nat string
  | StorageError string
  | AttributeError string
  | OSError string
  | RecursionError string

type_synonym 'a result = "py_error + 'a"

definition bind_result :: "'a result \<Rightarrow> ('a \<Rightarrow> 'b result) \<Rightarrow> 'b result" where
  "bind_result r f = (case r of Inl e \<Rightarrow> Inl e | Inr x \<Rightarrow> f x)"

lemma bind_result_simps [simp, result_simps]:
  "bind_result (Inl e) f = Inl e"
  "bind_result (Inr x) f = f x"
  by (simp_all add: bind_result_def)

lemma guard_Inr [result_simps]: "(if b then Inl e else r) = Inr c \<longleftrightarrow> \<not> b \<and> r = Inr c"
  by simp

lemma bind_result_Inr_iff [result_simps]:
  "bind_result r f = Inr y \<longleftrightarrow> (\<exists>x. r = Inr x \<and> f x = Inr y)"
  by (cases r) auto

lemma bind_result_cong [fundef_cong]:
  "r = r' \<Longrightarrow> (\<And>x. r' = Inr x \<Longrightarrow> f x = g x) \<Longrightarrow> bind_result r f = bind_result r' g"
  by (cases r') auto

section \<open>Dictionaries\<close>

text \<open>
  A Python dictionary keeps the insertion order of its keys and an assignment to a present key
  keeps that key's position: exactly the behaviour of \<open>AList.update\<close>. Lookup is \<open>map_of\<close>.
\<close>

type_synonym ('k, 'v) dict = "('k \<times> 'v) list"

abbreviation dict_get :: "('k, 'v) dict \<Rightarrow> 'k \<Rightarrow> 'v option" where
  "dict_get d k \<equiv> map_of d k"

abbreviation dict_set :: "('k, 'v) dict \<Rightarrow> 'k \<Rightarrow> 'v \<Rightarrow> ('k, 'v) dict" where
  "dict_set d k v \<equiv> AList.update k v d"

definition dict_keys :: "('k, 'v) dict \<Rightarrow> 'k list" where
  "dict_keys d = map fst d"

definition dict_values :: "('k, 'v) dict \<Rightarrow> 'v list" where
  "dict_values d = map snd d"

definition dict_ok :: "('k, 'v) dict \<Rightarrow> bool" where
  "dict_ok d \<longleftrightarrow> distinct (map fst d)"

lemma dict_ok_Nil [simp]: "dict_ok []"
  by (simp add: dict_ok_def)

lemma dict_ok_set [simp, intro]: "dict_ok d \<Longrightarrow> dict_ok (dict_set d k v)"
  by (simp add: dict_ok_def distinct_update)

lemma dict_get_set [simp, py_simps]:
  "dict_get (dict_set d k v) k' = (if k' = k then Some v else dict_get d k')"
  by (simp add: update_conv')

lemma dict_get_None_iff: "dict_get d k = None \<longleftrightarrow> k \<notin> set (dict_keys d)"
  by (simp add: dict_keys_def map_of_eq_None_iff image_image)

lemma dict_keys_set [simp]:
  "set (dict_keys (dict_set d k v)) = insert k (set (dict_keys d))"
  by (induction d) (auto simp: dict_keys_def)

lemma dict_set_new: "k \<notin> set (dict_keys d) \<Longrightarrow> dict_set d k v = d @ [(k, v)]"
  by (induction d) (auto simp: dict_keys_def)

lemma dict_ok_Cons [simp]: "dict_ok ((k, v) # d) \<longleftrightarrow> k \<notin> set (dict_keys d) \<and> dict_ok d"
  by (simp add: dict_ok_def dict_keys_def)

lemma dict_keys_Cons [simp]: "dict_keys ((k, v) # d) = k # dict_keys d"
  by (simp add: dict_keys_def)

lemma dict_keys_Nil [simp]: "dict_keys [] = []"
  by (simp add: dict_keys_def)

text \<open>Building a dictionary from pairs: a later pair overwrites an earlier one in place.\<close>

definition dict_of_pairs :: "('k \<times> 'v) list \<Rightarrow> ('k, 'v) dict" where
  "dict_of_pairs ps = foldl (\<lambda>d (k, v). dict_set d k v) [] ps"

lemma foldl_dict_set_ok:
  "dict_ok d \<Longrightarrow> dict_ok (foldl (\<lambda>d (k, v). dict_set d k v) d ps)"
  by (induction ps arbitrary: d) auto

lemma dict_ok_of_pairs [simp]: "dict_ok (dict_of_pairs ps)"
  by (simp add: dict_of_pairs_def foldl_dict_set_ok)

lemma foldl_dict_set_distinct:
  "distinct (map fst ps) \<Longrightarrow> set (map fst ps) \<inter> set (dict_keys d) = {} \<Longrightarrow>
   foldl (\<lambda>d (k, v). dict_set d k v) d ps = d @ ps"
proof (induction ps arbitrary: d)
  case Nil
  then show ?case by simp
next
  case (Cons p ps)
  obtain k v where p: "p = (k, v)" by fastforce
  from Cons.prems p have k: "k \<notin> set (dict_keys d)" by auto
  then have "dict_set d k v = d @ [(k, v)]" by (rule dict_set_new)
  moreover have "foldl (\<lambda>d (k, v). dict_set d k v) (d @ [(k, v)]) ps = (d @ [(k, v)]) @ ps"
    using Cons.prems p by (intro Cons.IH) (auto simp: dict_keys_def)
  ultimately show ?case by (simp add: p)
qed

lemma dict_of_pairs_distinct: "distinct (map fst ps) \<Longrightarrow> dict_of_pairs ps = ps"
  by (simp add: dict_of_pairs_def foldl_dict_set_distinct)

section \<open>Sorting\<close>

text \<open>Sorting commutes with a map that keeps the order of the keys.\<close>

lemma insort_key_map:
  "(\<forall>y \<in> set ys. h x \<le> h y \<longleftrightarrow> g (f x) \<le> g (f y)) \<Longrightarrow>
   map f (insort_key h x ys) = insort_key g (f x) (map f ys)"
  by (induction ys) auto

lemma sort_key_map:
  "(\<forall>x \<in> set xs. \<forall>y \<in> set xs. h x \<le> h y \<longleftrightarrow> g (f x) \<le> g (f y)) \<Longrightarrow>
   map f (sort_key h xs) = sort_key g (map f xs)"
proof (induction xs)
  case Nil
  then show ?case by simp
next
  case (Cons x xs)
  have "map f (insort_key h x (sort_key h xs)) = insort_key g (f x) (map f (sort_key h xs))"
    using Cons.prems by (intro insort_key_map) auto
  with Cons show ?case by simp
qed

lemma sort_remdups_eq: "set xs = set ys \<Longrightarrow> sort (remdups xs) = sort (remdups ys)"
  by (metis sorted_list_of_set_sort_remdups)

end
