(* ===== verification/Py_Text.thy ===== *)
theory Py_Text
  imports Prelude "HOL-Library.Sublist" "HOL-Library.Char_ord" "HOL-Library.List_Lexorder"
begin

text \<open>
  The methods of Python's \<open>str\<close> that the program calls, on the UTF-8 text of
  \<^verbatim>\<open>Prelude\<close>, with the lemmas the component theories share.
\<close>

section \<open>Character classes and case mapping\<close>

abbreviation code :: "char \<Rightarrow> nat" where
  "code c \<equiv> of_char c"

definition is_space :: "char \<Rightarrow> bool" where
  "is_space c \<longleftrightarrow> 9 \<le> code c \<and> code c \<le> 13 \<or> 28 \<le> code c \<and> code c \<le> 32"

definition is_digit :: "char \<Rightarrow> bool" where
  "is_digit c \<longleftrightarrow> 48 \<le> code c \<and> code c \<le> 57"

definition is_lower_letter :: "char \<Rightarrow> bool" where
  "is_lower_letter c \<longleftrightarrow> 97 \<le> code c \<and> code c \<le> 122"

definition is_upper_letter :: "char \<Rightarrow> bool" where
  "is_upper_letter c \<longleftrightarrow> 65 \<le> code c \<and> code c \<le> 90"

definition lower_char :: "char \<Rightarrow> char" where
  "lower_char c = (if is_upper_letter c then char_of (code c + 32) else c)"

definition upper_char :: "char \<Rightarrow> char" where
  "upper_char c = (if is_lower_letter c then char_of (code c - 32) else c)"

definition lower :: "string \<Rightarrow> string" where
  "lower s = map lower_char s"

definition upper :: "string \<Rightarrow> string" where
  "upper s = map upper_char s"

text \<open>\<open>str.isdigit\<close>: non-empty and all digits. The digits of other scripts, which Python also accepts, are not
  in the model.\<close>

definition isdigit :: "string \<Rightarrow> bool" where
  "isdigit s \<longleftrightarrow> s \<noteq> [] \<and> list_all is_digit s"

section \<open>strip\<close>

definition lstrip_of :: "(char \<Rightarrow> bool) \<Rightarrow> string \<Rightarrow> string" where
  "lstrip_of P s = dropWhile P s"

definition rstrip_of :: "(char \<Rightarrow> bool) \<Rightarrow> string \<Rightarrow> string" where
  "rstrip_of P s = rev (dropWhile P (rev s))"

definition strip_of :: "(char \<Rightarrow> bool) \<Rightarrow> string \<Rightarrow> string" where
  "strip_of P s = rstrip_of P (lstrip_of P s)"

definition strip :: "string \<Rightarrow> string" where
  "strip s = strip_of is_space s"

text \<open>A string is stripped when neither end is a character of the class.\<close>

definition stripped :: "(char \<Rightarrow> bool) \<Rightarrow> string \<Rightarrow> bool" where
  "stripped P s \<longleftrightarrow> (s \<noteq> [] \<longrightarrow> \<not> P (hd s) \<and> \<not> P (last s))"

lemma rstrip_of_snoc: "rstrip_of P (s @ [c]) = (if P c then rstrip_of P s else s @ [c])"
  by (simp add: rstrip_of_def)

lemma rstrip_of_prefix: "prefix (rstrip_of P s) s"
  unfolding rstrip_of_def
  by (metis rev_rev_ident suffix_dropWhile suffix_to_prefix)

lemma rstrip_of_last: "rstrip_of P s \<noteq> [] \<Longrightarrow> \<not> P (last (rstrip_of P s))"
  by (simp add: rstrip_of_def hd_dropWhile last_rev)

lemma strip_of_stripped: "stripped P (strip_of P s)"
proof -
  let ?t = "lstrip_of P s"
  have hd: "\<not> P (hd ?t)" if "?t \<noteq> []"
    using that hd_dropWhile [of P s] by (simp add: lstrip_of_def)
  have "\<not> P (hd (strip_of P s)) \<and> \<not> P (last (strip_of P s))" if ne: "strip_of P s \<noteq> []"
  proof
    from rstrip_of_prefix [of P ?t] obtain u where u: "?t = strip_of P s @ u"
      by (auto simp: strip_of_def prefix_def)
    with ne have "hd ?t = hd (strip_of P s)" and "?t \<noteq> []" by auto
    with hd show "\<not> P (hd (strip_of P s))" by simp
    show "\<not> P (last (strip_of P s))"
      using ne rstrip_of_last [of P ?t] by (simp add: strip_of_def)
  qed
  then show ?thesis by (simp add: stripped_def)
qed

lemma strip_of_id: "stripped P s \<Longrightarrow> strip_of P s = s"
proof -
  assume st: "stripped P s"
  have "lstrip_of P s = s"
    using st by (cases s) (auto simp: lstrip_of_def stripped_def)
  moreover have "rstrip_of P s = s"
    using st by (cases s rule: rev_cases) (auto simp: rstrip_of_def stripped_def)
  ultimately show ?thesis by (simp add: strip_of_def)
qed

lemma strip_of_idem [simp]: "strip_of P (strip_of P s) = strip_of P s"
  by (rule strip_of_id [OF strip_of_stripped])

lemma strip_idem [simp, py_simps]: "strip (strip s) = strip s"
  by (simp add: strip_def)

lemma strip_Nil [simp, py_simps]: "strip [] = []"
  by (simp add: strip_def strip_of_def lstrip_of_def rstrip_of_def)

lemma strip_of_Nil [simp]: "strip_of P [] = []"
  by (simp add: strip_of_def lstrip_of_def rstrip_of_def)

lemma set_strip_of: "set (strip_of P s) \<subseteq> set s"
  unfolding strip_of_def rstrip_of_def lstrip_of_def
  by (auto dest!: set_dropWhileD)

lemma strip_nonempty_raw: "strip s \<noteq> [] \<Longrightarrow> s \<noteq> []"
  by auto

lemma rstrip_of_Nil [simp]: "rstrip_of P [] = []"
  by (simp add: rstrip_of_def)

lemma rstrip_of_idem [simp]: "rstrip_of P (rstrip_of P s) = rstrip_of P s"
proof (cases "rstrip_of P s" rule: rev_cases)
  case Nil
  then show ?thesis by simp
next
  case (snoc u c)
  with rstrip_of_last [of P s] have "\<not> P c" by simp
  with snoc show ?thesis by (simp add: rstrip_of_snoc)
qed

section \<open>startswith, split, partition, join\<close>

definition startswith :: "string \<Rightarrow> string \<Rightarrow> bool" where
  "startswith s p \<longleftrightarrow> take (length p) s = p"

lemma startswith_prefix: "startswith s p \<longleftrightarrow> prefix p s"
  unfolding startswith_def
  by (metis append_eq_conv_conj append_take_drop_id prefix_def)

lemma startswith_append [simp]: "startswith (p @ s) p"
  by (simp add: startswith_def)

definition contains :: "string \<Rightarrow> string \<Rightarrow> bool" where
  "contains s p \<longleftrightarrow> list_ex (\<lambda>t. startswith t p) (suffixes s)"

lemma contains_sublist: "contains s p \<longleftrightarrow> sublist p s"
  by (auto simp: contains_def list_ex_iff startswith_prefix sublist_altdef')

text \<open>\<open>s.removeprefix(p)\<close>.\<close>

definition removeprefix :: "string \<Rightarrow> string \<Rightarrow> string" where
  "removeprefix s p = (if startswith s p then drop (length p) s else s)"

text \<open>\<open>s.split(c)\<close>: never the empty list.\<close>

fun split_on :: "char \<Rightarrow> string \<Rightarrow> string list" where
  "split_on c [] = [[]]"
| "split_on c (x # s) =
     (if x = c then [] # split_on c s
      else case split_on c s of [] \<Rightarrow> [[x]] | w # ws \<Rightarrow> (x # w) # ws)"

text \<open>\<open>sep.join(xs)\<close>.\<close>

fun join :: "string \<Rightarrow> string list \<Rightarrow> string" where
  "join sep [] = []"
| "join sep [x] = x"
| "join sep (x # y # xs) = x @ sep @ join sep (y # xs)"

lemma split_on_nonempty [simp]: "split_on c s \<noteq> []"
  by (induction s) (auto split: list.splits)

lemma split_on_no_sep: "w \<in> set (split_on c s) \<Longrightarrow> c \<notin> set w"
proof (induction s arbitrary: w)
  case Nil
  then show ?case by simp
next
  case (Cons x s)
  then show ?case by (auto split: if_splits list.splits)
qed

lemma split_on_fresh: "c \<notin> set s \<Longrightarrow> split_on c s = [s]"
  by (induction s) auto

lemma split_on_append_sep: "c \<notin> set u \<Longrightarrow> split_on c (u @ c # s) = u # split_on c s"
  by (induction u) (auto split: list.splits)

lemma split_on_join:
  "xs \<noteq> [] \<Longrightarrow> (\<And>x. x \<in> set xs \<Longrightarrow> c \<notin> set x) \<Longrightarrow> split_on c (join [c] xs) = xs"
  by (induction "[c]" xs rule: join.induct) (auto simp: split_on_fresh split_on_append_sep)

lemma join_split_on: "join [c] (split_on c s) = s"
proof (induction s)
  case Nil
  then show ?case by simp
next
  case (Cons x s)
  obtain w ws where ws: "split_on c s = w # ws"
    using split_on_nonempty [of c s] by (cases "split_on c s") auto
  show ?case
    using Cons.IH ws by (cases ws) auto
qed

text \<open>\<open>s.partition(c)\<close>: the part before the first \<open>c\<close>, the separator, the rest.\<close>

definition partition_on :: "char \<Rightarrow> string \<Rightarrow> string \<times> string \<times> string" where
  "partition_on c s =
     (let u = takeWhile (\<lambda>x. x \<noteq> c) s; v = dropWhile (\<lambda>x. x \<noteq> c) s
      in case v of [] \<Rightarrow> (u, [], []) | _ # w \<Rightarrow> (u, [c], w))"

lemma partition_on_fresh: "c \<notin> set s \<Longrightarrow> partition_on c s = (s, [], [])"
proof -
  assume "c \<notin> set s"
  then have "takeWhile (\<lambda>x. x \<noteq> c) s = s" and "dropWhile (\<lambda>x. x \<noteq> c) s = []"
    by (auto simp: takeWhile_eq_all_conv)
  then show ?thesis by (simp only: partition_on_def Let_def list.case)
qed

lemma partition_on_sep: "c \<notin> set u \<Longrightarrow> partition_on c (u @ c # w) = (u, [c], w)"
proof -
  assume "c \<notin> set u"
  then have "\<And>x. x \<in> set u \<Longrightarrow> x \<noteq> c" by auto
  then have "takeWhile (\<lambda>x. x \<noteq> c) (u @ c # w) = u"
    and "dropWhile (\<lambda>x. x \<noteq> c) (u @ c # w) = c # w"
    by (simp_all add: takeWhile_append2 dropWhile_append2)
  then show ?thesis by (simp add: partition_on_def)
qed

section \<open>Decimal numerals: str and int\<close>

definition digit_char :: "nat \<Rightarrow> char" where
  "digit_char d = char_of (48 + d)"

definition digit_val :: "char \<Rightarrow> nat" where
  "digit_val c = code c - 48"

fun nat_str :: "nat \<Rightarrow> string" where
  "nat_str n = (if n < 10 then [digit_char n] else nat_str (n div 10) @ [digit_char (n mod 10)])"

declare nat_str.simps [simp del]

definition int_str :: "int \<Rightarrow> string" where
  "int_str i = (if i < 0 then CHR ''-'' # nat_str (nat (- i)) else nat_str (nat i))"

definition nat_of_digits :: "string \<Rightarrow> nat" where
  "nat_of_digits s = foldl (\<lambda>a c. a * 10 + digit_val c) 0 s"

lemma digit_char_props [simp]:
  "d < 10 \<Longrightarrow> is_digit (digit_char d)"
  "d < 10 \<Longrightarrow> digit_val (digit_char d) = d"
  by (simp_all add: is_digit_def digit_char_def digit_val_def)

lemma nat_str_nonempty [simp]: "nat_str n \<noteq> []"
  by (subst nat_str.simps) simp

lemma nat_str_digits: "list_all is_digit (nat_str n)"
proof (induction n rule: nat_str.induct)
  case (1 n)
  then show ?case by (subst nat_str.simps) simp
qed

lemma isdigit_nat_str [simp]: "isdigit (nat_str n)"
  by (simp add: isdigit_def nat_str_digits)

lemma nat_of_digits_snoc: "nat_of_digits (s @ [c]) = nat_of_digits s * 10 + digit_val c"
  by (simp add: nat_of_digits_def)

lemma nat_of_digits_nat_str [simp, py_simps]: "nat_of_digits (nat_str n) = n"
proof (induction n rule: nat_str.induct)
  case (1 n)
  show ?case
  proof (cases "n < 10")
    case True
    then show ?thesis by (subst nat_str.simps) (simp add: nat_of_digits_def)
  next
    case False
    with "1" have "nat_of_digits (nat_str (n div 10)) = n div 10" by simp
    with False show ?thesis by (subst nat_str.simps) (simp add: nat_of_digits_snoc)
  qed
qed

lemma nat_str_inject [simp]: "nat_str m = nat_str n \<longleftrightarrow> m = n"
  by (metis nat_of_digits_nat_str)

text \<open>
  \<open>int(s)\<close> of an already stripped string: an optional sign, then digits, with single underscores
  allowed between digits. \<open>None\<close> is \<open>ValueError\<close>.
\<close>

fun digits_underscored :: "string \<Rightarrow> string option" where
  "digits_underscored [] = None"
| "digits_underscored [c] = (if is_digit c then Some [c] else None)"
| "digits_underscored (c # d # s) =
     (if \<not> is_digit c then None
      else if d = CHR ''_'' then map_option (Cons c) (digits_underscored s)
      else map_option (Cons c) (digits_underscored (d # s)))"

definition int_of_string :: "string \<Rightarrow> int option" where
  "int_of_string s =
     (case strip s of
        [] \<Rightarrow> None
      | c # t \<Rightarrow>
          (if c = CHR ''-'' then map_option (\<lambda>ds. - int (nat_of_digits ds)) (digits_underscored t)
           else if c = CHR ''+'' then map_option (\<lambda>ds. int (nat_of_digits ds)) (digits_underscored t)
           else map_option (\<lambda>ds. int (nat_of_digits ds)) (digits_underscored (c # t))))"

lemma is_digit_not:
  "is_digit c \<Longrightarrow> c \<noteq> CHR ''_''" "is_digit c \<Longrightarrow> c \<noteq> CHR ''-''" "is_digit c \<Longrightarrow> c \<noteq> CHR ''+''"
  "is_digit c \<Longrightarrow> \<not> is_space c" "is_digit c \<Longrightarrow> c \<noteq> CHR ''/''"
  by (auto simp: is_digit_def is_space_def)

lemma digits_underscored_digits: "isdigit s \<Longrightarrow> digits_underscored s = Some s"
  by (induction s rule: digits_underscored.induct) (auto simp: isdigit_def is_digit_not)

lemma stripped_digits: "isdigit s \<Longrightarrow> stripped is_space s"
  by (auto simp: isdigit_def stripped_def is_digit_not list_all_iff)

lemma int_of_string_digits: "isdigit s \<Longrightarrow> int_of_string s = Some (int (nat_of_digits s))"
proof -
  assume d: "isdigit s"
  then have "strip s = s" by (simp add: strip_def strip_of_id stripped_digits)
  with d show ?thesis
    using digits_underscored_digits [OF d]
    by (cases s) (auto simp: int_of_string_def isdigit_def is_digit_not)
qed

lemma int_of_string_nat_str [simp, py_simps]: "int_of_string (nat_str n) = Some (int n)"
  by (simp add: int_of_string_digits)

section \<open>repr\<close>

text \<open>
  \<open>repr(s)\<close>: single quotes unless the text has a single quote and no double quote; backslash,
  the chosen quote and control characters are escaped.
\<close>

definition hex_digit :: "nat \<Rightarrow> char" where
  "hex_digit n = (if n < 10 then char_of (48 + n) else char_of (87 + n))"

definition repr_char :: "char \<Rightarrow> char \<Rightarrow> string" where
  "repr_char q c =
     (if c = q \<or> c = CHR 0x5C then [CHR 0x5C, c]
      else if c = CHR 0x0A then [CHR 0x5C, CHR ''n'']
      else if c = CHR 0x0D then [CHR 0x5C, CHR ''r'']
      else if c = CHR 0x09 then [CHR 0x5C, CHR ''t'']
      else if code c < 32 \<or> code c = 127
      then [CHR 0x5C, CHR ''x'', hex_digit (code c div 16), hex_digit (code c mod 16)]
      else [c])"

definition repr :: "string \<Rightarrow> string" where
  "repr s =
     (let q = (if CHR 0x27 \<in> set s \<and> CHR 0x22 \<notin> set s then CHR 0x22 else CHR 0x27)
      in q # concat (map (repr_char q) s) @ [q])"

section \<open>Regular expressions used as guards\<close>

text \<open>
  \<open>re.compile(r"^[a-z_][a-z0-9_]*$").match(s)\<close>. The final \<open>$\<close> also matches just before a
  trailing newline, as in Python.
\<close>

definition drop_final_newline :: "string \<Rightarrow> string" where
  "drop_final_newline s = (if s \<noteq> [] \<and> last s = CHR 0x0A then butlast s else s)"

definition identifier_match :: "string \<Rightarrow> bool" where
  "identifier_match s =
     (case drop_final_newline s of
        [] \<Rightarrow> False
      | c # t \<Rightarrow> (is_lower_letter c \<or> c = CHR ''_'')
          \<and> list_all (\<lambda>x. is_lower_letter x \<or> is_digit x \<or> x = CHR ''_'') t)"

definition class_match :: "(char \<Rightarrow> bool) \<Rightarrow> string \<Rightarrow> bool" where
  "class_match P s \<longleftrightarrow> drop_final_newline s \<noteq> [] \<and> list_all P (drop_final_newline s)"

lemma eq_char_code: "c = d \<longleftrightarrow> code c = code d"
  by (metis char_of_char)

end
