(* ===== verification/Interfaces.thy ===== *)
theory Interfaces
  imports Py_Text
begin

text \<open>
  Contracts that several components share, as locales. A \<open>codec\<close> is a pair of functions of which
  the second reads back what the first writes; on a \<open>line_codec\<close> the texts written are lines, so
  that a stream of them can be split again. A \<open>memo\<close> is an accessor that keeps the value it first
  obtained, and a \<open>simulation\<close> a service that answers as its specification does. Each is interpreted where the functions are defined: JSON (\<^verbatim>\<open>Json_Roundtrip\<close>), base64
  (\<^verbatim>\<open>Base64\<close>) and decimal names (here) as codecs; the database engine (\<^verbatim>\<open>Db_Config\<close>), the model
  catalog (\<^verbatim>\<open>Model_Selection\<close>) and the secrets (\<^verbatim>\<open>Secrets\<close>) as memos.
\<close>

section \<open>Codecs\<close>

locale codec =
  fixes enc :: "'a \<Rightarrow> string"
    and dec :: "string \<Rightarrow> 'b"
    and got :: "'a \<Rightarrow> 'b"
    and ok :: "'a \<Rightarrow> bool"
  assumes decode_encode: "ok x \<Longrightarrow> dec (enc x) = got x"
    and got_inject: "ok x \<Longrightarrow> ok y \<Longrightarrow> got x = got y \<Longrightarrow> x = y"
begin

lemma encode_inject: "ok x \<Longrightarrow> ok y \<Longrightarrow> enc x = enc y \<longleftrightarrow> x = y"
  using decode_encode got_inject by metis

lemma decode_all: "list_all ok xs \<Longrightarrow> map dec (map enc xs) = map got xs"
  by (induction xs) (simp_all add: decode_encode)

lemma distinct_texts: "list_all ok xs \<Longrightarrow> distinct (map enc xs) \<longleftrightarrow> distinct xs"
  by (induction xs) (auto simp: list_all_iff encode_inject)

end

lemma split_on_lines:
  "list_all (\<lambda>x. c \<notin> set x) xs \<Longrightarrow> split_on c (concat (map (\<lambda>x. x @ [c]) xs)) = xs @ [[]]"
  by (induction xs) (auto simp: split_on_append_sep)

locale line_codec = codec +
  fixes sep :: char
  assumes one_line: "ok x \<Longrightarrow> sep \<notin> set (enc x)"
begin

lemma lines_of_stream:
  assumes "list_all ok xs"
  shows "butlast (split_on sep (concat (map (\<lambda>x. enc x @ [sep]) xs))) = map enc xs"
proof -
  have "list_all (\<lambda>x. sep \<notin> set x) (map enc xs)" using assms one_line by (simp add: list_all_iff)
  from split_on_lines [OF this] show ?thesis by (simp add: comp_def)
qed

lemma stream_read_back:
  "list_all ok xs \<Longrightarrow> map dec (butlast (split_on sep (concat (map (\<lambda>x. enc x @ [sep]) xs)))) = map got xs"
  using decode_all lines_of_stream by simp

end

interpretation decimal: codec nat_str int_of_string "\<lambda>n. Some (int n)" "\<lambda>n. True"
  by unfold_locales simp_all

section \<open>Values that are kept\<close>

text \<open>
  \<open>other\<close> is what the rest of the program may do to the state between two accesses.
\<close>

locale memo =
  fixes access :: "'s \<Rightarrow> 'v result \<times> 's"
    and cached :: "'s \<Rightarrow> 'v option"
    and other :: "'s \<Rightarrow> 's \<Rightarrow> bool"
  assumes hit: "cached s = Some v \<Longrightarrow> access s = (Inr v, s)"
    and fill: "access s = (Inr v, s') \<Longrightarrow> cached s' = Some v"
    and kept: "other s s' \<Longrightarrow> cached s = Some v \<Longrightarrow> cached s' = Some v"
begin

lemma kept_long: "other\<^sup>*\<^sup>* s s' \<Longrightarrow> cached s = Some v \<Longrightarrow> cached s' = Some v"
  by (induction rule: rtranclp_induct) (auto intro: kept)

lemma again: "access s = (Inr v, s') \<Longrightarrow> access s' = (Inr v, s')"
  by (rule hit) (rule fill)

lemma stable: "access s = (Inr v, s1) \<Longrightarrow> other\<^sup>*\<^sup>* s1 s2 \<Longrightarrow> access s2 = (Inr v, s2)"
  using fill kept_long hit by blast

lemma one_value: "access s = (Inr v, s1) \<Longrightarrow> other\<^sup>*\<^sup>* s1 s2 \<Longrightarrow> access s2 = (Inr w, s3) \<Longrightarrow> w = v \<and> s3 = s2"
  using stable [of s v s1 s2] by simp

end

section \<open>Services answering requests\<close>

text \<open>
  A service answers each request with a reply and its next state. A \<open>simulation\<close> relates the states of
  the service to those of a specification, for requests that are good where they arrive; a run of the
  service then gives the replies of the specification.
\<close>

fun replies :: "('q \<Rightarrow> 's \<Rightarrow> 'r \<times> 's) \<Rightarrow> 'q list \<Rightarrow> 's \<Rightarrow> 'r list \<times> 's" where
  "replies svc [] s = ([], s)"
| "replies svc (q # qs) s =
     (let (r, s1) = svc q s; (rs, s2) = replies svc qs s1 in (r # rs, s2))"

lemma replies_append:
  "replies svc (qs @ ps) s =
     (let (rs, s1) = replies svc qs s; (rs', s2) = replies svc ps s1 in (rs @ rs', s2))"
  by (induction qs arbitrary: s) (auto simp: Let_def split: prod.splits)

fun good_run :: "('q \<Rightarrow> 's \<Rightarrow> 'r \<times> 's) \<Rightarrow> ('q \<Rightarrow> 's \<Rightarrow> bool) \<Rightarrow> 'q list \<Rightarrow> 's \<Rightarrow> bool" where
  "good_run svc good [] s \<longleftrightarrow> True"
| "good_run svc good (q # qs) s \<longleftrightarrow> good q s \<and> good_run svc good qs (snd (svc q s))"

locale simulation =
  fixes conc :: "'q \<Rightarrow> 's \<Rightarrow> 'r \<times> 's"
    and spec :: "'q \<Rightarrow> 't \<Rightarrow> 'r \<times> 't"
    and rel :: "'s \<Rightarrow> 't \<Rightarrow> bool"
    and good :: "'q \<Rightarrow> 't \<Rightarrow> bool"
  assumes step: "rel s t \<Longrightarrow> good q t \<Longrightarrow> fst (conc q s) = fst (spec q t) \<and> rel (snd (conc q s)) (snd (spec q t))"
begin

lemma run:
  "rel s t \<Longrightarrow> good_run spec good qs t \<Longrightarrow>
   fst (replies conc qs s) = fst (replies spec qs t) \<and> rel (snd (replies conc qs s)) (snd (replies spec qs t))"
proof (induction qs arbitrary: s t)
  case (Cons q qs)
  then have "good q t" "good_run spec good qs (snd (spec q t))" by simp_all
  with step [OF Cons.prems(1)] Cons.IH [of "snd (conc q s)" "snd (spec q t)"] show ?case
    by (simp add: Let_def split_beta)
qed simp

end

end
