(* ===== verification/Py_Float.thy ===== *)
theory Py_Float
  imports Interfaces
begin

text \<open>
  Python's \<open>float\<close>: IEEE 754 binary64 with round-to-nearest-even, by exact integer arithmetic.
  \<open>Fin s m e\<close> is \<open>(-1)^s * m * 2^e\<close>, kept canonical (\<open>m\<close> odd, or \<open>m = 0\<close> and \<open>e = 0\<close>), so
  that two finite floats are the same float exactly when they are the same term (up to the sign
  of zero). Parsing, \<open>repr\<close> and the arithmetic operators follow CPython.
\<close>

datatype pyfloat = Fin bool nat int | Inf bool | Nan

section \<open>Rounding\<close>

fun norm_odd :: "nat \<Rightarrow> int \<Rightarrow> nat \<times> int" where
  "norm_odd m e = (if m = 0 then (0, 0) else if even m then norm_odd (m div 2) (e + 1) else (m, e))"

declare norm_odd.simps [simp del]

definition mk_fin :: "bool \<Rightarrow> nat \<Rightarrow> int \<Rightarrow> pyfloat" where
  "mk_fin s m e = (case norm_odd m e of (m', e') \<Rightarrow> Fin s m' e')"

fun bit_length :: "nat \<Rightarrow> nat" where
  "bit_length n = (if n = 0 then 0 else Suc (bit_length (n div 2)))"

declare bit_length.simps [simp del]

text \<open>The double nearest to \<open>n / d\<close> with the given sign; overflow gives the infinity.\<close>

definition round_ratio :: "bool \<Rightarrow> nat \<Rightarrow> nat \<Rightarrow> pyfloat" where
  "round_ratio s n d =
     (if n = 0 then Fin s 0 0
      else
        let b = int (bit_length n) - int (bit_length d);
            lg = (if d * 2 ^ nat b \<le> n * 2 ^ nat (- b) then b else b - 1);
            q = max (lg - 52) (- 1074);
            num = n * 2 ^ nat (- q);
            den = d * 2 ^ nat q;
            k = num div den;
            r = num mod den;
            k' = (if den < 2 * r \<or> (2 * r = den \<and> odd k) then k + 1 else k)
        in if 1023 < lg \<or> (q = 971 \<and> k' = 2 ^ 53) then Inf s else mk_fin s k' q)"

definition round_int_scaled :: "int \<Rightarrow> int \<Rightarrow> pyfloat" where
  "round_int_scaled i e =
     round_ratio (i < 0) (nat \<bar>i\<bar> * 2 ^ nat e) (2 ^ nat (- e))"

text \<open>\<open>float(i)\<close> of an \<open>int\<close>: \<open>OverflowError\<close> when it rounds beyond the largest double.\<close>

definition float_of_int :: "int \<Rightarrow> pyfloat result" where
  "float_of_int i =
     (case round_ratio (i < 0) (nat \<bar>i\<bar>) 1 of
        Inf s \<Rightarrow> Inl (OverflowError ''int too large to convert to float'')
      | f \<Rightarrow> Inr f)"

definition float_is_integer :: "pyfloat \<Rightarrow> bool" where
  "float_is_integer f = (case f of Fin s m e \<Rightarrow> 0 \<le> e | _ \<Rightarrow> False)"

definition float_to_int :: "pyfloat \<Rightarrow> int" where
  "float_to_int f =
     (case f of
        Fin s m e \<Rightarrow> (if s then - 1 else 1) * (int m * 2 ^ nat e div 2 ^ nat (- e))
      | _ \<Rightarrow> 0)"

text \<open>Numeric equality: the two zeros are equal and \<open>nan\<close> is not equal to itself.\<close>

fun float_eq :: "pyfloat \<Rightarrow> pyfloat \<Rightarrow> bool" where
  "float_eq (Fin s m e) (Fin s' m' e') \<longleftrightarrow> m = m' \<and> e = e' \<and> (m = 0 \<or> s = s')"
| "float_eq (Inf s) (Inf s') \<longleftrightarrow> s = s'"
| "float_eq _ _ \<longleftrightarrow> False"

fun float_eq_int :: "pyfloat \<Rightarrow> int \<Rightarrow> bool" where
  "float_eq_int (Fin s m e) i \<longleftrightarrow> 0 \<le> e \<and> i = (if s then - 1 else 1) * int (m * 2 ^ nat e)"
| "float_eq_int _ i \<longleftrightarrow> False"

section \<open>Parsing\<close>

definition scale10 :: "bool \<Rightarrow> nat \<Rightarrow> int \<Rightarrow> pyfloat" where
  "scale10 s n e = round_ratio s (n * 10 ^ nat e) (10 ^ nat (- e))"

fun digitpart :: "string \<Rightarrow> string \<times> string" where
  "digitpart [] = ([], [])"
| "digitpart [c] = (if is_digit c then ([c], []) else ([], [c]))"
| "digitpart [c, d] =
     (if is_digit c then (case digitpart [d] of (a, b) \<Rightarrow> (c # a, b)) else ([], [c, d]))"
| "digitpart (c # d # x # s) =
     (if \<not> is_digit c then ([], c # d # x # s)
      else if d = CHR ''_'' \<and> is_digit x
      then (case digitpart (x # s) of (a, b) \<Rightarrow> (c # a, b))
      else (case digitpart (d # x # s) of (a, b) \<Rightarrow> (c # a, b)))"

definition exponent_part :: "string \<Rightarrow> int option" where
  "exponent_part s =
     (case s of
        [] \<Rightarrow> Some 0
      | c # t \<Rightarrow>
          if c = CHR ''e'' \<or> c = CHR ''E'' then
            (let neg = (t \<noteq> [] \<and> hd t = CHR ''-'');
                 t' = (if t \<noteq> [] \<and> (hd t = CHR ''-'' \<or> hd t = CHR ''+'') then tl t else t)
             in case digitpart t' of
                  (ds, rest) \<Rightarrow>
                    if ds = [] \<or> rest \<noteq> [] then None
                    else Some ((if neg then - 1 else 1) * int (nat_of_digits ds)))
          else None)"

definition parse_unsigned :: "bool \<Rightarrow> string \<Rightarrow> pyfloat option" where
  "parse_unsigned neg s =
     (if lower s = ''inf'' \<or> lower s = ''infinity'' then Some (Inf neg)
      else if lower s = ''nan'' then Some Nan
      else
        let (ip, s1) = digitpart s;
            (fp, s2) = (if s1 \<noteq> [] \<and> hd s1 = CHR ''.'' then digitpart (tl s1) else ([], s1))
        in if ip = [] \<and> fp = [] then None
           else case exponent_part s2 of
                  None \<Rightarrow> None
                | Some e \<Rightarrow> Some (scale10 neg (nat_of_digits (ip @ fp)) (e - int (length fp))))"

text \<open>\<open>float(s)\<close>: \<open>None\<close> is \<open>ValueError\<close>.\<close>

definition float_of_string :: "string \<Rightarrow> pyfloat option" where
  "float_of_string s =
     (case strip s of
        [] \<Rightarrow> None
      | c # t \<Rightarrow>
          if c = CHR ''-'' then parse_unsigned True t
          else if c = CHR ''+'' then parse_unsigned False t
          else parse_unsigned False (c # t))"

section \<open>repr\<close>

text \<open>
  The shortest decimal that reads back as the same double, then Python's layout of it. For the
  \<open>k\<close>-digit candidates the two neighbours of the exact value are tried, the closer one first.
\<close>

definition decimal_exponent :: "nat \<Rightarrow> nat \<Rightarrow> int" where
  "decimal_exponent n d =
     (if d \<le> n then int (length (nat_str (n div d)))
      else 1 - int (length (nat_str (d div n))) +
           (if d mod n = 0 \<and> nat_of_digits (tl (nat_str (d div n))) = 0 \<and>
               hd (nat_str (d div n)) = CHR ''1'' then 1 else 0))"

definition candidate :: "nat \<Rightarrow> nat \<Rightarrow> int \<Rightarrow> nat \<Rightarrow> nat option" where
  "candidate n d p k =
     (let sh = int k - p;
          num = n * 10 ^ nat sh;
          den = d * 10 ^ nat (- sh);
          lo = num div den;
          r = num mod den;
          near = (if den < 2 * r \<or> (2 * r = den \<and> odd lo) then lo + 1 else lo);
          far = (if near = lo then lo + 1 else lo);
          x = round_ratio False n d
      in if scale10 False near (- sh) = x then Some near
         else if scale10 False far (- sh) = x then Some far
         else None)"

fun shortest_from :: "nat \<Rightarrow> nat \<Rightarrow> int \<Rightarrow> nat \<Rightarrow> nat \<Rightarrow> nat \<times> nat" where
  "shortest_from n d p k 0 = (n * 10 ^ nat (int k - p) div (d * 10 ^ nat (p - int k)), k)"
| "shortest_from n d p k (Suc fuel) =
     (case candidate n d p k of
        Some c \<Rightarrow> (c, k)
      | None \<Rightarrow> shortest_from n d p (Suc k) fuel)"

definition exp_str :: "int \<Rightarrow> string" where
  "exp_str e =
     (if e < 0 then CHR ''-'' else CHR ''+'') #
     (let ds = nat_str (nat \<bar>e\<bar>) in if length ds < 2 then CHR ''0'' # ds else ds)"

definition layout_repr :: "string \<Rightarrow> int \<Rightarrow> string" where
  "layout_repr ds p =
     (if p \<le> - 4 \<or> 16 < p
      then hd ds # (if tl ds = [] then [] else CHR ''.'' # tl ds) @ ''e'' @ exp_str (p - 1)
      else if p \<le> 0 then ''0.'' @ replicate (nat (- p)) (CHR ''0'') @ ds
      else if int (length ds) \<le> p
      then ds @ replicate (nat p - length ds) (CHR ''0'') @ ''.0''
      else take (nat p) ds @ ''.'' @ drop (nat p) ds)"

definition float_repr :: "pyfloat \<Rightarrow> string" where
  "float_repr f =
     (case f of
        Nan \<Rightarrow> ''nan''
      | Inf s \<Rightarrow> (if s then ''-inf'' else ''inf'')
      | Fin s m e \<Rightarrow>
          (if s then ''-'' else []) @
          (if m = 0 then ''0.0''
           else
             let n = m * 2 ^ nat e; d = 2 ^ nat (- e);
                 p = decimal_exponent n d;
                 (c, k) = shortest_from n d p 1 16;
                 ds = nat_str c
             in layout_repr ds (p + (int (length ds) - int k))))"

section \<open>Arithmetic operators\<close>

text \<open>A finite float as an integer numerator over a power of two.\<close>

definition signed :: "bool \<Rightarrow> nat \<Rightarrow> int" where
  "signed s m = (if s then - int m else int m)"

fun float_neg :: "pyfloat \<Rightarrow> pyfloat" where
  "float_neg (Fin s m e) = Fin (\<not> s) m e"
| "float_neg (Inf s) = Inf (\<not> s)"
| "float_neg Nan = Nan"

fun float_add :: "pyfloat \<Rightarrow> pyfloat \<Rightarrow> pyfloat" where
  "float_add (Fin s m e) (Fin s' m' e') =
     (if m = 0 \<and> m' = 0 then Fin (s \<and> s') 0 0
      else
        let q = min e e';
            t = signed s m * 2 ^ nat (e - q) + signed s' m' * 2 ^ nat (e' - q)
        in if t = 0 then Fin False 0 0 else round_int_scaled t q)"
| "float_add (Inf s) (Inf s') = (if s = s' then Inf s else Nan)"
| "float_add (Inf s) (Fin _ _ _) = Inf s"
| "float_add (Fin _ _ _) (Inf s) = Inf s"
| "float_add _ _ = Nan"

definition float_sub :: "pyfloat \<Rightarrow> pyfloat \<Rightarrow> pyfloat" where
  "float_sub a b = float_add a (float_neg b)"

fun float_mul :: "pyfloat \<Rightarrow> pyfloat \<Rightarrow> pyfloat" where
  "float_mul (Fin s m e) (Fin s' m' e') =
     (let q = e + e' in round_ratio (s \<noteq> s') (m * m' * 2 ^ nat q) (2 ^ nat (- q)))"
| "float_mul (Inf s) (Inf s') = Inf (s \<noteq> s')"
| "float_mul (Inf s) (Fin s' m e) = (if m = 0 then Nan else Inf (s \<noteq> s'))"
| "float_mul (Fin s m e) (Inf s') = (if m = 0 then Nan else Inf (s \<noteq> s'))"
| "float_mul _ _ = Nan"

fun float_is_zero :: "pyfloat \<Rightarrow> bool" where
  "float_is_zero (Fin _ m _) \<longleftrightarrow> m = 0"
| "float_is_zero _ \<longleftrightarrow> False"

fun float_sign :: "pyfloat \<Rightarrow> bool" where
  "float_sign (Fin s _ _) = s"
| "float_sign (Inf s) = s"
| "float_sign Nan = False"

text \<open>Strictly negative, as C's \<open>x < 0\<close>.\<close>

definition float_lt0 :: "pyfloat \<Rightarrow> bool" where
  "float_lt0 x \<longleftrightarrow> float_sign x \<and> \<not> float_is_zero x \<and> x \<noteq> Nan"

text \<open>C's division, for a non-zero divisor.\<close>

fun c_div :: "pyfloat \<Rightarrow> pyfloat \<Rightarrow> pyfloat" where
  "c_div (Fin s m e) (Fin s' m' e') =
     (let q = e - e' in round_ratio (s \<noteq> s') (m * 2 ^ nat q) (m' * 2 ^ nat (- q)))"
| "c_div (Inf s) (Fin s' _ _) = Inf (s \<noteq> s')"
| "c_div (Fin s _ _) (Inf s') = Fin (s \<noteq> s') 0 0"
| "c_div _ _ = Nan"

definition float_div :: "pyfloat \<Rightarrow> pyfloat \<Rightarrow> pyfloat result" where
  "float_div a b =
     (if float_is_zero b then Inl (ZeroDivisionError ''division by zero'') else Inr (c_div a b))"

text \<open>C's \<open>fmod\<close>: exact, with the sign of the dividend.\<close>

fun c_fmod :: "pyfloat \<Rightarrow> pyfloat \<Rightarrow> pyfloat" where
  "c_fmod (Fin s m e) (Fin s' m' e') =
     (let q = min e e';
          r = (m * 2 ^ nat (e - q)) mod (m' * 2 ^ nat (e' - q))
      in if r = 0 then Fin s 0 0 else mk_fin s r q)"
| "c_fmod (Fin s m e) (Inf _) = Fin s m e"
| "c_fmod _ _ = Nan"

definition adjust_mod :: "pyfloat \<Rightarrow> pyfloat \<Rightarrow> pyfloat" where
  "adjust_mod m b =
     (if float_is_zero m then Fin (float_sign b) 0 0
      else if float_lt0 b \<noteq> float_lt0 m then float_add m b
      else m)"

definition float_mod :: "pyfloat \<Rightarrow> pyfloat \<Rightarrow> pyfloat result" where
  "float_mod a b =
     (if float_is_zero b then Inl (ZeroDivisionError ''division by zero'')
      else Inr (adjust_mod (c_fmod a b) b))"

text \<open>C's \<open>floor\<close>.\<close>

fun c_floor :: "pyfloat \<Rightarrow> pyfloat" where
  "c_floor (Fin s m e) =
     (if 0 \<le> e then Fin s m e
      else
        let i = signed s m div 2 ^ nat (- e)
        in if i = 0 then Fin s 0 0 else mk_fin (i < 0) (nat \<bar>i\<bar>) 0)"
| "c_floor x = x"

definition one_float :: pyfloat where
  "one_float = Fin False 1 0"

definition half_float :: pyfloat where
  "half_float = Fin False 1 (- 1)"

fun float_gt :: "pyfloat \<Rightarrow> pyfloat \<Rightarrow> bool" where
  "float_gt (Fin s m e) (Fin s' m' e') =
     (let q = min e e'
      in signed s' m' * 2 ^ nat (e' - q) < signed s m * 2 ^ nat (e - q))"
| "float_gt (Inf s) (Inf s') \<longleftrightarrow> \<not> s \<and> s'"
| "float_gt (Inf s) (Fin _ _ _) \<longleftrightarrow> \<not> s"
| "float_gt (Fin _ _ _) (Inf s) \<longleftrightarrow> s"
| "float_gt _ _ \<longleftrightarrow> False"

definition snap_quotient :: "pyfloat \<Rightarrow> pyfloat" where
  "snap_quotient q =
     (let fl = c_floor q
      in if float_gt (float_sub q fl) half_float then float_add fl one_float else fl)"

definition float_floordiv :: "pyfloat \<Rightarrow> pyfloat \<Rightarrow> pyfloat result" where
  "float_floordiv a b =
     (if float_is_zero b then Inl (ZeroDivisionError ''division by zero'')
      else
        let m = c_fmod a b;
            q0 = c_div (float_sub a m) b;
            q = (if \<not> float_is_zero m \<and> float_lt0 b \<noteq> float_lt0 m then float_sub q0 one_float else q0)
        in Inr (if float_is_zero q then Fin (float_sign (c_div a b)) 0 0 else snap_quotient q))"

end
