(* ===== verification/Py_Json.thy ===== *)
theory Py_Json
  imports Py_Float
begin

text \<open>
  The part of Python's \<open>json\<close> module the program relies on: \<open>JSONDecoder.raw_decode\<close> (the C
  scanner, strict mode) and \<open>json.dumps\<close> with its default separators, with and without
  \<open>sort_keys\<close>. The scanner works on the rest of the text instead of an index into it. Its fuel is
  the length of the text: \<open>scan_fuel\<close> shows that more never changes the result.
\<close>

datatype json =
    JNull
  | JBool bool
  | JInt int
  | JFloat pyfloat
  | JStr string
  | JArr "json list"
  | JObj "(string \<times> json) list"

type_synonym json_dict = "(string, json) dict"

section \<open>Characters and strings\<close>

abbreviation dquote :: char where "dquote \<equiv> CHR 0x22"
abbreviation backslash :: char where "backslash \<equiv> CHR 0x5C"
abbreviation newline :: char where "newline \<equiv> CHR 0x0A"

definition is_json_ws :: "char \<Rightarrow> bool" where
  "is_json_ws c \<longleftrightarrow> c = CHR '' '' \<or> c = CHR 0x09 \<or> c = newline \<or> c = CHR 0x0D"

definition skip_ws :: "string \<Rightarrow> string" where
  "skip_ws s = dropWhile is_json_ws s"

definition hex_val :: "char \<Rightarrow> nat option" where
  "hex_val c =
     (if is_digit c then Some (code c - 48)
      else if 97 \<le> code c \<and> code c \<le> 102 then Some (code c - 87)
      else if 65 \<le> code c \<and> code c \<le> 70 then Some (code c - 55)
      else None)"

definition hex4 :: "string \<Rightarrow> nat option" where
  "hex4 s =
     (case s of
        a # b # c # d # _ \<Rightarrow>
          (case (hex_val a, hex_val b, hex_val c, hex_val d) of
             (Some w, Some x, Some y, Some z) \<Rightarrow> Some (((w * 16 + x) * 16 + y) * 16 + z)
           | _ \<Rightarrow> None)
      | _ \<Rightarrow> None)"

text \<open>UTF-8 of a code point; a lone surrogate is encoded like any other three-byte code point.\<close>

definition utf8 :: "nat \<Rightarrow> string" where
  "utf8 n =
     (if n < 0x80 then [char_of n]
      else if n < 0x800 then [char_of (0xC0 + n div 64), char_of (0x80 + n mod 64)]
      else if n < 0x10000 then
        [char_of (0xE0 + n div 4096), char_of (0x80 + n div 64 mod 64), char_of (0x80 + n mod 64)]
      else
        [char_of (0xF0 + n div 262144), char_of (0x80 + n div 4096 mod 64),
         char_of (0x80 + n div 64 mod 64), char_of (0x80 + n mod 64)])"

definition simple_escape :: "char \<Rightarrow> char option" where
  "simple_escape c =
     (if c = dquote \<or> c = backslash \<or> c = CHR ''/'' then Some c
      else if c = CHR ''b'' then Some (CHR 0x08)
      else if c = CHR ''f'' then Some (CHR 0x0C)
      else if c = CHR ''n'' then Some newline
      else if c = CHR ''r'' then Some (CHR 0x0D)
      else if c = CHR ''t'' then Some (CHR 0x09)
      else None)"

definition is_high :: "nat \<Rightarrow> bool" where
  "is_high n \<longleftrightarrow> 0xD800 \<le> n \<and> n \<le> 0xDBFF"

definition is_low :: "nat \<Rightarrow> bool" where
  "is_low n \<longleftrightarrow> 0xDC00 \<le> n \<and> n \<le> 0xDFFF"

text \<open>One \<open>\uXXXX\<close> escape, after the \<open>u\<close>: the text it stands for and the number of characters used.\<close>

definition unicode_escape :: "string \<Rightarrow> (string \<times> nat) option" where
  "unicode_escape s =
     (case hex4 s of
        None \<Rightarrow> None
      | Some n \<Rightarrow>
          (if is_high n \<and> take 2 (drop 4 s) = [backslash, CHR ''u''] then
             (case hex4 (drop 6 s) of
                None \<Rightarrow> None
              | Some m \<Rightarrow>
                  if is_low m
                  then Some (utf8 (0x10000 + (n - 0xD800) * 0x400 + (m - 0xDC00)), 10)
                  else Some (utf8 n, 4))
           else Some (utf8 n, 4)))"

text \<open>The body of a string literal, after its opening quote.\<close>

fun scan_string :: "string \<Rightarrow> (string \<times> string) option" where
  "scan_string [] = None"
| "scan_string (c # s) =
     (if c = dquote then Some ([], s)
      else if code c < 32 then None
      else if c = backslash then
        (case s of
           [] \<Rightarrow> None
         | e # t \<Rightarrow>
             if e = CHR ''u'' then
               (case unicode_escape t of
                  None \<Rightarrow> None
                | Some (u, k) \<Rightarrow>
                    (case scan_string (drop k t) of
                       None \<Rightarrow> None
                     | Some (r, rest) \<Rightarrow> Some (u @ r, rest)))
             else
               (case simple_escape e of
                  None \<Rightarrow> None
                | Some x \<Rightarrow>
                    (case scan_string t of
                       None \<Rightarrow> None
                     | Some (r, rest) \<Rightarrow> Some (x # r, rest))))
      else
        (case scan_string s of
           None \<Rightarrow> None
         | Some (r, rest) \<Rightarrow> Some (c # r, rest)))"

section \<open>Numbers\<close>

text \<open>CPython refuses to convert integer literals of more than 4300 digits (a \<open>ValueError\<close>).\<close>

definition int_max_str_digits :: nat where
  "int_max_str_digits = 4300"

definition scan_frac :: "string \<Rightarrow> string \<times> string" where
  "scan_frac s =
     (case s of
        c # d # t \<Rightarrow>
          if c = CHR ''.'' \<and> is_digit d
          then (takeWhile is_digit (d # t), dropWhile is_digit (d # t)) else ([], s)
      | _ \<Rightarrow> ([], s))"

definition scan_exp :: "string \<Rightarrow> int option \<times> string" where
  "scan_exp s =
     (case s of
        c # t \<Rightarrow>
          if c = CHR ''e'' \<or> c = CHR ''E'' then
            (let neg = (t \<noteq> [] \<and> hd t = CHR ''-'');
                 t' = (if t \<noteq> [] \<and> (hd t = CHR ''-'' \<or> hd t = CHR ''+'') then tl t else t);
                 ds = takeWhile is_digit t'
             in if ds = [] then (None, s)
                else (Some ((if neg then - 1 else 1) * int (nat_of_digits ds)),
                      dropWhile is_digit t'))
          else (None, s)
      | [] \<Rightarrow> (None, s))"

definition scan_unsigned :: "bool \<Rightarrow> string \<Rightarrow> (json \<times> string) option" where
  "scan_unsigned neg s =
     (case s of
        [] \<Rightarrow> None
      | c # t \<Rightarrow>
          if \<not> is_digit c then None
          else
            (let ip = (if c = CHR ''0'' then [c] else takeWhile is_digit s);
                 s1 = drop (length ip) s;
                 (fp, s2) = scan_frac s1;
                 (ex, s3) = scan_exp s2
             in if fp = [] \<and> ex = None then
                  (if int_max_str_digits < length ip then None
                   else Some (JInt ((if neg then - 1 else 1) * int (nat_of_digits ip)), s1))
                else
                  Some (JFloat (scale10 neg (nat_of_digits (ip @ fp))
                                  ((case ex of None \<Rightarrow> 0 | Some e \<Rightarrow> e) - int (length fp))), s3)))"

definition scan_number :: "string \<Rightarrow> (json \<times> string) option" where
  "scan_number s =
     (case s of
        [] \<Rightarrow> None
      | c # t \<Rightarrow> if c = CHR ''-'' then scan_unsigned True t else scan_unsigned False s)"

section \<open>Values\<close>

text \<open>The constants the scanner tries before numbers, with the value each stands for.\<close>

definition scan_atom :: "string \<Rightarrow> (json \<times> string) option" where
  "scan_atom s =
     (if startswith s ''null'' then Some (JNull, drop 4 s)
      else if startswith s ''true'' then Some (JBool True, drop 4 s)
      else if startswith s ''false'' then Some (JBool False, drop 5 s)
      else if startswith s ''NaN'' then Some (JFloat Nan, drop 3 s)
      else if startswith s ''Infinity'' then Some (JFloat (Inf False), drop 8 s)
      else if startswith s ''-Infinity'' then Some (JFloat (Inf True), drop 9 s)
      else scan_number s)"

fun scan_value :: "nat \<Rightarrow> string \<Rightarrow> (json \<times> string) option"
  and scan_members :: "nat \<Rightarrow> string \<Rightarrow> ((string \<times> json) list \<times> string) option"
  and scan_elems :: "nat \<Rightarrow> string \<Rightarrow> (json list \<times> string) option" where
  "scan_value 0 s = None"
| "scan_value (Suc n) s =
     (case s of
        [] \<Rightarrow> None
      | c # t \<Rightarrow>
          if c = dquote then
            (case scan_string t of None \<Rightarrow> None | Some (x, r) \<Rightarrow> Some (JStr x, r))
          else if c = CHR ''{'' then
            (case skip_ws t of
               [] \<Rightarrow> None
             | d # u \<Rightarrow>
                 if d = CHR ''}'' then Some (JObj [], u)
                 else (case scan_members n (d # u) of
                         None \<Rightarrow> None
                       | Some (ps, r) \<Rightarrow> Some (JObj (dict_of_pairs ps), r)))
          else if c = CHR ''['' then
            (case skip_ws t of
               [] \<Rightarrow> None
             | d # u \<Rightarrow>
                 if d = CHR '']'' then Some (JArr [], u)
                 else (case scan_elems n (d # u) of
                         None \<Rightarrow> None
                       | Some (vs, r) \<Rightarrow> Some (JArr vs, r)))
          else scan_atom s)"
| "scan_members 0 s = None"
| "scan_members (Suc n) s =
     (if s = [] \<or> hd s \<noteq> dquote then None
      else
        (case scan_string (tl s) of
           None \<Rightarrow> None
         | Some (k, s1) \<Rightarrow>
             (let s2 = skip_ws s1
              in if s2 = [] \<or> hd s2 \<noteq> CHR '':'' then None
                 else
                   (case scan_value n (skip_ws (tl s2)) of
                      None \<Rightarrow> None
                    | Some (v, s3) \<Rightarrow>
                        (case skip_ws s3 of
                           [] \<Rightarrow> None
                         | d # u \<Rightarrow>
                             if d = CHR ''}'' then Some ([(k, v)], u)
                             else if d = CHR '','' then
                               (case scan_members n (skip_ws u) of
                                  None \<Rightarrow> None
                                | Some (ps, r) \<Rightarrow> Some ((k, v) # ps, r))
                             else None)))))"
| "scan_elems 0 s = None"
| "scan_elems (Suc n) s =
     (case scan_value n s of
        None \<Rightarrow> None
      | Some (v, s3) \<Rightarrow>
          (case skip_ws s3 of
             [] \<Rightarrow> None
           | d # u \<Rightarrow>
               if d = CHR '']'' then Some ([v], u)
               else if d = CHR '','' then
                 (case scan_elems n (skip_ws u) of
                    None \<Rightarrow> None
                  | Some (vs, r) \<Rightarrow> Some (v # vs, r))
               else None))"

text \<open>\<open>decoder.raw_decode(text, index)\<close> on the text from the index on. \<open>None\<close> is \<open>ValueError\<close>.\<close>

definition raw_decode :: "string \<Rightarrow> (json \<times> string) option" where
  "raw_decode s = scan_value (Suc (2 * length s)) s"

section \<open>dumps\<close>

definition hex4_str :: "nat \<Rightarrow> string" where
  "hex4_str n =
     [hex_digit (n div 4096 mod 16), hex_digit (n div 256 mod 16),
      hex_digit (n div 16 mod 16), hex_digit (n mod 16)]"

definition u_escape :: "nat \<Rightarrow> string" where
  "u_escape n = [backslash, CHR ''u''] @ hex4_str n"

definition escape_code :: "nat \<Rightarrow> string" where
  "escape_code n =
     (if n < 0x10000 then u_escape n
      else u_escape (0xD800 + (n - 0x10000) div 0x400) @ u_escape (0xDC00 + (n - 0x10000) mod 0x400))"

definition escape_ascii :: "char \<Rightarrow> string" where
  "escape_ascii c =
     (if c = dquote \<or> c = backslash then [backslash, c]
      else if c = newline then [backslash, CHR ''n'']
      else if c = CHR 0x0D then [backslash, CHR ''r'']
      else if c = CHR 0x09 then [backslash, CHR ''t'']
      else if c = CHR 0x0C then [backslash, CHR ''f'']
      else if c = CHR 0x08 then [backslash, CHR ''b'']
      else if 32 \<le> code c \<and> code c \<le> 126 then [c]
      else u_escape (code c))"

text \<open>The code points of UTF-8 text; a byte that starts no sequence stands for itself.\<close>

fun code_points :: "string \<Rightarrow> nat list" where
  "code_points [] = []"
| "code_points (c # s) =
     (let n = code c
      in if 0xF0 \<le> n \<and> 3 \<le> length s then
           ((n - 0xF0) * 262144 + (code (s ! 0) - 0x80) * 4096 + (code (s ! 1) - 0x80) * 64
             + (code (s ! 2) - 0x80)) # code_points (drop 3 s)
         else if 0xE0 \<le> n \<and> 2 \<le> length s then
           ((n - 0xE0) * 4096 + (code (s ! 0) - 0x80) * 64 + (code (s ! 1) - 0x80))
             # code_points (drop 2 s)
         else if 0xC0 \<le> n \<and> 1 \<le> length s then
           ((n - 0xC0) * 64 + (code (s ! 0) - 0x80)) # code_points (drop 1 s)
         else n # code_points s)"

definition escape_point :: "nat \<Rightarrow> string" where
  "escape_point n = (if n < 0x80 then escape_ascii (char_of n) else escape_code n)"

definition dumps_str :: "string \<Rightarrow> string" where
  "dumps_str s = dquote # concat (map escape_point (code_points s)) @ [dquote]"

definition dumps_float :: "pyfloat \<Rightarrow> string" where
  "dumps_float f =
     (case f of
        Nan \<Rightarrow> ''NaN''
      | Inf s \<Rightarrow> (if s then ''-Infinity'' else ''Infinity'')
      | Fin _ _ _ \<Rightarrow> float_repr f)"

fun dumps :: "json \<Rightarrow> string" where
  "dumps JNull = ''null''"
| "dumps (JBool b) = (if b then ''true'' else ''false'')"
| "dumps (JInt i) = int_str i"
| "dumps (JFloat f) = dumps_float f"
| "dumps (JStr s) = dumps_str s"
| "dumps (JArr vs) = ''['' @ join '', '' (map dumps vs) @ '']''"
| "dumps (JObj d) =
     ''{'' @ join '', '' (map (\<lambda>(k, v). dumps_str k @ '': '' @ dumps v) d) @ ''}''"

text \<open>\<open>sort_keys=True\<close>: every object, at every depth, in the order of its keys.\<close>

fun sort_keys :: "json \<Rightarrow> json" where
  "sort_keys (JArr vs) = JArr (map sort_keys vs)"
| "sort_keys (JObj d) = JObj (sort_key fst (map (\<lambda>(k, v). (k, sort_keys v)) d))"
| "sort_keys v = v"

definition dumps_sorted :: "json \<Rightarrow> string" where
  "dumps_sorted v = dumps (sort_keys v)"

section \<open>The scanner consumes its input\<close>

lemma skip_ws_length: "length (skip_ws s) \<le> length s"
  by (simp add: skip_ws_def length_dropWhile_le)

lemma scan_frac_length: "scan_frac s = (f, r) \<Longrightarrow> length r \<le> length s"
proof -
  assume a: "scan_frac s = (f, r)"
  consider "r = s" | c d t where "s = c # d # t" "r = dropWhile is_digit (d # t)"
    using a unfolding scan_frac_def by (auto split: list.splits if_splits)
  then show ?thesis
  proof cases
    case 2
    then show ?thesis using length_dropWhile_le [of is_digit "d # t"] by simp
  qed simp
qed

lemma scan_exp_length: "scan_exp s = (f, r) \<Longrightarrow> length r \<le> length s"
proof -
  assume a: "scan_exp s = (f, r)"
  consider "r = s" | c t where "s = c # t" "r = dropWhile is_digit t \<or> r = dropWhile is_digit (tl t)"
    using a unfolding scan_exp_def Let_def by (cases s) (auto split: if_splits)
  then show ?thesis
  proof cases
    case 2
    then show ?thesis
      using length_dropWhile_le [of is_digit t] length_dropWhile_le [of is_digit "tl t"] by auto
  qed simp
qed

lemma scan_unsigned_shorter:
  assumes a: "scan_unsigned neg s = Some (v, r)"
  shows "length r < length s"
proof -
  from a obtain c t where s: "s = c # t" and c: "is_digit c"
    by (auto simp: scan_unsigned_def split: list.splits if_splits)
  define ip where "ip = (if c = CHR ''0'' then [c] else takeWhile is_digit (c # t))"
  have ip: "0 < length ip" using c by (simp add: ip_def)
  obtain fp s2 where f: "scan_frac (drop (length ip) (c # t)) = (fp, s2)" by fastforce
  obtain ex s3 where x: "scan_exp s2 = (ex, s3)" by fastforce
  have "r = s3 \<or> r = drop (length ip) (c # t)"
    using a unfolding scan_unsigned_def s list.case Let_def ip_def [symmetric] f prod.case x
    by (auto split: if_splits)
  moreover have "length s3 \<le> length (drop (length ip) (c # t))"
    using scan_frac_length [OF f] scan_exp_length [OF x] by simp
  moreover have "length (drop (length ip) (c # t)) < length s" using ip s by simp
  ultimately show ?thesis by auto
qed

lemma scan_atom_shorter: "s \<noteq> [] \<Longrightarrow> scan_atom s = Some (v, r) \<Longrightarrow> length r < length s"
  by (cases s)
    (auto simp: scan_atom_def scan_number_def split: if_splits dest!: scan_unsigned_shorter)

lemma scan_string_shorter: "scan_string s = Some (x, r) \<Longrightarrow> length r < length s"
proof (induction s arbitrary: x r rule: scan_string.induct)
  case 1
  then show ?case by simp
next
  case (2 c s)
  show ?case
  proof (cases "c = dquote \<or> code c < 32 \<or> c \<noteq> backslash")
    case True
    with "2.prems" show ?thesis
      by (auto split: if_splits option.splits dest!: "2.IH"(3))
  next
    case False
    then have c: "c \<noteq> dquote" "\<not> code c < 32" "c = backslash" by auto
    from "2.prems" c obtain e t where s: "s = e # t" by (cases s) auto
    show ?thesis
    proof (cases "e = CHR ''u''")
      case True
      with "2.prems" c s obtain u k y r' where
        u: "unicode_escape t = Some (u, k)" and y: "scan_string (drop k t) = Some (y, r)"
        by (auto split: option.splits)
      have "length r < length (drop k t)" using "2.IH"(1)[OF c s True u] y by auto
      with s show ?thesis by simp
    next
      case F: False
      with "2.prems" c s obtain z y where
        z: "simple_escape e = Some z" and y: "scan_string t = Some (y, r)"
        by (auto split: option.splits)
      have "length r < length t" using "2.IH"(2)[OF c s F z] y by auto
      with s show ?thesis by simp
    qed
  qed
qed

lemma skip_ws_Cons: "skip_ws t = d # u \<Longrightarrow> length u < length t"
  using skip_ws_length [of t] by simp

text \<open>Inversion of one unfolding of the scanner.\<close>

lemma scan_value_cases:
  assumes "scan_value (Suc n) s = Some (v, r)"
  obtains (string) t x where "s = dquote # t" "scan_string t = Some (x, r)" "v = JStr x"
  | (empty_obj) t where "s = CHR ''{'' # t" "skip_ws t = CHR ''}'' # r" "v = JObj []"
  | (obj) t ps where "s = CHR ''{'' # t" "scan_members n (skip_ws t) = Some (ps, r)"
      "v = JObj (dict_of_pairs ps)"
  | (empty_arr) t where "s = CHR ''['' # t" "skip_ws t = CHR '']'' # r" "v = JArr []"
  | (arr) t vs where "s = CHR ''['' # t" "scan_elems n (skip_ws t) = Some (vs, r)" "v = JArr vs"
  | (atom) "s \<noteq> []" "hd s \<noteq> CHR ''{''" "scan_atom s = Some (v, r)"
proof -
  from assms obtain c t where s: "s = c # t" by (cases s) auto
  consider "c = dquote" | "c = CHR ''{''" | "c = CHR ''[''"
    | "c \<noteq> dquote" "c \<noteq> CHR ''{''" "c \<noteq> CHR ''[''" by blast
  then show thesis
  proof cases
    case 1
    with assms s string show thesis by (auto split: option.splits)
  next
    case 2
    with assms s empty_obj obj show thesis
      by (cases "skip_ws t") (auto split: option.splits if_splits)
  next
    case 3
    with assms s empty_arr arr show thesis
      by (cases "skip_ws t") (auto split: option.splits if_splits)
  next
    case 4
    with assms s atom show thesis by auto
  qed
qed

lemma scan_members_cases:
  assumes "scan_members (Suc n) s = Some (ps, r)"
  obtains t k s1 s2 v s3 d u where
    "s = dquote # t" "scan_string t = Some (k, s1)" "skip_ws s1 = CHR '':'' # s2"
    "scan_value n (skip_ws s2) = Some (v, s3)" "skip_ws s3 = d # u"
    "d = CHR ''}'' \<and> ps = [(k, v)] \<and> r = u
     \<or> d = CHR '','' \<and> (\<exists>qs. scan_members n (skip_ws u) = Some (qs, r) \<and> ps = (k, v) # qs)"
proof -
  from assms obtain t where s: "s = dquote # t" by (cases s) (auto split: if_splits)
  from assms s obtain k s1 where k: "scan_string t = Some (k, s1)"
    by (auto split: option.splits)
  from assms s k obtain s2 where s2: "skip_ws s1 = CHR '':'' # s2"
    by (cases "skip_ws s1") (auto simp: Let_def split: if_splits)
  from assms s k s2 obtain v s3 where v: "scan_value n (skip_ws s2) = Some (v, s3)"
    by (auto simp: Let_def split: option.splits)
  from assms s k s2 v obtain d u where du: "skip_ws s3 = d # u"
    by (cases "skip_ws s3") (auto simp: Let_def)
  have "d = CHR ''}'' \<and> ps = [(k, v)] \<and> r = u
     \<or> d = CHR '','' \<and> (\<exists>qs. scan_members n (skip_ws u) = Some (qs, r) \<and> ps = (k, v) # qs)"
    using assms s k s2 v du by (auto simp: Let_def split: if_splits option.splits)
  then show thesis by (rule that [OF s k s2 v du])
qed

lemma scan_elems_cases:
  assumes "scan_elems (Suc n) s = Some (vs, r)"
  obtains v s3 d u where
    "scan_value n s = Some (v, s3)" "skip_ws s3 = d # u"
    "d = CHR '']'' \<and> vs = [v] \<and> r = u
     \<or> d = CHR '','' \<and> (\<exists>ws. scan_elems n (skip_ws u) = Some (ws, r) \<and> vs = v # ws)"
  using assms by (fastforce split: option.splits list.splits if_splits)

lemma scan_value_step_shorter:
  assumes "scan_value (Suc n) s = Some (v, r)"
    and members: "\<And>s ps r. scan_members n s = Some (ps, r) \<Longrightarrow> length r < length s"
    and elems: "\<And>s vs r. scan_elems n s = Some (vs, r) \<Longrightarrow> length r < length s"
  shows "length r < length s"
  using assms(1)
proof (cases rule: scan_value_cases)
  case (string t x)
  then show ?thesis using scan_string_shorter by fastforce
next
  case (empty_obj t)
  then show ?thesis using skip_ws_Cons by fastforce
next
  case (obj t ps)
  then show ?thesis using members [of "skip_ws t" ps r] skip_ws_length [of t] by simp
next
  case (empty_arr t)
  then show ?thesis using skip_ws_Cons by fastforce
next
  case (arr t vs)
  then show ?thesis using elems [of "skip_ws t" vs r] skip_ws_length [of t] by simp
next
  case atom
  then show ?thesis by (simp add: scan_atom_shorter)
qed

lemma scan_members_step_shorter:
  assumes "scan_members (Suc n) s = Some (ps, r)"
    and "\<And>s v r. scan_value n s = Some (v, r) \<Longrightarrow> length r < length s"
    and "\<And>s ps r. scan_members n s = Some (ps, r) \<Longrightarrow> length r < length s"
  shows "length r < length s"
  using assms(1)
proof (cases rule: scan_members_cases)
  case (1 t k s1 s2 v s3 d u)
  have "length s1 < length t" by (rule scan_string_shorter [OF 1(2)])
  moreover have "length s2 < length s1" by (rule skip_ws_Cons [OF 1(3)])
  moreover have "length s3 < length s2" using assms(2) [OF 1(4)] skip_ws_length [of s2] by linarith
  moreover have "length u < length s3" by (rule skip_ws_Cons [OF 1(5)])
  moreover have "length r \<le> length u"
    using 1(6) assms(3) [of "skip_ws u" _ r] skip_ws_length [of u] by force
  ultimately show ?thesis using 1(1) by simp
qed

lemma scan_elems_step_shorter:
  assumes "scan_elems (Suc n) s = Some (vs, r)"
    and "\<And>s v r. scan_value n s = Some (v, r) \<Longrightarrow> length r < length s"
    and "\<And>s vs r. scan_elems n s = Some (vs, r) \<Longrightarrow> length r < length s"
  shows "length r < length s"
  using assms(1)
proof (cases rule: scan_elems_cases)
  case (1 v s3 d u)
  have "length s3 < length s" by (rule assms(2) [OF 1(1)])
  moreover have "length u < length s3" by (rule skip_ws_Cons [OF 1(2)])
  moreover have "length r \<le> length u"
    using 1(3) assms(3) [of "skip_ws u" _ r] skip_ws_length [of u] by force
  ultimately show ?thesis by simp
qed

lemma scan_shorter:
  "\<And>v r. scan_value n s = Some (v, r) \<Longrightarrow> length r < length s"
  "\<And>ps r. scan_members n s = Some (ps, r) \<Longrightarrow> length r < length s"
  "\<And>vs r. scan_elems n s = Some (vs, r) \<Longrightarrow> length r < length s"
proof (induction n arbitrary: s)
  case 0
  { case 1 then show ?case by simp }
  { case 2 then show ?case by simp }
  { case 3 then show ?case by simp }
next
  case (Suc n)
  { case 1 show ?case by (rule scan_value_step_shorter [OF 1 Suc.IH(2,3)]) }
  { case 2 show ?case by (rule scan_members_step_shorter [OF 2 Suc.IH(1,2)]) }
  { case 3 show ?case by (rule scan_elems_step_shorter [OF 3 Suc.IH(1,3)]) }
qed

text \<open>A step depends on the fuel only through what it is given for shorter texts.\<close>

lemma scan_members_cong:
  assumes v: "\<And>s'. length s' < length s \<Longrightarrow> scan_value n s' = scan_value m s'"
    and q: "\<And>s'. length s' < length s \<Longrightarrow> scan_members n s' = scan_members m s'"
  shows "scan_members (Suc n) s = scan_members (Suc m) s"
proof (cases "s = [] \<or> hd s \<noteq> dquote \<or> scan_string (tl s) = None")
  case False
  then obtain t k s1 where s: "s = dquote # t" and k: "scan_string t = Some (k, s1)" by (cases s) auto
  have l1: "length s1 < length t" using k scan_string_shorter by blast
  show ?thesis
  proof (cases "skip_ws s1 = [] \<or> hd (skip_ws s1) \<noteq> CHR '':''")
    case F: False
    then obtain s2 where s2: "skip_ws s1 = CHR '':'' # s2" by (cases "skip_ws s1") auto
    have l2: "length (skip_ws s2) < length t"
      using l1 skip_ws_Cons [OF s2] skip_ws_length [of s2] by linarith
    have ev: "scan_value n (skip_ws s2) = scan_value m (skip_ws s2)" using l2 s by (intro v) simp
    show ?thesis
    proof (cases "scan_value m (skip_ws s2)")
      case S: (Some q')
      obtain w s3 where q': "q' = (w, s3)" by fastforce
      have l3: "length s3 < length t" using scan_shorter(1) S q' l2 by fastforce
      have "scan_members n (skip_ws u) = scan_members m (skip_ws u)" if "skip_ws s3 = d # u" for d u
        using skip_ws_Cons [OF that] skip_ws_length [of u] l3 s by (intro q) simp
      then show ?thesis using k s2 ev S q' by (auto simp: s split: list.splits)
    qed (use k s2 ev in \<open>simp add: s\<close>)
  qed (use k in \<open>auto simp: s\<close>)
qed auto

lemma scan_elems_cong:
  assumes v: "scan_value n s = scan_value m s"
    and q: "\<And>s'. length s' < length s \<Longrightarrow> scan_elems n s' = scan_elems m s'"
  shows "scan_elems (Suc n) s = scan_elems (Suc m) s"
proof (cases "scan_value m s")
  case (Some p)
  obtain w s3 where p: "p = (w, s3)" by fastforce
  have l3: "length s3 < length s" using scan_shorter(1) Some p by blast
  have "scan_elems n (skip_ws u) = scan_elems m (skip_ws u)" if "skip_ws s3 = d # u" for d u
    using skip_ws_Cons [OF that] skip_ws_length [of u] l3 by (intro q) simp
  then show ?thesis using v Some p by (auto split: list.splits)
qed (use v in simp)

lemma scan_value_cong:
  assumes "\<And>s'. length s' < length s \<Longrightarrow> scan_members n s' = scan_members m s'"
    and "\<And>s'. length s' < length s \<Longrightarrow> scan_elems n s' = scan_elems m s'"
  shows "scan_value (Suc n) s = scan_value (Suc m) s"
proof (cases s)
  case (Cons c t)
  have "length (skip_ws t) < length s" using Cons skip_ws_length [of t] by simp
  with assms have "scan_members n (skip_ws t) = scan_members m (skip_ws t)"
    "scan_elems n (skip_ws t) = scan_elems m (skip_ws t)" by blast+
  then show ?thesis using Cons by (auto split: list.splits)
qed simp

text \<open>Beyond twice the length of the text, fuel makes no difference.\<close>

lemma scan_fuel:
  "2 * length s < n \<Longrightarrow> 2 * length s < m \<Longrightarrow> scan_value n s = scan_value m s"
  "2 * length s < n \<Longrightarrow> 2 * length s < m \<Longrightarrow> scan_members n s = scan_members m s"
  "2 * length s + 1 < n \<Longrightarrow> 2 * length s + 1 < m \<Longrightarrow> scan_elems n s = scan_elems m s"
proof (induction n arbitrary: s m)
  case 0
  { case 1 then show ?case by simp }
  { case 2 then show ?case by simp }
  { case 3 then show ?case by simp }
next
  case (Suc n)
  { case 1
    then obtain m' where m: "m = Suc m'" by (cases m) auto
    show ?case unfolding m using 1 m
      by (intro scan_value_cong Suc.IH(2,3); simp) }
  { case 2
    then obtain m' where m: "m = Suc m'" by (cases m) auto
    show ?case unfolding m using 2 m
      by (intro scan_members_cong Suc.IH(1,2); simp) }
  { case 3
    then obtain m' where m: "m = Suc m'" by (cases m) auto
    show ?case unfolding m using 3 m
      by (intro scan_elems_cong Suc.IH(1,3); simp) }
qed

end
