(* ===== verification/Json_Roundtrip.thy ===== *)
theory Json_Roundtrip
  imports Py_Json
begin

text \<open>
  What \<open>dumps\<close> writes, \<open>raw_decode\<close> reads back: for every value with well-formed text,
  dictionaries with distinct keys and plain decimal numbers, whatever text follows an object.
  This is what lets a structured result survive the text boundary between two agents.
\<close>

section \<open>Round trip\<close>

definition scalar :: "nat \<Rightarrow> bool" where
  "scalar n \<longleftrightarrow> n < 0xD800 \<or> 0xE000 \<le> n \<and> n < 0x110000"

text \<open>Well-formed text: it is the UTF-8 of its code points, none of them a surrogate.\<close>

definition text_ok :: "string \<Rightarrow> bool" where
  "text_ok s \<longleftrightarrow> concat (map utf8 (code_points s)) = s \<and> list_all scalar (code_points s)"

text \<open>ASCII text is such text.\<close>

definition ascii :: "string \<Rightarrow> bool" where
  "ascii s \<longleftrightarrow> list_all (\<lambda>c. code c < 128) s"

lemma ascii_text_ok: "ascii s \<Longrightarrow> text_ok s"
proof (induction s)
  case (Cons c s)
  then have c: "code c < 128" by (simp add: ascii_def)
  have "code_points (c # s) = code c # code_points s" using c by simp
  moreover have "utf8 (code c) = [c]" using c by (simp add: utf8_def)
  ultimately show ?case using Cons c by (simp add: text_ok_def ascii_def scalar_def)
qed (simp add: text_ok_def)

lemma hex_val_digit: "d < 16 \<Longrightarrow> hex_val (hex_digit d) = Some d"
  by (auto simp: hex_val_def hex_digit_def is_digit_def)

lemma hex4_hex4_str: "n < 0x10000 \<Longrightarrow> hex4 (hex4_str n @ t) = Some n"
proof -
  assume n: "n < 0x10000"
  define a b c where "a = n div 16" and "b = n div 256" and "c = n div 4096"
  have ab: "b = a div 16" "c = b div 16" "c < 16"
    using n by (simp_all add: a_def b_def c_def flip: div_mult2_eq)
  then have "((c mod 16 * 16 + b mod 16) * 16 + a mod 16) * 16 + n mod 16 = n"
    using a_def by simp
  then show ?thesis
    by (simp add: hex4_def hex4_str_def hex_val_digit flip: a_def b_def c_def)
qed

lemma hex4_str_parts: "length (hex4_str n) = 4" "drop 4 (hex4_str n @ t) = t"
  by (simp_all add: hex4_str_def)

text \<open>What an escape contributes to the scanned string.\<close>

definition scans_as :: "string \<Rightarrow> string \<Rightarrow> bool" where
  "scans_as u w \<longleftrightarrow>
     (\<forall>t r rest. scan_string t = Some (r, rest) \<longrightarrow> scan_string (u @ t) = Some (w @ r, rest))"

lemma scans_as_u_escape:
  assumes "n < 0x10000" "\<not> is_high n"
  shows "scans_as (u_escape n) (utf8 n)"
  using assms
  by (auto simp: scans_as_def u_escape_def unicode_escape_def hex4_hex4_str hex4_str_parts)

lemma scans_as_pair:
  assumes n: "0x10000 \<le> n" "n < 0x110000"
  shows "scans_as (escape_code n) (utf8 n)"
proof -
  define h l where "h = 0xD800 + (n - 0x10000) div 0x400" and "l = 0xDC00 + (n - 0x10000) mod 0x400"
  have hl: "h < 0x10000" "l < 0x10000" "is_high h" "is_low l"
    using n by (auto simp: h_def l_def is_high_def is_low_def)
  have j: "0x10000 + (h - 0xD800) * 0x400 + (l - 0xDC00) = n"
    using n by (simp add: h_def l_def)
  have "unicode_escape (hex4_str h @ u_escape l @ t) = Some (utf8 n, 10)" for t
    using hl j by (simp add: unicode_escape_def hex4_hex4_str u_escape_def hex4_str_def [of h]
        hex4_hex4_str [of h, unfolded hex4_str_def, simplified] )
  moreover have "drop 10 (hex4_str h @ u_escape l @ t) = t" for t
    by (simp add: hex4_str_def u_escape_def)
  ultimately show ?thesis
    using n by (auto simp: scans_as_def escape_code_def h_def [symmetric] l_def [symmetric]
        u_escape_def [of h])
qed

lemma scans_as_ascii:
  assumes n: "code c < 0x80"
  shows "scans_as (escape_ascii c) [c]"
proof -
  have u: "utf8 (code c) = [c]" using n by (simp add: utf8_def)
  consider "c = dquote \<or> c = backslash"
    | "c \<in> {newline, CHR 0x0D, CHR 0x09, CHR 0x0C, CHR 0x08}"
    | "c \<noteq> dquote" "c \<noteq> backslash" "32 \<le> code c" "code c \<le> 126"
    | "c \<noteq> dquote" "c \<noteq> backslash" "c \<notin> {newline, CHR 0x0D, CHR 0x09, CHR 0x0C, CHR 0x08}"
      "\<not> (32 \<le> code c \<and> code c \<le> 126)"
    by blast
  then show ?thesis
  proof cases
    case 1
    then show ?thesis by (auto simp: scans_as_def escape_ascii_def simple_escape_def)
  next
    case 2
    then show ?thesis by (auto simp: scans_as_def escape_ascii_def simple_escape_def)
  next
    case 3
    then have "escape_ascii c = [c]" by (auto simp: escape_ascii_def)
    with 3 show ?thesis by (auto simp: scans_as_def)
  next
    case 4
    then have "escape_ascii c = u_escape (code c)" by (auto simp: escape_ascii_def)
    with n show ?thesis using scans_as_u_escape [of "code c"] u by (simp add: is_high_def)
  qed
qed

lemma scans_as_point: "scalar n \<Longrightarrow> scans_as (escape_point n) (utf8 n)"
proof -
  assume s: "scalar n"
  consider "n < 0x80" | "0x80 \<le> n" "n < 0x10000" | "0x10000 \<le> n" "n < 0x110000"
    using s unfolding scalar_def by linarith
  then show ?thesis
  proof cases
    case 1
    then show ?thesis
      using scans_as_ascii [of "char_of n"] by (simp add: escape_point_def utf8_def)
  next
    case 2
    moreover have "\<not> is_high n" using s by (auto simp: scalar_def is_high_def)
    ultimately show ?thesis by (simp add: escape_point_def escape_code_def scans_as_u_escape)
  next
    case 3
    then show ?thesis by (simp add: escape_point_def scans_as_pair)
  qed
qed

lemma scan_string_points:
  "list_all scalar ns \<Longrightarrow>
   scan_string (concat (map escape_point ns) @ dquote # rest) = Some (concat (map utf8 ns), rest)"
proof (induction ns)
  case Nil
  then show ?case by simp
next
  case (Cons n ns)
  then show ?case using scans_as_point [of n] by (auto simp: scans_as_def)
qed

lemma scan_string_dumps: "text_ok s \<Longrightarrow> scan_string (tl (dumps_str s) @ rest) = Some (s, rest)"
  by (simp add: text_ok_def dumps_str_def scan_string_points)

section \<open>Integers\<close>

definition num_end :: "string \<Rightarrow> bool" where
  "num_end s \<longleftrightarrow>
     (s \<noteq> [] \<longrightarrow> \<not> is_digit (hd s) \<and> hd s \<noteq> CHR ''.'' \<and> hd s \<noteq> CHR ''e'' \<and> hd s \<noteq> CHR ''E'')"

lemma nat_str_hd_nonzero: "0 < n \<Longrightarrow> hd (nat_str n) \<noteq> CHR ''0''"
proof (induction n rule: nat_str.induct)
  case (1 n)
  show ?case
  proof (cases "n < 10")
    case True
    have "digit_val (digit_char n) = n" using True by simp
    then have "digit_char n \<noteq> CHR ''0''" using "1.prems" by (auto simp: digit_val_def)
    with True show ?thesis by (subst nat_str.simps) simp
  next
    case False
    with "1" show ?thesis by (subst nat_str.simps) simp
  qed
qed

lemma nat_str_0: "nat_str 0 = ''0''"
proof -
  have "digit_char 0 = CHR ''0''" by code_simp
  then show ?thesis by (subst nat_str.simps) simp
qed

lemma scan_frac_end: "num_end s \<Longrightarrow> scan_frac s = ([], s)"
  by (auto simp: scan_frac_def num_end_def split: list.splits)

lemma scan_exp_end: "num_end s \<Longrightarrow> scan_exp s = (None, s)"
  by (auto simp: scan_exp_def num_end_def split: list.splits)

lemma takeWhile_digits:
  "list_all is_digit u \<Longrightarrow> num_end s \<Longrightarrow> takeWhile is_digit (u @ s) = u"
  by (induction u) (cases s; auto simp: num_end_def)+

lemma dropWhile_digits:
  "list_all is_digit u \<Longrightarrow> num_end s \<Longrightarrow> dropWhile is_digit (u @ s) = s"
  by (induction u) (cases s; auto simp: num_end_def)+

lemma scan_unsigned_nat_str:
  assumes "num_end s" and len: "length (nat_str n) \<le> int_max_str_digits"
  shows "scan_unsigned neg (nat_str n @ s) = Some (JInt ((if neg then - 1 else 1) * int n), s)"
proof -
  obtain c t where ct: "nat_str n = c # t" by (cases "nat_str n") auto
  have dig: "list_all is_digit (c # t)" using nat_str_digits [of n] ct by simp
  have val: "nat_of_digits (c # t) = n" using nat_of_digits_nat_str [of n] ct by simp
  define ip where "ip = (if c = CHR ''0'' then [c] else takeWhile is_digit (c # t @ s))"
  have ip: "ip = c # t"
  proof (cases "n = 0")
    case True
    then show ?thesis using ct by (simp add: ip_def nat_str_0)
  next
    case False
    then have "c \<noteq> CHR ''0''" using nat_str_hd_nonzero [of n] ct by simp
    then show ?thesis using takeWhile_digits [OF dig assms(1)] by (simp add: ip_def)
  qed
  have c: "is_digit c" using dig by simp
  show ?thesis
    unfolding ct scan_unsigned_def append_Cons list.case Let_def ip_def [symmetric]
    using c assms(1) len val by (simp add: ip ct scan_frac_end scan_exp_end)
qed

lemma digit_not_start:
  "is_digit c \<Longrightarrow> c \<noteq> CHR ''n''" "is_digit c \<Longrightarrow> c \<noteq> CHR ''t''" "is_digit c \<Longrightarrow> c \<noteq> CHR ''f''"
  "is_digit c \<Longrightarrow> c \<noteq> CHR ''N''" "is_digit c \<Longrightarrow> c \<noteq> CHR ''I''"
  by (auto simp: is_digit_def)

lemma digit_not_atom:
  assumes "is_digit c"
  shows "scan_atom (c # t) = scan_unsigned False (c # t)" "scan_atom (CHR ''-'' # c # t) = scan_unsigned True (c # t)"
  using digit_not_start [OF assms] is_digit_not(2) [OF assms]
  by (simp_all add: scan_atom_def scan_number_def startswith_def)

lemma scan_atom_int:
  assumes "num_end s" and len: "length (nat_str (nat \<bar>i\<bar>)) \<le> int_max_str_digits"
  shows "scan_atom (int_str i @ s) = Some (JInt i, s)"
proof -
  obtain c t where ct: "nat_str (nat \<bar>i\<bar>) = c # t" by (cases "nat_str (nat \<bar>i\<bar>)") auto
  have c: "is_digit c" using nat_str_digits [of "nat \<bar>i\<bar>"] ct by simp
  show ?thesis
    using scan_unsigned_nat_str [OF assms, of "i < 0"] digit_not_atom [OF c, of "t @ s"] ct
    by (cases "i < 0") (simp_all add: int_str_def)
qed

section \<open>Values\<close>

text \<open>
  The values the round trip covers: well-formed text, dictionaries with distinct keys, integers the
  reader accepts, and the floating-point numbers written as a plain decimal that is read as the
  number (an executable check: whether a number is one is decided by evaluating it).
\<close>

definition float_ok :: "pyfloat \<Rightarrow> bool" where
  "float_ok f \<longleftrightarrow>
     (let t = dumps_float f;
          neg = (t \<noteq> [] \<and> hd t = CHR ''-'');
          u = (if neg then tl t else t);
          ip = takeWhile is_digit u;
          r = dropWhile is_digit u
      in ip \<noteq> [] \<and> (hd ip = CHR ''0'' \<longrightarrow> tl ip = []) \<and> r \<noteq> [] \<and> hd r = CHR ''.'' \<and>
         tl r \<noteq> [] \<and> list_all is_digit (tl r) \<and>
         scale10 neg (nat_of_digits (ip @ tl r)) (- int (length (tl r))) = f)"

lemma float_ok_dest:
  assumes "float_ok f"
  obtains neg ip d fp where
    "dumps_float f = (if neg then ''-'' else []) @ ip @ CHR ''.'' # d # fp"
    "ip \<noteq> []" "list_all is_digit ip" "hd ip = CHR ''0'' \<longrightarrow> tl ip = []"
    "is_digit d" "list_all is_digit fp"
    "scale10 neg (nat_of_digits (ip @ d # fp)) (- int (length (d # fp))) = f"
proof -
  define t where "t = dumps_float f"
  define neg where "neg \<longleftrightarrow> t \<noteq> [] \<and> hd t = CHR ''-''"
  define u where "u = (if neg then tl t else t)"
  define ip where "ip = takeWhile is_digit u"
  define r where "r = dropWhile is_digit u"
  note ok = assms [unfolded float_ok_def Let_def, folded t_def, folded neg_def, folded u_def, folded ip_def r_def]
  obtain d fp where r: "r = CHR ''.'' # d # fp" using ok by (cases r; cases "tl r") auto
  have "t = (if neg then ''-'' else []) @ u" unfolding u_def neg_def by (cases t) auto
  moreover have "u = ip @ r" by (simp add: ip_def r_def)
  ultimately have "dumps_float f = (if neg then ''-'' else []) @ ip @ CHR ''.'' # d # fp" by (simp add: r t_def)
  moreover have "list_all is_digit ip" by (simp add: ip_def list_all_iff) (meson set_takeWhileD)
  ultimately show thesis using ok r by (intro that [of neg ip d fp]) auto
qed

lemma digit_plain:
  assumes "is_digit c"
  shows "c \<noteq> dquote" "c \<noteq> CHR ''{''" "c \<noteq> CHR ''[''" "c \<noteq> CHR ''-''"
  using assms by (auto simp: is_digit_def)

lemma scan_unsigned_decimal:
  assumes "num_end s" "ip \<noteq> []" "list_all is_digit ip" "hd ip = CHR ''0'' \<longrightarrow> tl ip = []"
    and "is_digit d" "list_all is_digit fp"
  shows "scan_unsigned neg (ip @ CHR ''.'' # d # fp @ s) =
    Some (JFloat (scale10 neg (nat_of_digits (ip @ d # fp)) (- int (length (d # fp)))), s)"
proof -
  obtain c t where ct: "ip = c # t" using assms(2) by (cases ip) auto
  have dot: "\<not> is_digit (CHR ''.'')" by (simp add: is_digit_def)
  have "takeWhile is_digit (ip @ CHR ''.'' # d # fp @ s) = ip"
    using assms(3) dot by (subst takeWhile_append2) (auto simp: list_all_iff)
  then have ip: "(if c = CHR ''0'' then [c] else takeWhile is_digit (c # t @ CHR ''.'' # d # fp @ s)) = c # t"
    using assms(4) ct by simp
  have fp: "takeWhile is_digit (d # fp @ s) = d # fp" "dropWhile is_digit (d # fp @ s) = s"
    using takeWhile_digits [of "d # fp" s] dropWhile_digits [of "d # fp" s] assms(1,5,6) by simp_all
  have c: "is_digit c" using assms(3) ct by simp
  have frac: "scan_frac (CHR ''.'' # d # fp @ s) = (d # fp, s)"
    using fp assms(5) by (simp add: scan_frac_def)
  have drop: "drop (length (c # t)) (c # t @ CHR ''.'' # d # fp @ s) = CHR ''.'' # d # fp @ s" by simp
  show ?thesis
    unfolding ct scan_unsigned_def append_Cons list.case Let_def ip drop frac prod.case
    using c assms(1) by (simp add: scan_exp_end)
qed

lemma scan_atom_float:
  assumes "num_end s" "float_ok f"
  shows "scan_atom (dumps_float f @ s) = Some (JFloat f, s)"
proof -
  obtain neg ip d fp where f:
    "dumps_float f = (if neg then ''-'' else []) @ ip @ CHR ''.'' # d # fp"
    "ip \<noteq> []" "list_all is_digit ip" "hd ip = CHR ''0'' \<longrightarrow> tl ip = []"
    "is_digit d" "list_all is_digit fp"
    "scale10 neg (nat_of_digits (ip @ d # fp)) (- int (length (d # fp))) = f"
    using assms(2) by (rule float_ok_dest)
  obtain c t where ct: "ip = c # t" using f(2) by (cases ip) auto
  have c: "is_digit c" using f(3) ct by simp
  have u: "scan_unsigned neg (c # t @ CHR ''.'' # d # fp @ s) = Some (JFloat f, s)"
    using scan_unsigned_decimal [OF assms(1) f(2-6), of neg] f(7) by (simp add: ct)
  show ?thesis
    using digit_not_atom [OF c, of "t @ CHR ''.'' # d # fp @ s"] u f(1) ct
    by (cases neg) simp_all
qed

fun json_ok :: "json \<Rightarrow> bool" where
  "json_ok (JInt i) \<longleftrightarrow> length (nat_str (nat \<bar>i\<bar>)) \<le> int_max_str_digits"
| "json_ok (JFloat f) \<longleftrightarrow> float_ok f"
| "json_ok (JStr s) \<longleftrightarrow> text_ok s"
| "json_ok (JArr vs) \<longleftrightarrow> list_all json_ok vs"
| "json_ok (JObj d) \<longleftrightarrow> distinct (map fst d) \<and> list_all (\<lambda>(k, v). text_ok k \<and> json_ok v) d"
| "json_ok _ \<longleftrightarrow> True"

definition reads_back :: "json \<Rightarrow> bool" where
  "reads_back v \<longleftrightarrow>
     (\<forall>rest n. num_end rest \<longrightarrow> 2 * length (dumps v @ rest) < n \<longrightarrow>
        scan_value n (dumps v @ rest) = Some (v, rest))"

lemma reads_backD:
  "reads_back v \<Longrightarrow> num_end rest \<Longrightarrow> 2 * length (dumps v @ rest) < n \<Longrightarrow>
   scan_value n (dumps v @ rest) = Some (v, rest)"
  by (simp add: reads_back_def)

lemma num_end_Cons [simp]: "num_end (CHR '','' # s)" "num_end (CHR ''}'' # s)" "num_end (CHR '']'' # s)"
  by (simp_all add: num_end_def is_digit_def)

lemma dumps_str_Cons: "dumps_str s = dquote # tl (dumps_str s)"
  by (simp add: dumps_str_def)

text \<open>The first character of a dumped value is not white space and closes nothing.\<close>

definition value_start :: "char \<Rightarrow> bool" where
  "value_start c \<longleftrightarrow> \<not> is_json_ws c \<and> c \<noteq> CHR '']'' \<and> c \<noteq> CHR ''}''"

lemma dumps_float_start: "float_ok f \<Longrightarrow> \<exists>c t. dumps_float f = c # t \<and> (is_digit c \<or> c = CHR ''-'')"
proof (erule float_ok_dest)
  fix neg ip d fp
  assume a: "dumps_float f = (if neg then ''-'' else []) @ ip @ CHR ''.'' # d # fp" "ip \<noteq> []" "list_all is_digit ip"
  then obtain c t where "ip = c # t" by (cases ip) auto
  with a show ?thesis by (cases neg) auto
qed

lemma dumps_start: "json_ok v \<Longrightarrow> \<exists>c t. dumps v = c # t \<and> value_start c"
proof (cases v)
  case (JInt i)
  obtain c t where ct: "nat_str (nat \<bar>i\<bar>) = c # t" by (cases "nat_str (nat \<bar>i\<bar>)") auto
  have "is_digit c" using nat_str_digits [of "nat \<bar>i\<bar>"] ct by simp
  then have "value_start c" by (auto simp: value_start_def is_json_ws_def is_digit_def)
  then show ?thesis
    using ct JInt by (cases "i < 0") (auto simp: int_str_def value_start_def is_json_ws_def)
next
  case (JFloat f)
  moreover assume "json_ok v"
  ultimately have "float_ok f" by simp
  then obtain c t where "dumps_float f = c # t" "is_digit c \<or> c = CHR ''-''" using dumps_float_start by blast
  moreover have "value_start c" if "is_digit c \<or> c = CHR ''-''" for c
    using that by (auto simp: value_start_def is_json_ws_def is_digit_def)
  ultimately show ?thesis using JFloat by auto
next
  case (JStr s)
  then show ?thesis by (auto simp: dumps_str_def value_start_def is_json_ws_def)
qed (auto simp: value_start_def is_json_ws_def)

lemma skip_ws_dumps: "json_ok v \<Longrightarrow> skip_ws (dumps v @ s) = dumps v @ s"
  using dumps_start [of v] by (auto simp: skip_ws_def value_start_def)

lemma skip_ws_simps [simp]:
  "skip_ws (CHR '' '' # s) = skip_ws s"
  "\<not> is_json_ws c \<Longrightarrow> skip_ws (c # s) = c # s"
  by (simp_all add: skip_ws_def is_json_ws_def)

lemma not_json_ws [simp]:
  "\<not> is_json_ws (CHR '','')" "\<not> is_json_ws (CHR '':'')" "\<not> is_json_ws (CHR ''}'')"
  "\<not> is_json_ws (CHR '']'')" "\<not> is_json_ws dquote"
  by (simp_all add: is_json_ws_def)

lemma scan_elems_dumps:
  "vs \<noteq> [] \<Longrightarrow> list_all json_ok vs \<Longrightarrow> list_all reads_back vs \<Longrightarrow>
   2 * length (join '', '' (map dumps vs) @ CHR '']'' # rest) + 1 < n \<Longrightarrow>
   scan_elems n (join '', '' (map dumps vs) @ CHR '']'' # rest) = Some (vs, rest)"
proof (induction vs arbitrary: n)
  case Nil
  then show ?case by simp
next
  case (Cons v vs)
  obtain m where n: "n = Suc m" using Cons.prems(4) by (cases n) auto
  show ?case
  proof (cases vs)
    case Nil
    with Cons.prems n show ?thesis by (simp add: reads_backD)
  next
    case (Cons w ws)
    let ?t = "join '', '' (map dumps vs) @ CHR '']'' # rest"
    have eq: "join '', '' (map dumps (v # vs)) @ CHR '']'' # rest = dumps v @ CHR '','' # CHR '' '' # ?t"
      using Cons by simp
    have sk: "skip_ws ?t = ?t"
      using Cons.prems(2) \<open>vs = w # ws\<close> skip_ws_dumps [of w] by (cases ws) simp_all
    have "scan_value m (dumps v @ CHR '','' # CHR '' '' # ?t) = Some (v, CHR '','' # CHR '' '' # ?t)"
      using Cons.prems(3,4) n eq by (intro reads_backD) auto
    moreover have "scan_elems m ?t = Some (vs, rest)"
      using Cons.prems(2-4) n eq \<open>vs = w # ws\<close> by (intro Cons.IH) auto
    ultimately show ?thesis by (simp add: n eq sk del: join.simps list.map)
  qed
qed

definition dumps_pair :: "string \<times> json \<Rightarrow> string" where
  "dumps_pair p = dumps_str (fst p) @ '': '' @ dumps (snd p)"

lemma dumps_obj: "dumps (JObj d) = ''{'' @ join '', '' (map dumps_pair d) @ ''}''"
proof -
  have "(\<lambda>(k, v). dumps_str k @ '': '' @ dumps v) = dumps_pair"
    by (auto simp: dumps_pair_def fun_eq_iff)
  then show ?thesis by simp
qed

lemma scan_members_dumps:
  "d \<noteq> [] \<Longrightarrow> list_all (\<lambda>(k, v). text_ok k \<and> json_ok v \<and> reads_back v) d \<Longrightarrow>
   2 * length (join '', '' (map dumps_pair d) @ CHR ''}'' # rest) < n \<Longrightarrow>
   scan_members n (join '', '' (map dumps_pair d) @ CHR ''}'' # rest) = Some (d, rest)"
proof (induction d arbitrary: n)
  case Nil
  then show ?case by simp
next
  case (Cons p d)
  obtain k v where p: "p = (k, v)" by fastforce
  obtain m where n: "n = Suc m" using Cons.prems(3) by (cases n) auto
  have kv: "text_ok k" "json_ok v" "reads_back v" using Cons.prems(2) p by auto
  have step: "scan_members (Suc m) (dumps_pair p @ u) =
      (case skip_ws u of
         [] \<Rightarrow> None
       | x # s \<Rightarrow> if x = CHR ''}'' then Some ([(k, v)], s)
           else if x = CHR '','' then
             (case scan_members m (skip_ws s) of None \<Rightarrow> None | Some (ps, r) \<Rightarrow> Some ((k, v) # ps, r))
           else None)"
    if u: "num_end u" "2 * length (dumps_pair p @ u) < Suc m" for u
  proof -
    have "2 * length (dumps v @ u) < m" using u by (simp add: p dumps_pair_def dumps_str_def)
    then have v: "scan_value m (dumps v @ u) = Some (v, u)"
      using kv u by (intro reads_backD)
    have "scan_string (tl (dumps_str k) @ '': '' @ dumps v @ u) = Some (k, '': '' @ dumps v @ u)"
      by (rule scan_string_dumps [OF kv(1)])
    with v kv show ?thesis
      using dumps_str_Cons [of k] by (simp add: p dumps_pair_def skip_ws_dumps dumps_str_def)
  qed
  show ?case
  proof (cases d)
    case Nil
    then show ?thesis using Cons.prems(3) step [of "CHR ''}'' # rest"] by (simp add: n p)
  next
    case (Cons q e)
    let ?t = "join '', '' (map dumps_pair d) @ CHR ''}'' # rest"
    have eq: "join '', '' (map dumps_pair (p # d)) @ CHR ''}'' # rest = dumps_pair p @ CHR '','' # CHR '' '' # ?t"
      using Cons by simp
    have sk: "skip_ws ?t = ?t"
      using Cons by (cases e) (simp_all add: dumps_pair_def dumps_str_def)
    have "scan_members m ?t = Some (d, rest)"
      using Cons.prems n eq Cons by (intro Cons.IH) auto
    then have "scan_members (Suc m) (dumps_pair p @ CHR '','' # CHR '' '' # ?t) = Some ((k, v) # d, rest)"
      using Cons.prems(3) n eq by (subst step) (simp_all add: sk)
    then show ?thesis unfolding n eq by (simp only: p)
  qed
qed

lemma scan_value_atom:
  "0 < n \<Longrightarrow> s \<noteq> [] \<Longrightarrow> hd s \<noteq> dquote \<Longrightarrow> hd s \<noteq> CHR ''{'' \<Longrightarrow> hd s \<noteq> CHR ''['' \<Longrightarrow>
   scan_value n s = scan_atom s"
  by (cases n; cases s) auto

lemma reads_back_atom:
  assumes "dumps v \<noteq> []" "hd (dumps v) \<notin> {dquote, CHR ''{'', CHR ''[''}"
    and "\<And>rest. num_end rest \<Longrightarrow> scan_atom (dumps v @ rest) = Some (v, rest)"
  shows "reads_back v"
  using assms by (auto simp: reads_back_def scan_value_atom)

lemma reads_back_int: "json_ok (JInt i) \<Longrightarrow> reads_back (JInt i)"
proof (rule reads_back_atom)
  obtain c t where ct: "nat_str (nat \<bar>i\<bar>) = c # t" by (cases "nat_str (nat \<bar>i\<bar>)") auto
  then have "is_digit c" using nat_str_digits [of "nat \<bar>i\<bar>"] by simp
  then show "dumps (JInt i) \<noteq> []" "hd (dumps (JInt i)) \<notin> {dquote, CHR ''{'', CHR ''[''}"
    using ct by (cases "i < 0"; auto simp: int_str_def is_digit_def)+
qed (simp add: scan_atom_int)

lemma reads_back_float: "float_ok f \<Longrightarrow> reads_back (JFloat f)"
proof (rule reads_back_atom)
  assume "float_ok f"
  then obtain c t where "dumps_float f = c # t" "is_digit c \<or> c = CHR ''-''"
    using dumps_float_start by blast
  then show "dumps (JFloat f) \<noteq> []" "hd (dumps (JFloat f)) \<notin> {dquote, CHR ''{'', CHR ''[''}"
    using digit_plain [of c] by auto
qed (simp add: scan_atom_float)

lemma reads_back_str: "text_ok s \<Longrightarrow> reads_back (JStr s)"
  unfolding reads_back_def
proof (intro allI impI)
  fix rest n
  assume s: "text_ok s" and n: "2 * length (dumps (JStr s) @ rest) < n"
  then obtain m where m: "n = Suc m" by (cases n) auto
  show "scan_value n (dumps (JStr s) @ rest) = Some (JStr s, rest)"
    using scan_string_dumps [OF s, of rest] dumps_str_Cons [of s] by (simp add: m dumps_str_def)
qed

lemma reads_back_arr:
  assumes "list_all json_ok vs" "list_all reads_back vs"
  shows "reads_back (JArr vs)"
  unfolding reads_back_def
proof (intro allI impI)
  fix rest n
  assume n: "2 * length (dumps (JArr vs) @ rest) < n"
  then obtain m where m: "n = Suc m" by (cases n) auto
  let ?t = "join '', '' (map dumps vs) @ CHR '']'' # rest"
  show "scan_value n (dumps (JArr vs) @ rest) = Some (JArr vs, rest)"
  proof (cases vs)
    case Nil
    then show ?thesis by (simp add: m)
  next
    case (Cons w ws)
    obtain c t where ct: "dumps w = c # t" "value_start c"
      using dumps_start [of w] assms(1) Cons by auto
    have h: "\<exists>u. ?t = c # u" using ct Cons by (cases ws) auto
    have sk: "skip_ws ?t = ?t" using h ct(2) by (auto simp: value_start_def)
    have "scan_elems m ?t = Some (vs, rest)"
      using Cons assms n m by (intro scan_elems_dumps) auto
    then show ?thesis using h sk ct(2) by (auto simp: m value_start_def)
  qed
qed

lemma scan_value_obj:
  assumes "distinct (map fst d)" "list_all (\<lambda>(k, v). text_ok k \<and> json_ok v \<and> reads_back v) d"
    and n: "2 * length (dumps (JObj d) @ rest) < n"
  shows "scan_value n (dumps (JObj d) @ rest) = Some (JObj d, rest)"
proof -
  let ?t = "join '', '' (map dumps_pair d) @ CHR ''}'' # rest"
  obtain m where m: "n = Suc m" and lm: "2 * length ?t < m"
    using n unfolding dumps_obj by (cases n) auto
  have "scan_value (Suc m) (CHR ''{'' # ?t) = Some (JObj d, rest)"
  proof (cases d)
    case Nil
    then show ?thesis by simp
  next
    case (Cons p e)
    have h: "\<exists>u. ?t = dquote # u" using Cons by (cases e) (auto simp: dumps_pair_def dumps_str_def)
    have sk: "skip_ws ?t = ?t" using h by auto
    have "scan_members m ?t = Some (d, rest)"
      using Cons assms(2) lm by (intro scan_members_dumps) auto
    then show ?thesis using h sk assms(1) by (auto simp: dict_of_pairs_distinct)
  qed
  then show ?thesis unfolding dumps_obj m by simp
qed

lemma reads_back_obj:
  "distinct (map fst d) \<Longrightarrow> list_all (\<lambda>(k, v). text_ok k \<and> json_ok v \<and> reads_back v) d \<Longrightarrow>
   reads_back (JObj d)"
  unfolding reads_back_def by (intro allI impI) (rule scan_value_obj, auto simp: reads_back_def)

lemma reads_back_const: "reads_back JNull" "reads_back (JBool b)"
  by (cases b; rule reads_back_atom; simp add: scan_atom_def startswith_def)+

lemma json_ok_reads_back: "json_ok v \<Longrightarrow> reads_back v"
proof (induction v)
  case (JInt i)
  then show ?case by (rule reads_back_int)
next
  case (JFloat f)
  then show ?case by (simp add: reads_back_float)
next
  case (JStr s)
  then show ?case by (simp add: reads_back_str)
next
  case (JArr vs)
  then show ?case by (auto simp: list_all_iff intro!: reads_back_arr)
next
  case (JObj d)
  then show ?case by (fastforce simp: list_all_iff intro!: reads_back_obj)
qed (simp_all add: reads_back_const)

lemma raw_decode_dumps:
  "json_ok v \<Longrightarrow> num_end rest \<Longrightarrow> raw_decode (dumps v @ rest) = Some (v, rest)"
  unfolding raw_decode_def by (rule reads_backD) (auto intro: json_ok_reads_back)

text \<open>An object closes itself: what follows does not matter.\<close>

lemma raw_decode_dumps_obj:
  "json_ok (JObj d) \<Longrightarrow> raw_decode (dumps (JObj d) @ rest) = Some (JObj d, rest)"
  unfolding raw_decode_def
  by (rule scan_value_obj) (auto simp: list_all_iff intro: json_ok_reads_back)

lemma raw_decode_shorter: "raw_decode s = Some (v, r) \<Longrightarrow> length r < length s"
  unfolding raw_decode_def by (rule scan_shorter)

lemma raw_decode_brace: "raw_decode (CHR ''{'' # s) = Some (v, r) \<Longrightarrow> \<exists>d. v = JObj d"
  unfolding raw_decode_def by (auto split: list.splits if_splits option.splits)

text \<open>Sorting the keys keeps a value readable and does not change lookups.\<close>

lemma distinct_fst_sort_key [simp]:
  "distinct (map fst (sort_key fst d)) \<longleftrightarrow> distinct (map fst d)"
  by (simp add: distinct_map)

lemma fst_comp_pair [simp]: "fst \<circ> (\<lambda>(k, v). (k, f v)) = fst"
  by (auto simp: fun_eq_iff)

lemma json_ok_sort_keys: "json_ok v \<Longrightarrow> json_ok (sort_keys v)"
proof (induction v)
  case (JObj d)
  let ?d = "map (\<lambda>(k, v). (k, sort_keys v)) d"
  have "distinct (map fst ?d)" using JObj.prems by simp
  moreover have "\<forall>(k, v) \<in> set ?d. text_ok k \<and> json_ok v"
    using JObj by (fastforce simp: list_all_iff)
  ultimately show ?case by (simp add: list_all_iff case_prod_beta)
qed (auto simp: list_all_iff)

definition sorted_dict :: "json_dict \<Rightarrow> json_dict" where
  "sorted_dict d = sort_key fst (map (\<lambda>(k, v). (k, sort_keys v)) d)"

lemma sort_keys_obj: "sort_keys (JObj d) = JObj (sorted_dict d)"
  by (simp add: sorted_dict_def)

lemma dict_get_sorted_dict:
  "distinct (map fst d) \<Longrightarrow> dict_get (sorted_dict d) k = map_option sort_keys (dict_get d k)"
proof -
  assume d: "distinct (map fst d)"
  let ?d = "map (\<lambda>(k, v). (k, sort_keys v)) d"
  have f: "distinct (map fst ?d)" using d by simp
  have "dict_get (sorted_dict d) k = dict_get ?d k"
    unfolding sorted_dict_def using f by (intro map_of_inject_set [THEN iffD2, THEN fun_cong]) simp_all
  also have "\<dots> = map_option sort_keys (dict_get d k)"
    by (simp add: map_of_map)
  finally show ?thesis .
qed

section \<open>Whole documents\<close>

text \<open>\<open>json.loads\<close>: one value, with white space around it.\<close>

definition loads :: "string \<Rightarrow> json result" where
  "loads s =
     (case raw_decode (skip_ws s) of
        None \<Rightarrow> Inl (ValueError ''Expecting value'')
      | Some (v, rest) \<Rightarrow> if skip_ws rest = [] then Inr v else Inl (ValueError ''Extra data''))"

lemma loads_dumps: "json_ok (JObj d) \<Longrightarrow> loads (dumps (JObj d)) = Inr (JObj d)"
  using raw_decode_dumps_obj [of d "[]"] skip_ws_dumps [of "JObj d" "[]"]
  by (simp add: loads_def skip_ws_def del: dumps.simps)

section \<open>One line\<close>

text \<open>What \<open>dumps\<close> writes has no line break in it.\<close>

lemma newline_not:
  "newline \<noteq> dquote" "newline \<noteq> backslash" "is_digit c \<Longrightarrow> c \<noteq> newline" "d < 16 \<Longrightarrow> hex_digit d \<noteq> newline"
proof -
  show "newline \<noteq> dquote" "newline \<noteq> backslash" by simp_all
  show "is_digit c \<Longrightarrow> c \<noteq> newline" by (auto simp: is_digit_def)
  show "d < 16 \<Longrightarrow> hex_digit d \<noteq> newline"
    unfolding eq_char_code by (auto simp: hex_digit_def)
qed

lemma digits_one_line: "list_all is_digit s \<Longrightarrow> newline \<notin> set s"
  using newline_not(3) by (auto simp: list_all_iff)

lemma u_escape_one_line: "newline \<notin> set (u_escape n)"
proof -
  have "newline \<noteq> hex_digit (k mod 16)" for k using newline_not(4) [of "k mod 16"] by simp
  then show ?thesis by (simp add: u_escape_def hex4_str_def)
qed

lemma escape_one_line: "newline \<notin> set (escape_point n)"
proof (cases "n < 0x80")
  case True
  have "newline \<notin> set (escape_ascii c)" for c
    using u_escape_one_line [of "code c"] by (auto simp: escape_ascii_def split: if_splits)
  with True show ?thesis by (simp add: escape_point_def)
qed (use u_escape_one_line in \<open>auto simp: escape_point_def escape_code_def\<close>)

lemma dumps_str_one_line: "newline \<notin> set (dumps_str s)"
  using escape_one_line by (auto simp: dumps_str_def)

lemma join_one_line:
  "newline \<notin> set sep \<Longrightarrow> (\<And>x. x \<in> set xs \<Longrightarrow> newline \<notin> set x) \<Longrightarrow> newline \<notin> set (join sep xs)"
  by (induction sep xs rule: join.induct) auto

lemma float_one_line: "float_ok f \<Longrightarrow> newline \<notin> set (dumps_float f)"
proof (erule float_ok_dest)
  fix neg ip d fp
  assume a: "dumps_float f = (if neg then ''-'' else []) @ ip @ CHR ''.'' # d # fp"
    "list_all is_digit ip" "is_digit d" "list_all is_digit fp"
  then show ?thesis
    using digits_one_line [of ip] digits_one_line [of "d # fp"] by (cases neg) auto
qed

lemma dumps_one_line: "json_ok v \<Longrightarrow> newline \<notin> set (dumps v)"
proof (induction v)
  case (JInt i)
  have "newline \<notin> set (nat_str n)" for n using digits_one_line [OF nat_str_digits] .
  then show ?case by (simp add: int_str_def)
next
  case (JFloat f)
  then show ?case by (simp add: float_one_line)
next
  case (JStr s)
  then show ?case by (simp add: dumps_str_one_line)
next
  case (JArr vs)
  then have "newline \<notin> set (join '', '' (map dumps vs))" by (intro join_one_line) (auto simp: list_all_iff)
  then show ?case by simp
next
  case (JObj d)
  then have "newline \<notin> set (join '', '' (map (\<lambda>(k, v). dumps_str k @ '': '' @ dumps v) d))"
    using dumps_str_one_line by (intro join_one_line) (fastforce simp: list_all_iff)+
  then show ?case by simp
qed simp_all

text \<open>Objects written one to a line, as a log is, are read back.\<close>

interpretation json_line: line_codec "\<lambda>d. dumps (JObj d)" loads "\<lambda>d. Inr (JObj d)" "\<lambda>d. json_ok (JObj d)" newline
proof unfold_locales
  show "loads (dumps (JObj d)) = Inr (JObj d)" if "json_ok (JObj d)" for d using that by (rule loads_dumps)
  show "newline \<notin> set (dumps (JObj d))" if "json_ok (JObj d)" for d using that by (rule dumps_one_line)
qed simp

end
