(* ===== verification/Py_Values.thy ===== *)
theory Py_Values
  imports Json_Roundtrip
begin

text \<open>
  Operations on Python values that several components share: truthiness, \<open>==\<close>, \<open>str\<close> and
  \<open>repr\<close> of JSON values, code-point slicing, and time stamps with their ISO format.
\<close>

section \<open>Truthiness, equality, str\<close>

fun truthy :: "json \<Rightarrow> bool" where
  "truthy JNull = False"
| "truthy (JBool b) = b"
| "truthy (JInt i) = (i \<noteq> 0)"
| "truthy (JFloat f) = (\<not> float_is_zero f)"
| "truthy (JStr s) = (s \<noteq> [])"
| "truthy (JArr vs) = (vs \<noteq> [])"
| "truthy (JObj d) = (d \<noteq> [])"

text \<open>\<open>isinstance(value, str | int | float | bool)\<close>.\<close>

fun is_scalar :: "json \<Rightarrow> bool" where
  "is_scalar (JBool _) = True"
| "is_scalar (JInt _) = True"
| "is_scalar (JFloat _) = True"
| "is_scalar (JStr _) = True"
| "is_scalar _ = False"

definition int_of_bool :: "bool \<Rightarrow> int" where
  "int_of_bool b = (if b then 1 else 0)"

text \<open>\<open>x == y\<close> for a scalar \<open>y\<close>: numbers compare by value, whatever their type.\<close>

fun scalar_eq :: "json \<Rightarrow> json \<Rightarrow> bool" where
  "scalar_eq (JStr a) (JStr b) \<longleftrightarrow> a = b"
| "scalar_eq (JBool a) (JBool b) \<longleftrightarrow> a = b"
| "scalar_eq (JBool a) (JInt j) \<longleftrightarrow> int_of_bool a = j"
| "scalar_eq (JInt i) (JBool b) \<longleftrightarrow> i = int_of_bool b"
| "scalar_eq (JInt i) (JInt j) \<longleftrightarrow> i = j"
| "scalar_eq (JFloat f) (JFloat g) \<longleftrightarrow> float_eq f g"
| "scalar_eq (JFloat f) (JInt j) \<longleftrightarrow> float_eq_int f j"
| "scalar_eq (JInt i) (JFloat g) \<longleftrightarrow> float_eq_int g i"
| "scalar_eq (JFloat f) (JBool b) \<longleftrightarrow> float_eq_int f (int_of_bool b)"
| "scalar_eq (JBool a) (JFloat g) \<longleftrightarrow> float_eq_int g (int_of_bool a)"
| "scalar_eq _ _ \<longleftrightarrow> False"

lemma scalar_eq_str [simp]: "scalar_eq v (JStr s) \<longleftrightarrow> v = JStr s"
  by (cases v) auto

text \<open>\<open>d.get(k) == v\<close>; an absent key gives \<open>None\<close>, which equals no scalar.\<close>

definition field_eq :: "json_dict \<Rightarrow> string \<Rightarrow> json \<Rightarrow> bool" where
  "field_eq d k v = (case dict_get d k of None \<Rightarrow> False | Some w \<Rightarrow> scalar_eq w v)"

lemma field_eq_str [simp]: "field_eq d k (JStr s) \<longleftrightarrow> dict_get d k = Some (JStr s)"
  by (auto simp: field_eq_def split: option.splits)

definition bool_str :: "bool \<Rightarrow> string" where
  "bool_str b = (if b then ''True'' else ''False'')"

fun repr_json :: "json \<Rightarrow> string" where
  "repr_json JNull = ''None''"
| "repr_json (JBool b) = bool_str b"
| "repr_json (JInt i) = int_str i"
| "repr_json (JFloat f) = float_repr f"
| "repr_json (JStr s) = repr s"
| "repr_json (JArr vs) = ''['' @ join '', '' (map repr_json vs) @ '']''"
| "repr_json (JObj d) =
     ''{'' @ join '', '' (map (\<lambda>(k, v). repr k @ '': '' @ repr_json v) d) @ ''}''"

definition py_str :: "json \<Rightarrow> string" where
  "py_str v = (case v of JStr s \<Rightarrow> s | _ \<Rightarrow> repr_json v)"

section \<open>Code points\<close>

definition is_continuation :: "char \<Rightarrow> bool" where
  "is_continuation c \<longleftrightarrow> 0x80 \<le> code c \<and> code c \<le> 0xBF"

text \<open>\<open>len(s)\<close> and \<open>s[:n]\<close> count code points, not bytes.\<close>

definition py_len :: "string \<Rightarrow> nat" where
  "py_len s = length (filter (\<lambda>c. \<not> is_continuation c) s)"

fun py_take :: "nat \<Rightarrow> string \<Rightarrow> string" where
  "py_take n [] = []"
| "py_take n (c # s) =
     (if is_continuation c then c # py_take n s
      else case n of 0 \<Rightarrow> [] | Suc m \<Rightarrow> c # py_take m s)"

lemma py_len_take: "py_len (py_take n s) \<le> n"
  by (induction n s rule: py_take.induct) (auto simp: py_len_def split: nat.splits)

lemma py_take_prefix: "prefix (py_take n s) s"
  by (induction n s rule: py_take.induct) (auto split: nat.splits)

lemma py_take_all: "py_len s \<le> n \<Longrightarrow> py_take n s = s"
  by (induction n s rule: py_take.induct) (auto simp: py_len_def split: nat.splits if_splits)

lemma py_len_take_min: "py_len (py_take n s) = min n (py_len s)"
  by (induction n s rule: py_take.induct) (auto simp: py_len_def split: nat.splits)

section \<open>Time stamps\<close>

text \<open>
  \<open>datetime\<close>: microseconds of the wall clock since 1970, without or with the UTC zone. The code
  only ever attaches UTC.
\<close>

datatype datetime = Naive int | Aware int

fun wall :: "datetime \<Rightarrow> int" where
  "wall (Naive u) = u"
| "wall (Aware u) = u"

fun is_aware :: "datetime \<Rightarrow> bool" where
  "is_aware (Aware _) = True"
| "is_aware (Naive _) = False"

text \<open>The proleptic Gregorian date of a day count from 1970-01-01.\<close>

definition civil :: "int \<Rightarrow> int \<times> int \<times> int" where
  "civil days =
     (let z = days + 719468;
          era = z div 146097;
          doe = z mod 146097;
          yoe = (doe - doe div 1460 + doe div 36524 - doe div 146096) div 365;
          doy = doe - (365 * yoe + yoe div 4 - yoe div 100);
          mp = (5 * doy + 2) div 153;
          d = doy - (153 * mp + 2) div 5 + 1;
          m = (if mp < 10 then mp + 3 else mp - 9);
          y = yoe + era * 400 + (if m \<le> 2 then 1 else 0)
      in (y, m, d))"

definition pad :: "nat \<Rightarrow> int \<Rightarrow> string" where
  "pad w i = (let s = nat_str (nat i) in replicate (w - length s) (CHR ''0'') @ s)"

text \<open>\<open>value.isoformat(timespec="seconds")\<close>.\<close>

definition isoformat_seconds :: "datetime \<Rightarrow> string" where
  "isoformat_seconds t =
     (let secs = wall t div 1000000;
          days = secs div 86400;
          s = secs mod 86400;
          (y, m, d) = civil days
      in pad 4 y @ ''-'' @ pad 2 m @ ''-'' @ pad 2 d @ ''T'' @
         pad 2 (s div 3600) @ '':'' @ pad 2 (s div 60 mod 60) @ '':'' @ pad 2 (s mod 60) @
         (if is_aware t then ''+00:00'' else []))"

instantiation datetime :: linorder
begin

text \<open>
  Time stamps of one kind are ordered by the instant. Python refuses to compare a naive with an
  aware one; the program only compares aware ones, and the order puts naive ones first.
\<close>

definition less_eq_datetime :: "datetime \<Rightarrow> datetime \<Rightarrow> bool" where
  "s \<le> t \<longleftrightarrow>
     (\<not> is_aware s \<and> is_aware t) \<or> (is_aware s = is_aware t \<and> wall s \<le> wall t)"

definition less_datetime :: "datetime \<Rightarrow> datetime \<Rightarrow> bool" where
  "(s::datetime) < t \<longleftrightarrow> s \<le> t \<and> \<not> t \<le> s"

instance
proof
  fix s t u :: datetime
  show "s < t \<longleftrightarrow> s \<le> t \<and> \<not> t \<le> s" by (rule less_datetime_def)
  show "s \<le> s" by (simp add: less_eq_datetime_def)
  show "s \<le> t \<Longrightarrow> t \<le> u \<Longrightarrow> s \<le> u" by (auto simp: less_eq_datetime_def)
  show "s \<le> t \<Longrightarrow> t \<le> s \<Longrightarrow> s = t" by (cases s; cases t) (auto simp: less_eq_datetime_def)
  show "s \<le> t \<or> t \<le> s" by (auto simp: less_eq_datetime_def)
qed

end

end
