(* ===== verification/Cases.thy ===== *)
theory Cases
  imports Py_Values
begin

text \<open>
  Approval cases (\<^verbatim>\<open>app/cluster/cases.py\<close>): the case record, its public view, the abstract store
  \<open>CaseStore\<close> as a record of operations, and the in-memory store. \<open>datetime.now(UTC)\<close> is an
  argument of the operations that read the clock. The database store is in
  \<^verbatim>\<open>Case_Database\<close>, what both promise in \<^verbatim>\<open>Case_Store_Spec\<close>.
\<close>

section \<open>States of a case\<close>

definition PENDING :: string where "PENDING = ''pending''"
definition APPROVED :: string where "APPROVED = ''approved''"
definition REJECTED :: string where "REJECTED = ''rejected''"
definition EXECUTED :: string where "EXECUTED = ''executed''"
definition FAILED :: string where "FAILED = ''failed''"

definition STATUSES :: "string list" where
  "STATUSES = [PENDING, APPROVED, REJECTED, EXECUTED, FAILED]"

definition TERMINAL :: "string list" where
  "TERMINAL = [REJECTED, EXECUTED, FAILED]"

lemmas status_defs = PENDING_def APPROVED_def REJECTED_def EXECUTED_def FAILED_def

lemma statuses_distinct: "distinct STATUSES"
  by (simp add: STATUSES_def status_defs)

lemma status_neq [simp]:
  "PENDING \<noteq> APPROVED" "APPROVED \<noteq> PENDING" "PENDING \<noteq> REJECTED" "REJECTED \<noteq> PENDING"
  "PENDING \<noteq> EXECUTED" "EXECUTED \<noteq> PENDING" "PENDING \<noteq> FAILED" "FAILED \<noteq> PENDING"
  "APPROVED \<noteq> REJECTED" "REJECTED \<noteq> APPROVED" "APPROVED \<noteq> EXECUTED" "EXECUTED \<noteq> APPROVED"
  "APPROVED \<noteq> FAILED" "FAILED \<noteq> APPROVED" "REJECTED \<noteq> EXECUTED" "EXECUTED \<noteq> REJECTED"
  "REJECTED \<noteq> FAILED" "FAILED \<noteq> REJECTED" "EXECUTED \<noteq> FAILED" "FAILED \<noteq> EXECUTED"
  by (simp_all add: status_defs)

datatype decision_outcome = RECORDED | NOT_FOUND | ALREADY_DECIDED

section \<open>The case record\<close>

record approval_case =
  ac_case_id :: string
  ac_proposal_id :: string
  ac_agent :: string
  ac_action :: string
  ac_summary :: string
  ac_proposal :: json_dict
  ac_status :: string
  ac_session_id :: string
  ac_decided_by :: string
  ac_note :: string
  ac_result :: "json_dict option"
  ac_created_at :: datetime
  ac_decided_at :: "datetime option"
  ac_executed_at :: "datetime option"

text \<open>The constructor with the dataclass defaults; \<open>now\<close> is the default factory of \<open>created_at\<close>.\<close>

definition ApprovalCase ::
  "datetime \<Rightarrow> string \<Rightarrow> string \<Rightarrow> string \<Rightarrow> string \<Rightarrow> string \<Rightarrow> json_dict \<Rightarrow> string \<Rightarrow> approval_case" where
  "ApprovalCase now case_id proposal_id agent action summary proposal session_id =
     \<lparr>ac_case_id = case_id, ac_proposal_id = proposal_id, ac_agent = agent, ac_action = action,
      ac_summary = summary, ac_proposal = proposal, ac_status = PENDING,
      ac_session_id = session_id, ac_decided_by = [], ac_note = [], ac_result = None,
      ac_created_at = now, ac_decided_at = None, ac_executed_at = None\<rparr>"

definition stamp :: "datetime option \<Rightarrow> json" where
  "stamp value = (case value of None \<Rightarrow> JNull | Some t \<Rightarrow> JStr (isoformat_seconds t))"

definition public :: "approval_case \<Rightarrow> json" where
  "public c = JObj
     [(''proposal_id'', JStr (ac_proposal_id c)),
      (''case_id'', JStr (ac_case_id c)),
      (''agent'', JStr (ac_agent c)),
      (''action'', JStr (ac_action c)),
      (''summary'', JStr (ac_summary c)),
      (''proposal'', JObj (ac_proposal c)),
      (''status'', JStr (ac_status c)),
      (''session_id'', JStr (ac_session_id c)),
      (''decided_by'', JStr (ac_decided_by c)),
      (''note'', JStr (ac_note c)),
      (''result'', (case ac_result c of None \<Rightarrow> JNull | Some r \<Rightarrow> JObj r)),
      (''created_at'', stamp (Some (ac_created_at c))),
      (''decided_at'', stamp (ac_decided_at c)),
      (''executed_at'', stamp (ac_executed_at c))]"

text \<open>\<open>uuid.uuid4().hex[:12]\<close> of a drawn UUID.\<close>

definition new_proposal_id :: "string \<Rightarrow> string" where
  "new_proposal_id uuid_hex = take 12 uuid_hex"

section \<open>The abstract store\<close>

record 's case_store =
  op_open :: "approval_case \<Rightarrow> 's \<Rightarrow> (bool \<times> 's) result"
  op_get :: "string \<Rightarrow> 's \<Rightarrow> approval_case option"
  op_list_by_status :: "string \<Rightarrow> 's \<Rightarrow> approval_case list"
  op_decide :: "datetime \<Rightarrow> string \<Rightarrow> bool \<Rightarrow> string \<Rightarrow> string \<Rightarrow> 's \<Rightarrow>
                  ((decision_outcome \<times> approval_case option) \<times> 's) result"
  op_record_execution :: "datetime \<Rightarrow> string \<Rightarrow> bool \<Rightarrow> json_dict \<Rightarrow> 's \<Rightarrow>
                  (approval_case option \<times> 's) result"

section \<open>The in-memory store\<close>

type_synonym mem_store = "(string, approval_case) dict"

definition mem_open :: "approval_case \<Rightarrow> mem_store \<Rightarrow> bool \<times> mem_store" where
  "mem_open c s =
     (if dict_get s (ac_proposal_id c) \<noteq> None then (False, s)
      else (True, dict_set s (ac_proposal_id c) c))"

definition mem_get :: "string \<Rightarrow> mem_store \<Rightarrow> approval_case option" where
  "mem_get proposal_id s = dict_get s proposal_id"

definition mem_list_by_status :: "string \<Rightarrow> mem_store \<Rightarrow> approval_case list" where
  "mem_list_by_status st s =
     sort_key ac_created_at (filter (\<lambda>c. ac_status c = st) (dict_values s))"

text \<open>The writes of a decision and of an execution on one case.\<close>

definition decided :: "datetime \<Rightarrow> bool \<Rightarrow> string \<Rightarrow> string \<Rightarrow> approval_case \<Rightarrow> approval_case" where
  "decided now approved decided_by note_text c =
     c\<lparr>ac_status := (if approved then APPROVED else REJECTED), ac_decided_by := decided_by,
       ac_note := note_text, ac_decided_at := Some now\<rparr>"

definition executed :: "datetime \<Rightarrow> bool \<Rightarrow> json_dict \<Rightarrow> approval_case \<Rightarrow> approval_case" where
  "executed now succeeded res c =
     c\<lparr>ac_status := (if succeeded then EXECUTED else FAILED), ac_result := Some res,
       ac_executed_at := Some now\<rparr>"

definition mem_decide ::
  "datetime \<Rightarrow> string \<Rightarrow> bool \<Rightarrow> string \<Rightarrow> string \<Rightarrow> mem_store \<Rightarrow>
   (decision_outcome \<times> approval_case option) \<times> mem_store" where
  "mem_decide now proposal_id approved decided_by note_text s =
     (case dict_get s proposal_id of
        None \<Rightarrow> ((NOT_FOUND, None), s)
      | Some c \<Rightarrow>
          if ac_status c \<noteq> PENDING then ((ALREADY_DECIDED, Some c), s)
          else
            let c' = decided now approved decided_by note_text c
            in ((RECORDED, Some c'), dict_set s proposal_id c'))"

definition mem_record_execution ::
  "datetime \<Rightarrow> string \<Rightarrow> bool \<Rightarrow> json_dict \<Rightarrow> mem_store \<Rightarrow> approval_case option \<times> mem_store" where
  "mem_record_execution now proposal_id succeeded res s =
     (case dict_get s proposal_id of
        None \<Rightarrow> (None, s)
      | Some c \<Rightarrow>
          let c' = executed now succeeded res c
          in (Some c', dict_set s proposal_id c'))"

definition InMemoryCaseStore :: "mem_store case_store" where
  "InMemoryCaseStore =
     \<lparr>op_open = (\<lambda>c s. Inr (mem_open c s)),
      op_get = mem_get,
      op_list_by_status = mem_list_by_status,
      op_decide = (\<lambda>now pid ok by n s. Inr (mem_decide now pid ok by n s)),
      op_record_execution = (\<lambda>now pid ok res s. Inr (mem_record_execution now pid ok res s))\<rparr>"

lemma decided_fields [simp]:
  "ac_status (decided now ok by n c) = (if ok then APPROVED else REJECTED)"
  "ac_decided_by (decided now ok by n c) = by"
  "ac_note (decided now ok by n c) = n"
  "ac_decided_at (decided now ok by n c) = Some now"
  "ac_proposal_id (decided now ok by n c) = ac_proposal_id c"
  "ac_proposal (decided now ok by n c) = ac_proposal c"
  "ac_session_id (decided now ok by n c) = ac_session_id c"
  "ac_result (decided now ok by n c) = ac_result c"
  "ac_created_at (decided now ok by n c) = ac_created_at c"
  "ac_executed_at (decided now ok by n c) = ac_executed_at c"
  by (simp_all add: decided_def)

lemma executed_fields [simp]:
  "ac_status (executed now ok res c) = (if ok then EXECUTED else FAILED)"
  "ac_result (executed now ok res c) = Some res"
  "ac_executed_at (executed now ok res c) = Some now"
  "ac_proposal_id (executed now ok res c) = ac_proposal_id c"
  "ac_proposal (executed now ok res c) = ac_proposal c"
  "ac_session_id (executed now ok res c) = ac_session_id c"
  "ac_decided_by (executed now ok res c) = ac_decided_by c"
  "ac_note (executed now ok res c) = ac_note c"
  "ac_decided_at (executed now ok res c) = ac_decided_at c"
  "ac_created_at (executed now ok res c) = ac_created_at c"
  by (simp_all add: executed_def)

section \<open>A sample case\<close>

definition demo_case :: approval_case where
  "demo_case = ApprovalCase (Aware 0) ''c1'' ''p1'' ''math'' ''publish_result'' ''Publish''
     [(''value'', JStr ''42''), (''label'', JStr ''q3'')] ''s1''"

definition demo_result :: json_dict where
  "demo_result = [(''status'', JStr ''published''), (''value'', JStr ''42''), (''label'', JStr ''q3'')]"

definition demo_approved :: approval_case where
  "demo_approved = decided (Aware 1) True ''alice'' ''ok'' demo_case"

end
