(* ===== verification/Proposals.thy ===== *)
theory Proposals
  imports Cases Json_Roundtrip
begin

text \<open>
  Reading proposals and results off the wire (second half of \<^verbatim>\<open>app/cluster/cases.py\<close>): the
  tolerant scanner for JSON objects in prose, the recognition of proposals and of confirmed
  executions, the case made from a proposal, the instruction of the execution turn and the texts
  of an event. ADK's event is the record \<open>event\<close> of what this code reads of it.
\<close>

section \<open>JSON objects in prose\<close>

text \<open>\<open>_json_objects_in\<close> on the text from the current index on.\<close>

function json_objects_in :: "string \<Rightarrow> json_dict list" where
  "json_objects_in text =
     (case dropWhile (\<lambda>c. c \<noteq> CHR ''{'') text of
        [] \<Rightarrow> []
      | b # rest \<Rightarrow>
          (case raw_decode (b # rest) of
             None \<Rightarrow> json_objects_in rest
           | Some (v, after) \<Rightarrow>
               (case v of
                  JObj d \<Rightarrow> d # json_objects_in after
                | _ \<Rightarrow> json_objects_in rest)))"
  by pat_completeness auto

lemma dropWhile_shorter: "dropWhile P xs = y # ys \<Longrightarrow> length ys < length xs"
  by (metis length_Cons length_dropWhile_le less_eq_Suc_le)

termination json_objects_in
  by (relation "measure length") (fastforce dest: dropWhile_shorter raw_decode_shorter)+

declare json_objects_in.simps [simp del]

section \<open>Proposals and confirmed executions\<close>

definition APPROVAL_REQUIRED :: string where
  "APPROVAL_REQUIRED = ''approval_required''"

definition PUBLISHED :: string where
  "PUBLISHED = ''published''"

text \<open>The proposal of an object that reports one.\<close>

definition reported_proposal :: "json_dict \<Rightarrow> json_dict option" where
  "reported_proposal obj =
     (if \<not> field_eq obj ''status'' (JStr APPROVAL_REQUIRED) then None
      else (case dict_get obj ''proposal'' of
              Some (JObj proposal) \<Rightarrow> Some proposal
            | _ \<Rightarrow> None))"

text \<open>The body of the inner loop over \<open>(found, seen)\<close>, and the two loops.\<close>

definition note_proposal ::
  "json_dict \<Rightarrow> json_dict list \<times> string set \<Rightarrow> json_dict list \<times> string set" where
  "note_proposal obj acc =
     (case acc of (found, seen) \<Rightarrow>
        (case reported_proposal obj of
           None \<Rightarrow> (found, seen)
         | Some proposal \<Rightarrow>
             let key = dumps_sorted (JObj proposal)
             in if key \<in> seen then (found, seen)
                else (found @ [obj], insert key seen)))"

definition find_proposals :: "string list \<Rightarrow> json_dict list" where
  "find_proposals texts =
     fst (fold (\<lambda>text acc. fold note_proposal (json_objects_in text) acc) texts ([], {}))"

definition wanted :: "json_dict \<Rightarrow> json_dict" where
  "wanted proposal = filter (\<lambda>(key, value). is_scalar value) proposal"

definition confirms :: "json_dict \<Rightarrow> json_dict \<Rightarrow> bool" where
  "confirms proposal obj \<longleftrightarrow>
     field_eq obj ''status'' (JStr PUBLISHED) \<and>
     (\<forall>(key, value) \<in> set (wanted proposal). field_eq obj key value)"

fun find_execution :: "string list \<Rightarrow> json_dict \<Rightarrow> json_dict option" where
  "find_execution [] proposal = None"
| "find_execution (text # texts) proposal =
     (case find (confirms proposal) (json_objects_in text) of
        Some obj \<Rightarrow> Some obj
      | None \<Rightarrow> find_execution texts proposal)"

section \<open>Cases from proposals, and back\<close>

text \<open>
  \<open>dict(found.get("proposal") or {})\<close>. An array of pairs with string keys is read as \<open>dict\<close> reads
  it; every other truthy value that is not an object is an error (arrays with keys that are not
  strings are not represented; the only caller passes objects).
\<close>

fun pairs_of :: "json list \<Rightarrow> (string \<times> json) list result" where
  "pairs_of [] = Inr []"
| "pairs_of (JArr [JStr k, v] # rest) = map_sum id (\<lambda>ps. (k, v) # ps) (pairs_of rest)"
| "pairs_of (_ # rest) = Inl (TypeError ''cannot convert dictionary update sequence'')"

definition dict_of_field :: "json option \<Rightarrow> json_dict result" where
  "dict_of_field field =
     (case field of
        None \<Rightarrow> Inr []
      | Some v \<Rightarrow>
          if \<not> truthy v then Inr []
          else (case v of
                  JObj d \<Rightarrow> Inr d
                | JArr vs \<Rightarrow> map_sum id dict_of_pairs (pairs_of vs)
                | JStr s \<Rightarrow> Inl (ValueError ''dictionary update sequence element #0 has length 1; 2 is required'')
                | _ \<Rightarrow> Inl (TypeError ''object is not iterable'')))"

definition str_field :: "json_dict \<Rightarrow> string \<Rightarrow> string" where
  "str_field d k = (case dict_get d k of None \<Rightarrow> [] | Some v \<Rightarrow> py_str v)"

definition case_from_proposal ::
  "datetime \<Rightarrow> string \<Rightarrow> json_dict \<Rightarrow> string \<Rightarrow> string \<Rightarrow> string \<Rightarrow> approval_case result" where
  "case_from_proposal now uuid_hex found session_id case_id agent =
     bind_result (dict_of_field (dict_get found ''proposal''))
       (\<lambda>proposal. Inr (ApprovalCase now case_id (new_proposal_id uuid_hex)
          (if agent \<noteq> [] then agent else str_field found ''agent'')
          (case dict_get found ''action'' of
             Some v \<Rightarrow> if truthy v then py_str v else str_field proposal ''action''
           | None \<Rightarrow> str_field proposal ''action'')
          (str_field found ''summary'') proposal session_id))"

definition execution_instruction :: "approval_case \<Rightarrow> string" where
  "execution_instruction c =
     (let proposal = dumps_sorted (JObj (ac_proposal c));
          note_text = (if ac_note c \<noteq> [] then newline # ''The approver noted: '' @ ac_note c else [])
      in ''A human has APPROVED this proposal from the '' @ [CHR 0x27] @ ac_agent c @ [CHR 0x27] @
         '' specialist:'' @ [newline] @ proposal @ [newline] @
         ''Approved by: '' @ (if ac_decided_by c \<noteq> [] then ac_decided_by c else ''unknown'') @
         note_text @ [newline, newline] @
         ''Send the specialist the SAME request that produced this proposal, '' @
         ''with `approved_by` set to the approver above and `decision_note` set '' @
         ''to their note. Do not change any other field. Then report what the '' @
         ''specialist returned.'')"

section \<open>Events\<close>

record event =
  ev_author :: string
  ev_calls :: "string list"
  ev_responses :: "(string \<times> json) list"
  ev_content :: "string option list option option"
  ev_error :: "string option"
  ev_final :: bool

text \<open>
  \<open>"".join(p.text or "" for p in event.content.parts).strip()\<close>; a missing content or missing parts
  have no text.
\<close>

definition content_parts :: "event \<Rightarrow> string option list" where
  "content_parts e =
     (case ev_content e of Some (Some parts) \<Rightarrow> parts | _ \<Rightarrow> [])"

definition parts_text :: "string option list \<Rightarrow> string" where
  "parts_text parts = strip (concat (map (case_option [] id) parts))"

definition repr_list :: "string list \<Rightarrow> string" where
  "repr_list ss = ''['' @ join '', '' (map repr ss) @ '']''"

definition summarise :: "event \<Rightarrow> string" where
  "summarise e =
     (let text = parts_text (content_parts e)
      in join '' | ''
           ([ev_author e]
            @ (if ev_calls e \<noteq> [] then [''calls='' @ repr_list (ev_calls e)] else [])
            @ (if ev_responses e \<noteq> [] then [''resp='' @ repr_list (map fst (ev_responses e))] else [])
            @ (if text \<noteq> [] then [''text='' @ repr (py_take 160 text)] else [])
            @ (case ev_error e of
                 Some m \<Rightarrow> if m \<noteq> [] then [''error='' @ repr m] else []
               | None \<Rightarrow> [])))"

fun unpack :: "json \<Rightarrow> string list" where
  "unpack (JStr s) = [s]"
| "unpack (JObj d) = dumps (JObj d) # concat (map (\<lambda>(k, v). unpack v) d)"
| "unpack (JArr vs) = concat (map unpack vs)"
| "unpack _ = []"

definition reply_texts :: "event \<Rightarrow> string list" where
  "reply_texts e =
     concat (map (\<lambda>(name, response). unpack response) (ev_responses e)) @
     (let body = parts_text (content_parts e) in if body \<noteq> [] then [body] else [])"

section \<open>The scanner finds what was written\<close>

lemma json_objects_in_skip:
  "CHR ''{'' \<notin> set pre \<Longrightarrow> json_objects_in (pre @ text) = json_objects_in text"
proof -
  assume "CHR ''{'' \<notin> set pre"
  then have "dropWhile (\<lambda>c. c \<noteq> CHR ''{'') (pre @ text) = dropWhile (\<lambda>c. c \<noteq> CHR ''{'') text"
    by (subst dropWhile_append2) auto
  then show ?thesis by (subst (1 2) json_objects_in.simps) simp
qed

lemma json_objects_in_none: "CHR ''{'' \<notin> set text \<Longrightarrow> json_objects_in text = []"
  using json_objects_in_skip [of "text" "[]"] by (simp add: json_objects_in.simps)

lemma json_objects_in_obj:
  assumes "raw_decode text = Some (JObj d, after)" "text = CHR ''{'' # rest"
  shows "json_objects_in text = d # json_objects_in after"
  using assms by (subst json_objects_in.simps) simp

lemma dumps_obj_brace: "\<exists>t. dumps (JObj d) = CHR ''{'' # t"
  by (simp add: dumps_obj)

lemma json_objects_in_dumps:
  assumes "CHR ''{'' \<notin> set pre" "json_ok (JObj d)"
  shows "json_objects_in (pre @ dumps (JObj d) @ post) = d # json_objects_in post"
proof -
  obtain t where t: "dumps (JObj d) = CHR ''{'' # t" using dumps_obj_brace by blast
  have "json_objects_in (dumps (JObj d) @ post) = d # json_objects_in post"
    using raw_decode_dumps_obj [OF assms(2)] t by (intro json_objects_in_obj) auto
  then show ?thesis using assms(1) by (simp add: json_objects_in_skip)
qed

lemma json_objects_in_dumps_only: "json_ok (JObj d) \<Longrightarrow> json_objects_in (dumps (JObj d)) = [d]"
  using json_objects_in_dumps [of "[]" d "[]"] by (simp add: json_objects_in_none)

section \<open>Which proposals are found\<close>

definition proposal_key :: "json_dict \<Rightarrow> string" where
  "proposal_key obj =
     (case reported_proposal obj of None \<Rightarrow> [] | Some p \<Rightarrow> dumps_sorted (JObj p))"

text \<open>Every object of the replies that reports a proposal, in order.\<close>

definition reported :: "string list \<Rightarrow> json_dict list" where
  "reported texts = filter (\<lambda>obj. reported_proposal obj \<noteq> None) (concat (map json_objects_in texts))"

text \<open>The first object for each key that is not yet seen.\<close>

fun first_by :: "('a \<Rightarrow> 'b) \<Rightarrow> 'b set \<Rightarrow> 'a list \<Rightarrow> 'a list" where
  "first_by f seen [] = []"
| "first_by f seen (x # xs) =
     (if f x \<in> seen then first_by f seen xs else x # first_by f (insert (f x) seen) xs)"

lemma first_by_keys: "f ` set (first_by f seen xs) = f ` set xs - seen"
  by (induction xs arbitrary: seen) auto

lemma first_by_distinct: "distinct (map f (first_by f seen xs))"
proof (induction xs arbitrary: seen)
  case (Cons x xs)
  have "f x \<notin> f ` set (first_by f (insert (f x) seen) xs)" by (simp add: first_by_keys)
  with Cons show ?case by simp
qed simp

lemma first_by_subseq: "subseq (first_by f seen xs) xs"
  by (induction xs arbitrary: seen) auto

lemma first_by_set: "set (first_by f seen xs) \<subseteq> set xs"
  by (induction xs arbitrary: seen) auto

lemma fold_note_proposal:
  "fold note_proposal objs (found, seen) =
   (found @ first_by proposal_key seen (filter (\<lambda>obj. reported_proposal obj \<noteq> None) objs),
    seen \<union> proposal_key ` set (filter (\<lambda>obj. reported_proposal obj \<noteq> None) objs))"
proof (induction objs arbitrary: found seen)
  case (Cons obj objs)
  have "note_proposal obj (found, seen) =
    (if reported_proposal obj = None then (found, seen)
     else if proposal_key obj \<in> seen then (found, seen)
     else (found @ [obj], insert (proposal_key obj) seen))"
    by (auto simp: note_proposal_def proposal_key_def Let_def split: option.splits)
  with Cons show ?case by auto
qed simp

lemma fold_nested: "fold (\<lambda>x acc. fold f (g x) acc) xs acc = fold f (concat (map g xs)) acc"
  by (induction xs arbitrary: acc) simp_all

lemma find_proposals_first: "find_proposals texts = first_by proposal_key {} (reported texts)"
  by (simp add: find_proposals_def fold_nested fold_note_proposal reported_def)

lemma reported_proposal_Some_iff:
  "reported_proposal obj = Some p \<longleftrightarrow>
   dict_get obj ''status'' = Some (JStr APPROVAL_REQUIRED) \<and> dict_get obj ''proposal'' = Some (JObj p)"
  by (auto simp: reported_proposal_def split: option.splits json.splits)

lemma in_reported_iff:
  "obj \<in> set (reported texts) \<longleftrightarrow>
   (\<exists>text \<in> set texts. obj \<in> set (json_objects_in text)) \<and> reported_proposal obj \<noteq> None"
  by (auto simp: reported_def)

lemma find_proposals_reported:
  "obj \<in> set (find_proposals texts) \<Longrightarrow> \<exists>p. reported_proposal obj = Some p"
  using first_by_set [of proposal_key "{}" "reported texts"]
  by (auto simp: find_proposals_first in_reported_iff)

section \<open>Which executions are confirmed\<close>

lemma find_execution_find:
  "find_execution texts proposal = find (confirms proposal) (concat (map json_objects_in texts))"
proof (induction texts)
  case (Cons t ts)
  have "find P (xs @ ys) = (case find P xs of None \<Rightarrow> find P ys | Some x \<Rightarrow> Some x)"
    for P and xs ys :: "json_dict list" by (induction xs) auto
  with Cons show ?case by (simp split: option.splits)
qed simp

lemma find_execution_SomeD:
  "find_execution texts proposal = Some obj \<Longrightarrow>
   confirms proposal obj \<and> (\<exists>text \<in> set texts. obj \<in> set (json_objects_in text))"
  by (force simp: find_execution_find find_Some_iff in_set_conv_nth [symmetric] dest: nth_mem)

lemma confirms_str:
  assumes "confirms proposal obj" "(k, JStr s) \<in> set proposal"
  shows "dict_get obj k = Some (JStr s)"
  using assms by (force simp: confirms_def wanted_def)

lemma confirms_scalar:
  assumes "confirms proposal obj" "(k, v) \<in> set proposal" "is_scalar v"
  shows "field_eq obj k v"
  using assms by (force simp: confirms_def wanted_def)

section \<open>The texts of an event\<close>

fun str_leaves :: "json \<Rightarrow> string set" where
  "str_leaves (JStr s) = {s}"
| "str_leaves (JObj d) = (\<Union>(k, v) \<in> set d. str_leaves v)"
| "str_leaves (JArr vs) = (\<Union>v \<in> set vs. str_leaves v)"
| "str_leaves _ = {}"

lemma unpack_leaves: "str_leaves v \<subseteq> set (unpack v)"
proof (induction v)
  case (JObj d)
  then show ?case by fastforce
qed auto

lemma unpack_obj: "dumps (JObj d) \<in> set (unpack (JObj d))"
  by simp

lemma reply_texts_response: "(n, v) \<in> set (ev_responses e) \<Longrightarrow> set (unpack v) \<subseteq> set (reply_texts e)"
  by (auto simp: reply_texts_def)

lemma case_from_proposal_found:
  assumes "reported_proposal found = Some p"
  shows "case_from_proposal now u found sid cid agent =
    Inr (ApprovalCase now cid (take 12 u)
          (if agent \<noteq> [] then agent else str_field found ''agent'')
          (case dict_get found ''action'' of
             Some v \<Rightarrow> if truthy v then py_str v else str_field p ''action''
           | None \<Rightarrow> str_field p ''action'')
          (str_field found ''summary'') p sid)"
  using assms
  by (auto simp: case_from_proposal_def dict_of_field_def reported_proposal_Some_iff new_proposal_id_def)

lemma case_from_proposal_fresh:
  assumes "case_from_proposal now u found sid cid agent = Inr c" "is_aware now"
  shows "ac_status c = PENDING \<and> ac_session_id c = sid \<and> ac_case_id c = cid \<and>
    ac_proposal_id c = take 12 u \<and> ac_result c = None \<and> ac_decided_at c = None \<and>
    ac_executed_at c = None \<and> is_aware (ac_created_at c)"
  using assms by (auto simp: case_from_proposal_def ApprovalCase_def new_proposal_id_def bind_result_Inr_iff)

section \<open>Proposals and executions in replies\<close>

lemma demo_result_ok: "json_ok (JObj demo_result)"
  by (simp add: demo_result_def ascii_text_ok ascii_def)

text \<open>Round trip: a JSON object serialized into prose (with no opening brace before it) is read back as it is, and the scan goes on after it.\<close>

theorem object_in_prose_is_found:
  assumes "CHR ''{'' \<notin> set pre" "json_ok (JObj d)"
  shows "json_objects_in (pre @ dumps (JObj d) @ post) = d # json_objects_in post"
  using assms by (rule json_objects_in_dumps)

theorem object_in_prose_is_found_witness:
  "json_objects_in (''Done: '' @ dumps (JObj demo_result) @ ''.'') = [demo_result]"
  using object_in_prose_is_found [of "''Done: ''" demo_result "''.''"] demo_result_ok
  by (simp add: json_objects_in_none)

text \<open>C18. A proposal's JSON quoted in prose, at any depth of a peer's tool result, is found: the proposals found in the event's texts include one with the same proposal.\<close>

theorem wrapped_proposal_is_found:
  assumes "json_ok (JObj obj)" "reported_proposal obj = Some p" "CHR ''{'' \<notin> set pre"
    and "(tool, payload) \<in> set (ev_responses e)"
    and "pre @ dumps (JObj obj) @ post \<in> str_leaves payload"
  shows "\<exists>found \<in> set (find_proposals (reply_texts e)). proposal_key found = dumps_sorted (JObj p)"
proof -
  let ?t = "pre @ dumps (JObj obj) @ post"
  have "?t \<in> set (reply_texts e)"
    using assms(4,5) reply_texts_response unpack_leaves by blast
  moreover have "obj \<in> set (json_objects_in ?t)" using json_objects_in_dumps [OF assms(3,1)] by simp
  ultimately have "obj \<in> set (reported (reply_texts e))" using assms(2) by (auto simp: in_reported_iff)
  then have "proposal_key obj \<in> proposal_key ` set (find_proposals (reply_texts e))"
    by (simp add: find_proposals_first first_by_keys)
  moreover have "proposal_key obj = dumps_sorted (JObj p)" using assms(2) by (simp add: proposal_key_def)
  ultimately show ?thesis by auto
qed

definition demo_envelope :: json_dict where
  "demo_envelope = [(''status'', JStr ''approval_required''), (''action'', JStr ''publish_result''),
     (''proposal'', JObj (ac_proposal demo_case)), (''summary'', JStr ''Publish'')]"

lemma demo_envelope_ok: "json_ok (JObj demo_envelope)" "reported_proposal demo_envelope = Some (ac_proposal demo_case)"
  by (simp_all add: demo_envelope_def demo_case_def ApprovalCase_def ascii_text_ok ascii_def
      reported_proposal_Some_iff APPROVAL_REQUIRED_def)

definition peer_event :: event where
  "peer_event = \<lparr>ev_author = ''orchestrator'', ev_calls = [],
     ev_responses = [(''math'', JObj [(''result'', JStr (''See: '' @ dumps (JObj demo_envelope) @ '' Bye.''))])],
     ev_content = None, ev_error = None, ev_final = False\<rparr>"

theorem wrapped_proposal_is_found_witness:
  "\<exists>found \<in> set (find_proposals (reply_texts peer_event)).
     proposal_key found = dumps_sorted (JObj (ac_proposal demo_case))"
  by (rule wrapped_proposal_is_found [OF demo_envelope_ok, where pre = "''See: ''" and post = "'' Bye.''" and tool = "''math''"
        and payload = "JObj [(''result'', JStr (''See: '' @ dumps (JObj demo_envelope) @ '' Bye.''))]"])
    (simp_all add: peer_event_def)


text \<open>An execution is the first JSON object in the texts that confirms the proposal, and there is none exactly when no object of any text confirms it.\<close>

theorem execution_is_matched_on_content:
  "find_execution texts proposal = find (confirms proposal) (concat (map json_objects_in texts)) \<and>
   (find_execution texts proposal = None) =
     (\<not> (\<exists>text obj. text \<in> set texts \<and> obj \<in> set (json_objects_in text) \<and> confirms proposal obj))"
  by (auto simp: find_execution_find find_None_iff)

section \<open>Sample texts\<close>

definition demo_events :: "event list" where
  "demo_events = [\<lparr>ev_author = ''orchestrator'', ev_calls = [], ev_responses = [(''math'', JObj demo_result)],
     ev_content = None, ev_error = None, ev_final = True\<rparr>]"

lemma demo_find: "find_execution (concat (map reply_texts demo_events)) (ac_proposal demo_case) = Some demo_result"
proof -
  have ok: "json_ok (JObj demo_result)" by (simp add: demo_result_def ascii_text_ok ascii_def)
  have "reply_texts (hd demo_events) = dumps (JObj demo_result) # [''published'', ''42'', ''q3'']"
    by (simp add: demo_events_def demo_result_def reply_texts_def Let_def content_parts_def parts_text_def)
  then have "concat (map reply_texts demo_events) = dumps (JObj demo_result) # [''published'', ''42'', ''q3'']"
    by (simp add: demo_events_def)
  moreover have "confirms (ac_proposal demo_case) demo_result"
    by (simp add: demo_case_def demo_result_def confirms_def wanted_def ApprovalCase_def PUBLISHED_def)
  ultimately show ?thesis
    using json_objects_in_dumps_only [OF ok] by simp
qed

definition demo_texts :: "string list" where
  "demo_texts = [''Nothing published yet. '' @ dumps (JObj demo_envelope) @ '' That is all.'']"

lemma demo_proposals: "find_proposals demo_texts = [demo_envelope]"
proof -
  have ok: "json_ok (JObj demo_envelope)"
    by (simp add: demo_envelope_def demo_case_def ApprovalCase_def ascii_text_ok ascii_def)
  have "json_objects_in (hd demo_texts) = [demo_envelope]"
    unfolding demo_texts_def using json_objects_in_dumps [OF _ ok, of "''Nothing published yet. ''" "'' That is all.''"]
    by (simp add: json_objects_in_none)
  moreover have "reported_proposal demo_envelope = Some (ac_proposal demo_case)"
    by (simp add: reported_proposal_Some_iff demo_envelope_def APPROVAL_REQUIRED_def)
  ultimately show ?thesis by (simp add: find_proposals_first reported_def demo_texts_def)
qed

end
