(* ===== verification/Case_Database.thy ===== *)
theory Case_Database
  imports Cases
begin

text \<open>
  \<open>DatabaseCaseStore\<close>: the store over the \<^verbatim>\<open>approval_cases\<close> table. The table is the list of its rows in
  insertion order. Each operation is one transaction; \<open>Inl\<close> is an error raised by the database,
  after which the transaction is rolled back and the table unchanged. PostgreSQL enforces the
  column widths and the \<open>CHECK\<close> constraint on the status, SQLite neither; SQLite stores time stamps
  without their zone. A JSON column is taken to return the dictionary that was stored (JSONB may
  reorder its keys, which no reader of these columns depends on).
\<close>

datatype dialect = SQLite | PostgreSQL

section \<open>Rows\<close>

record case_row =
  row_proposal_id :: string
  row_case_id :: string
  row_agent :: string
  row_action :: string
  row_summary :: string
  row_proposal :: "json_dict option"
  row_status :: string
  row_session_id :: string
  row_decided_by :: string
  row_note :: string
  row_result :: "json_dict option"
  row_created_at :: datetime
  row_decided_at :: "datetime option"
  row_executed_at :: "datetime option"

type_synonym case_table = "case_row list"

text \<open>\<open>sa.DateTime(timezone=True)\<close> on its way into the database, and \<open>_as_utc\<close> on the way out.\<close>

definition store_time :: "dialect \<Rightarrow> datetime \<Rightarrow> datetime" where
  "store_time d t = (case d of SQLite \<Rightarrow> Naive (wall t) | PostgreSQL \<Rightarrow> t)"

definition as_utc :: "datetime \<Rightarrow> datetime" where
  "as_utc t = (case t of Naive u \<Rightarrow> Aware u | Aware u \<Rightarrow> t)"

lemma as_utc_store_time [simp]: "is_aware t \<Longrightarrow> as_utc (store_time d t) = t"
  by (cases t; cases d) (simp_all add: as_utc_def store_time_def)

lemma is_aware_as_utc [simp]: "is_aware (as_utc t)"
  by (cases t) (simp_all add: as_utc_def)

definition row_to_case :: "case_row \<Rightarrow> approval_case" where
  "row_to_case r =
     \<lparr>ac_case_id = row_case_id r, ac_proposal_id = row_proposal_id r, ac_agent = row_agent r,
      ac_action = row_action r, ac_summary = row_summary r,
      ac_proposal = (case row_proposal r of None \<Rightarrow> [] | Some p \<Rightarrow> p),
      ac_status = row_status r, ac_session_id = row_session_id r,
      ac_decided_by = row_decided_by r, ac_note = row_note r, ac_result = row_result r,
      ac_created_at = as_utc (row_created_at r),
      ac_decided_at = map_option as_utc (row_decided_at r),
      ac_executed_at = map_option as_utc (row_executed_at r)\<rparr>"

text \<open>The row an \<open>INSERT\<close> of a case makes: the three outcome columns are left to their default.\<close>

definition insert_row :: "dialect \<Rightarrow> approval_case \<Rightarrow> case_row" where
  "insert_row d c =
     \<lparr>row_proposal_id = ac_proposal_id c, row_case_id = ac_case_id c, row_agent = ac_agent c,
      row_action = ac_action c, row_summary = ac_summary c, row_proposal = Some (ac_proposal c),
      row_status = ac_status c, row_session_id = ac_session_id c,
      row_decided_by = ac_decided_by c, row_note = ac_note c, row_result = None,
      row_created_at = store_time d (ac_created_at c), row_decided_at = None,
      row_executed_at = None\<rparr>"

text \<open>The widths declared by \<open>CASES\<close> and the status constraint of migration 0005.\<close>

definition row_fits :: "dialect \<Rightarrow> case_row \<Rightarrow> bool" where
  "row_fits d r \<longleftrightarrow> d = SQLite \<or>
     py_len (row_proposal_id r) \<le> 32 \<and> py_len (row_case_id r) \<le> 128 \<and>
     py_len (row_agent r) \<le> 128 \<and> py_len (row_action r) \<le> 128 \<and>
     py_len (row_status r) \<le> 16 \<and> py_len (row_session_id r) \<le> 128 \<and>
     py_len (row_decided_by r) \<le> 256 \<and> row_status r \<in> set STATUSES"

section \<open>Operations\<close>

definition select_row :: "case_table \<Rightarrow> string \<Rightarrow> case_row option" where
  "select_row tbl proposal_id = find (\<lambda>r. row_proposal_id r = proposal_id) tbl"

definition db_open :: "dialect \<Rightarrow> approval_case \<Rightarrow> case_table \<Rightarrow> (bool \<times> case_table) result" where
  "db_open d c tbl =
     (if select_row tbl (ac_proposal_id c) \<noteq> None then Inr (False, tbl)
      else
        let r = insert_row d c
        in if row_fits d r then Inr (True, tbl @ [r])
           else Inl (StorageError ''value too long for type character varying''))"

definition db_get :: "string \<Rightarrow> case_table \<Rightarrow> approval_case option" where
  "db_get proposal_id tbl = map_option row_to_case (select_row tbl proposal_id)"

definition db_list_by_status :: "string \<Rightarrow> case_table \<Rightarrow> approval_case list" where
  "db_list_by_status st tbl =
     map row_to_case (sort_key row_created_at (filter (\<lambda>r. row_status r = st) tbl))"

text \<open>
  \<open>UPDATE ... WHERE P SET f RETURNING\<close>: the rows that satisfy \<open>P\<close> are rewritten, and the first of
  them is what \<open>.first()\<close> reads.
\<close>

definition update_rows ::
  "dialect \<Rightarrow> (case_row \<Rightarrow> bool) \<Rightarrow> (case_row \<Rightarrow> case_row) \<Rightarrow> case_table \<Rightarrow>
   (case_row option \<times> case_table) result" where
  "update_rows d P f tbl =
     (if \<forall>r \<in> set tbl. P r \<longrightarrow> row_fits d (f r)
      then Inr (map_option f (find P tbl), map (\<lambda>r. if P r then f r else r) tbl)
      else Inl (StorageError ''value too long for type character varying''))"

definition db_decide ::
  "dialect \<Rightarrow> datetime \<Rightarrow> string \<Rightarrow> bool \<Rightarrow> string \<Rightarrow> string \<Rightarrow> case_table \<Rightarrow>
   ((decision_outcome \<times> approval_case option) \<times> case_table) result" where
  "db_decide d now proposal_id approved decided_by note_text tbl =
     bind_result
       (update_rows d (\<lambda>r. row_proposal_id r = proposal_id \<and> row_status r = PENDING)
          (\<lambda>r. r\<lparr>row_status := (if approved then APPROVED else REJECTED),
                 row_decided_by := decided_by, row_note := note_text,
                 row_decided_at := Some (store_time d now)\<rparr>) tbl)
       (\<lambda>(row, tbl'). Inr
          (case row of
             Some r \<Rightarrow> ((RECORDED, Some (row_to_case r)), tbl')
           | None \<Rightarrow>
               (case select_row tbl' proposal_id of
                  None \<Rightarrow> ((NOT_FOUND, None), tbl')
                | Some r \<Rightarrow> ((ALREADY_DECIDED, Some (row_to_case r)), tbl'))))"

definition db_record_execution ::
  "dialect \<Rightarrow> datetime \<Rightarrow> string \<Rightarrow> bool \<Rightarrow> json_dict \<Rightarrow> case_table \<Rightarrow>
   (approval_case option \<times> case_table) result" where
  "db_record_execution d now proposal_id succeeded res tbl =
     bind_result
       (update_rows d (\<lambda>r. row_proposal_id r = proposal_id)
          (\<lambda>r. r\<lparr>row_status := (if succeeded then EXECUTED else FAILED), row_result := Some res,
                 row_executed_at := Some (store_time d now)\<rparr>) tbl)
       (\<lambda>(row, tbl'). Inr (map_option row_to_case row, tbl'))"

definition DatabaseCaseStore :: "dialect \<Rightarrow> case_table case_store" where
  "DatabaseCaseStore d =
     \<lparr>op_open = db_open d, op_get = db_get, op_list_by_status = db_list_by_status,
      op_decide = db_decide d, op_record_execution = db_record_execution d\<rparr>"

end
