(* ===== verification/Case_Store_Spec.thy ===== *)
theory Case_Store_Spec
  imports Case_Database
begin

text \<open>
  What every case store promises. The database store refines the in-memory one: \<open>abs_table\<close> maps a
  table to the dictionary an in-memory store would hold, and each database operation that does not
  raise commutes with it. The locale \<open>case_store_spec\<close> states the contract over the map from
  proposal ids to cases; its lemmas are what the HTTP layer uses, and both stores interpret it.
\<close>

section \<open>Refinement of the in-memory store by the table\<close>

definition abs_table :: "case_table \<Rightarrow> mem_store" where
  "abs_table tbl = map (\<lambda>r. (row_proposal_id r, row_to_case r)) tbl"

definition table_ok :: "dialect \<Rightarrow> case_table \<Rightarrow> bool" where
  "table_ok d tbl \<longleftrightarrow>
     distinct (map row_proposal_id tbl) \<and>
     (\<forall>r \<in> set tbl. is_aware (row_created_at r) = (d = PostgreSQL))"

text \<open>A case as it is when it is opened: nothing decided, nothing executed, an aware time stamp.\<close>

definition fresh_case :: "approval_case \<Rightarrow> bool" where
  "fresh_case c \<longleftrightarrow>
     ac_result c = None \<and> ac_decided_at c = None \<and> ac_executed_at c = None \<and> is_aware (ac_created_at c)"

lemma fst_abs_table [simp]: "map fst (abs_table tbl) = map row_proposal_id tbl"
  by (simp add: abs_table_def)

lemma dict_get_abs_table: "dict_get (abs_table tbl) pid = map_option row_to_case (select_row tbl pid)"
  by (induction tbl) (auto simp: abs_table_def select_row_def)

lemma select_row_None: "select_row tbl pid = None \<longleftrightarrow> pid \<notin> row_proposal_id ` set tbl"
  by (auto simp: select_row_def find_None_iff)

lemma select_row_SomeD: "select_row tbl pid = Some r \<Longrightarrow> r \<in> set tbl \<and> row_proposal_id r = pid"
  by (auto simp: select_row_def find_Some_iff)

lemma row_to_case_insert: "fresh_case c \<Longrightarrow> row_to_case (insert_row d c) = c"
  by (cases c) (simp add: fresh_case_def row_to_case_def insert_row_def)

lemma row_to_case_status [simp]: "ac_status (row_to_case r) = row_status r"
  by (simp add: row_to_case_def)

lemma update_distinct_map:
  "distinct (map fst al) \<Longrightarrow> map_of al k \<noteq> None \<Longrightarrow>
   dict_set al k v = map (\<lambda>(k', v'). if k' = k then (k, v) else (k', v')) al"
proof (induction al)
  case Nil
  then show ?case by simp
next
  case (Cons p al)
  obtain a b where p: "p = (a, b)" by fastforce
  show ?case
  proof (cases "a = k")
    case True
    with Cons.prems p have "\<forall>(k', v') \<in> set al. k' \<noteq> k" by (auto simp: image_iff)
    then have "map (\<lambda>(k', v'). if k' = k then (k, v) else (k', v')) al = al"
      by (intro map_idI) auto
    with True p show ?thesis by simp
  next
    case False
    with Cons p show ?thesis by simp
  qed
qed

text \<open>An update of the one row that holds an id is an assignment to that key.\<close>

lemma abs_table_update:
  assumes "distinct (map row_proposal_id tbl)" and sel: "select_row tbl pid = Some r0" and "P r0"
    and key: "\<And>r. row_proposal_id (f r) = row_proposal_id r"
  shows "abs_table (map (\<lambda>r. if row_proposal_id r = pid \<and> P r then f r else r) tbl)
         = dict_set (abs_table tbl) pid (row_to_case (f r0))"
proof -
  have uniq: "r = r0" if "r \<in> set tbl" "row_proposal_id r = pid" for r
    using assms(1) select_row_SomeD [OF sel] that by (auto simp: distinct_map dest: inj_onD)
  have "dict_set (abs_table tbl) pid (row_to_case (f r0))
        = map (\<lambda>(k', v'). if k' = pid then (pid, row_to_case (f r0)) else (k', v')) (abs_table tbl)"
    using assms(1) sel by (intro update_distinct_map) (simp_all add: dict_get_abs_table)
  also have "\<dots> = abs_table (map (\<lambda>r. if row_proposal_id r = pid \<and> P r then f r else r) tbl)"
    using uniq \<open>P r0\<close> key by (auto simp: abs_table_def)
  finally show ?thesis by simp
qed

lemma as_utc_le: "is_aware s = is_aware t \<Longrightarrow> as_utc s \<le> as_utc t \<longleftrightarrow> s \<le> t"
  by (cases s; cases t) (simp_all add: as_utc_def less_eq_datetime_def)

lemma db_open_refines:
  assumes "db_open d c tbl = Inr (b, tbl')" "fresh_case c" "table_ok d tbl"
  shows "(b, abs_table tbl') = mem_open c (abs_table tbl) \<and> table_ok d tbl'"
proof (cases "select_row tbl (ac_proposal_id c)")
  case None
  have key: "row_proposal_id (insert_row d c) = ac_proposal_id c" by (simp add: insert_row_def)
  have "ac_proposal_id c \<notin> set (dict_keys (abs_table tbl))"
    using None by (simp add: select_row_None dict_keys_def)
  then have "dict_set (abs_table tbl) (ac_proposal_id c) c = abs_table (tbl @ [insert_row d c])"
    using assms(2) by (simp add: dict_set_new abs_table_def key row_to_case_insert)
  moreover have "table_ok d (tbl @ [insert_row d c])"
    using None assms(2,3) by (cases d) (auto simp: table_ok_def select_row_None key insert_row_def
        store_time_def fresh_case_def)
  ultimately show ?thesis
    using assms(1) None
    by (auto simp: db_open_def mem_open_def dict_get_abs_table Let_def split: if_splits)
next
  case (Some r)
  with assms show ?thesis by (auto simp: db_open_def mem_open_def dict_get_abs_table)
qed

lemma db_get_refines: "db_get pid tbl = mem_get pid (abs_table tbl)"
  by (simp add: db_get_def mem_get_def dict_get_abs_table)

lemma db_list_refines:
  assumes "table_ok d tbl"
  shows "db_list_by_status st tbl = mem_list_by_status st (abs_table tbl)"
proof -
  let ?rows = "filter (\<lambda>r. row_status r = st) tbl"
  have "filter (\<lambda>c. ac_status c = st) (dict_values (abs_table tbl)) = map row_to_case ?rows"
    by (simp add: dict_values_def abs_table_def filter_map comp_def)
  moreover have "map row_to_case (sort_key row_created_at ?rows)
                 = sort_key ac_created_at (map row_to_case ?rows)"
    using assms by (intro sort_key_map) (auto simp: table_ok_def row_to_case_def as_utc_le)
  ultimately show ?thesis by (simp add: db_list_by_status_def mem_list_by_status_def)
qed

lemma table_ok_map:
  assumes "table_ok d tbl" "\<And>r. row_proposal_id (f r) = row_proposal_id r"
    "\<And>r. row_created_at (f r) = row_created_at r"
  shows "table_ok d (map (\<lambda>r. if P r then f r else r) tbl)"
proof -
  have "row_proposal_id \<circ> (\<lambda>r. if P r then f r else r) = row_proposal_id"
    using assms(2) by (auto simp: fun_eq_iff)
  then show ?thesis using assms by (auto simp: table_ok_def)
qed

lemma find_key:
  "distinct (map row_proposal_id tbl) \<Longrightarrow>
   find (\<lambda>r. row_proposal_id r = pid \<and> P r) tbl =
   (case select_row tbl pid of None \<Rightarrow> None | Some r \<Rightarrow> if P r then Some r else None)"
proof (induction tbl)
  case Nil
  then show ?case by (simp add: select_row_def)
next
  case (Cons a tbl)
  have "find (\<lambda>r. row_proposal_id r = pid \<and> P r) tbl = None" if "row_proposal_id a = pid"
    unfolding find_None_iff using Cons.prems that by (auto simp: rev_image_eqI)
  with Cons show ?case by (auto simp: select_row_def)
qed

lemma update_rows_key:
  assumes "update_rows d (\<lambda>r. row_proposal_id r = pid \<and> P r) f tbl = Inr (row, tbl')"
    and "table_ok d tbl" and key: "\<And>r. row_proposal_id (f r) = row_proposal_id r"
    and "\<And>r. row_created_at (f r) = row_created_at r"
  shows "table_ok d tbl'"
    and "(\<exists>r0. select_row tbl pid = Some r0 \<and> P r0 \<and> row = Some (f r0) \<and>
            abs_table tbl' = dict_set (abs_table tbl) pid (row_to_case (f r0)))
         \<or> (\<forall>r0. select_row tbl pid = Some r0 \<longrightarrow> \<not> P r0) \<and> row = None \<and> tbl' = tbl"
proof -
  let ?P = "\<lambda>r. row_proposal_id r = pid \<and> P r"
  from assms(1) have row: "row = map_option f (find ?P tbl)"
    and tbl': "tbl' = map (\<lambda>r. if ?P r then f r else r) tbl"
    by (auto simp: update_rows_def split: if_splits)
  from assms(2) have dist: "distinct (map row_proposal_id tbl)" by (simp add: table_ok_def)
  show "table_ok d tbl'" unfolding tbl' by (rule table_ok_map [OF assms(2-4)])
  consider (hit) r0 where "select_row tbl pid = Some r0" "P r0"
    | (miss) "\<forall>r0. select_row tbl pid = Some r0 \<longrightarrow> \<not> P r0" by blast
  then show "(\<exists>r0. select_row tbl pid = Some r0 \<and> P r0 \<and> row = Some (f r0) \<and>
            abs_table tbl' = dict_set (abs_table tbl) pid (row_to_case (f r0)))
         \<or> (\<forall>r0. select_row tbl pid = Some r0 \<longrightarrow> \<not> P r0) \<and> row = None \<and> tbl' = tbl"
  proof cases
    case hit
    have "abs_table tbl' = dict_set (abs_table tbl) pid (row_to_case (f r0))"
      unfolding tbl' using hit by (intro abs_table_update dist key)
    with hit show ?thesis by (auto simp: row find_key [OF dist])
  next
    case miss
    then have none: "find ?P tbl = None" by (auto simp: find_key [OF dist] split: option.splits)
    then have "tbl' = tbl" unfolding tbl' by (intro map_idI) (auto simp: find_None_iff)
    with miss none show ?thesis by (auto simp: row)
  qed
qed

lemma db_decide_refines:
  assumes "db_decide d now pid ok by n tbl = Inr (res, tbl')" "table_ok d tbl" "is_aware now"
  shows "(res, abs_table tbl') = mem_decide now pid ok by n (abs_table tbl) \<and> table_ok d tbl'"
proof -
  let ?f = "\<lambda>r. r\<lparr>row_status := (if ok then APPROVED else REJECTED), row_decided_by := by,
     row_note := n, row_decided_at := Some (store_time d now)\<rparr>"
  have f: "row_to_case (?f r) = decided now ok by n (row_to_case r)" for r
    using assms(3) by (simp add: row_to_case_def decided_def)
  obtain row tbl1 where u: "update_rows d (\<lambda>r. row_proposal_id r = pid \<and> row_status r = PENDING) ?f tbl
      = Inr (row, tbl1)"
    using assms(1) by (cases "update_rows d (\<lambda>r. row_proposal_id r = pid \<and> row_status r = PENDING) ?f tbl")
      (auto simp: db_decide_def)
  have t: "tbl' = tbl1" "res = (case row of Some r \<Rightarrow> (RECORDED, Some (row_to_case r))
      | None \<Rightarrow> (case select_row tbl1 pid of None \<Rightarrow> (NOT_FOUND, None)
                 | Some r \<Rightarrow> (ALREADY_DECIDED, Some (row_to_case r))))"
    using assms(1) u by (auto simp: db_decide_def split: option.splits)
  have "table_ok d tbl1" by (rule update_rows_key(1) [OF u assms(2)]) simp_all
  moreover have "(res, abs_table tbl') = mem_decide now pid ok by n (abs_table tbl)"
    using update_rows_key(2) [OF u assms(2)] t
    by (auto simp: mem_decide_def dict_get_abs_table f Let_def split: option.splits)
  ultimately show ?thesis using t by simp
qed

lemma db_record_refines:
  assumes "db_record_execution d now pid ok res tbl = Inr (r, tbl')" "table_ok d tbl" "is_aware now"
  shows "(r, abs_table tbl') = mem_record_execution now pid ok res (abs_table tbl) \<and> table_ok d tbl'"
proof -
  let ?f = "\<lambda>r. r\<lparr>row_status := (if ok then EXECUTED else FAILED), row_result := Some res,
     row_executed_at := Some (store_time d now)\<rparr>"
  have f: "row_to_case (?f r) = executed now ok res (row_to_case r)" for r
    using assms(3) by (simp add: row_to_case_def executed_def)
  obtain row where u: "update_rows d (\<lambda>r. row_proposal_id r = pid \<and> True) ?f tbl = Inr (row, tbl')"
    and t: "r = map_option row_to_case row"
    using assms(1) by (cases "update_rows d (\<lambda>r. row_proposal_id r = pid) ?f tbl")
      (auto simp: db_record_execution_def)
  have "table_ok d tbl'" by (rule update_rows_key(1) [OF u assms(2)]) simp_all
  moreover have "(r, abs_table tbl') = mem_record_execution now pid ok res (abs_table tbl)"
    using update_rows_key(2) [OF u assms(2)] t
    by (auto simp: mem_record_execution_def dict_get_abs_table f Let_def split: option.splits)
  ultimately show ?thesis by simp
qed

section \<open>The contract\<close>

type_synonym case_map = "string \<Rightarrow> approval_case option"

definition spec_decide ::
  "datetime \<Rightarrow> string \<Rightarrow> bool \<Rightarrow> string \<Rightarrow> string \<Rightarrow> case_map \<Rightarrow>
   (decision_outcome \<times> approval_case option) \<times> case_map" where
  "spec_decide now pid ok by n m =
     (case m pid of
        None \<Rightarrow> ((NOT_FOUND, None), m)
      | Some c \<Rightarrow>
          if ac_status c = PENDING
          then ((RECORDED, Some (decided now ok by n c)), m(pid \<mapsto> decided now ok by n c))
          else ((ALREADY_DECIDED, Some c), m))"

definition spec_record ::
  "datetime \<Rightarrow> string \<Rightarrow> bool \<Rightarrow> json_dict \<Rightarrow> case_map \<Rightarrow> approval_case option \<times> case_map" where
  "spec_record now pid ok res m =
     (case m pid of
        None \<Rightarrow> (None, m)
      | Some c \<Rightarrow> (Some (executed now ok res c), m(pid \<mapsto> executed now ok res c)))"

text \<open>A request to a store, and the state after a sequence of them; an error changes nothing.\<close>

datatype store_request =
    Open approval_case
  | Decide datetime string bool string string
  | Record datetime string bool json_dict

fun serve :: "'s case_store \<Rightarrow> store_request \<Rightarrow> 's \<Rightarrow> 's" where
  "serve S (Open c) s = (case op_open S c s of Inl e \<Rightarrow> s | Inr (b, s') \<Rightarrow> s')"
| "serve S (Decide now pid ok by n) s =
     (case op_decide S now pid ok by n s of Inl e \<Rightarrow> s | Inr (r, s') \<Rightarrow> s')"
| "serve S (Record now pid ok res) s =
     (case op_record_execution S now pid ok res s of Inl e \<Rightarrow> s | Inr (r, s') \<Rightarrow> s')"

fun serve_all :: "'s case_store \<Rightarrow> store_request list \<Rightarrow> 's \<Rightarrow> 's" where
  "serve_all S [] s = s"
| "serve_all S (q # qs) s = serve_all S qs (serve S q s)"

fun request_ok :: "store_request \<Rightarrow> bool" where
  "request_ok (Open c) \<longleftrightarrow> fresh_case c"
| "request_ok (Decide now pid ok by n) \<longleftrightarrow> is_aware now"
| "request_ok (Record now pid ok res) \<longleftrightarrow> is_aware now"

text \<open>The two cases agree on everything a decision fixes.\<close>

definition same_decision :: "approval_case \<Rightarrow> approval_case \<Rightarrow> bool" where
  "same_decision c c' \<longleftrightarrow>
     ac_proposal_id c' = ac_proposal_id c \<and> ac_proposal c' = ac_proposal c \<and>
     ac_session_id c' = ac_session_id c \<and> ac_decided_by c' = ac_decided_by c \<and>
     ac_note c' = ac_note c \<and> ac_decided_at c' = ac_decided_at c \<and>
     ac_created_at c' = ac_created_at c"

lemma same_decision_refl [simp, intro]: "same_decision c c"
  by (simp add: same_decision_def)

lemma same_decision_executed [simp]: "same_decision c (executed now ok res c')
   = same_decision c c'"
  by (simp add: same_decision_def)

lemma same_decision_trans: "same_decision a b \<Longrightarrow> same_decision b c \<Longrightarrow> same_decision a c"
  by (simp add: same_decision_def)

locale case_store_spec =
  fixes S :: "'s case_store"
    and inv :: "'s \<Rightarrow> bool"
    and cases_of :: "'s \<Rightarrow> case_map"
    and admits :: "approval_case \<Rightarrow> bool"
    and admits_name :: "string \<Rightarrow> bool"
  assumes key_spec: "inv s \<Longrightarrow> cases_of s pid = Some c \<Longrightarrow> ac_proposal_id c = pid"
    and open_spec: "inv s \<Longrightarrow> fresh_case c \<Longrightarrow> op_open S c s = Inr (b, s') \<Longrightarrow>
      inv s' \<and> b = (cases_of s (ac_proposal_id c) = None) \<and>
      cases_of s' = (if b then (cases_of s)(ac_proposal_id c \<mapsto> c) else cases_of s)"
    and open_total: "inv s \<Longrightarrow> admits c \<Longrightarrow> \<not> isl (op_open S c s)"
    and get_spec: "inv s \<Longrightarrow> op_get S pid s = cases_of s pid"
    and list_spec: "inv s \<Longrightarrow>
      set (op_list_by_status S st s) = {c. \<exists>pid. cases_of s pid = Some c \<and> ac_status c = st} \<and>
      sorted (map ac_created_at (op_list_by_status S st s))"
    and decide_spec: "inv s \<Longrightarrow> is_aware now \<Longrightarrow> op_decide S now pid ok by n s = Inr (r, s') \<Longrightarrow>
      inv s' \<and> (r, cases_of s') = spec_decide now pid ok by n (cases_of s)"
    and decide_total: "inv s \<Longrightarrow> admits_name by \<Longrightarrow> \<not> isl (op_decide S now pid ok by n s)"
    and record_spec: "inv s \<Longrightarrow> is_aware now \<Longrightarrow>
      op_record_execution S now pid ok res s = Inr (oc, s') \<Longrightarrow>
      inv s' \<and> (oc, cases_of s') = spec_record now pid ok res (cases_of s)"
    and record_total: "inv s \<Longrightarrow> \<not> isl (op_record_execution S now pid ok res s)"
begin

lemma serve_effect:
  assumes "inv s" "request_ok q"
  shows "inv (serve S q s) \<and>
    (cases_of (serve S q s) = cases_of s \<or>
     (case q of
        Open c \<Rightarrow> cases_of s (ac_proposal_id c) = None \<and>
                  cases_of (serve S q s) = (cases_of s)(ac_proposal_id c \<mapsto> c)
      | Decide now pid ok by n \<Rightarrow> cases_of (serve S q s) = snd (spec_decide now pid ok by n (cases_of s))
      | Record now pid ok res \<Rightarrow> cases_of (serve S q s) = snd (spec_record now pid ok res (cases_of s))))"
proof (cases q)
  case (Open c)
  show ?thesis
  proof (cases "op_open S c s")
    case (Inr rs)
    obtain b s' where "rs = (b, s')" by fastforce
    with assms Open Inr open_spec [of s c b s'] show ?thesis by (auto split: if_splits)
  qed (use assms Open in simp)
next
  case (Decide now p ok who n)
  show ?thesis
  proof (cases "op_decide S now p ok who n s")
    case (Inr rs)
    obtain r s' where "rs = (r, s')" by fastforce
    with assms Decide Inr decide_spec [of s now p ok who n r s'] show ?thesis
      by (cases "spec_decide now p ok who n (cases_of s)") auto
  qed (use assms Decide in simp)
next
  case (Record now p ok res)
  show ?thesis
  proof (cases "op_record_execution S now p ok res s")
    case (Inr rs)
    obtain r s' where "rs = (r, s')" by fastforce
    with assms Record Inr record_spec [of s now p ok res r s'] show ?thesis
      by (cases "spec_record now p ok res (cases_of s)") auto
  qed (use assms Record in simp)
qed

lemma serve_inv: "inv s \<Longrightarrow> request_ok q \<Longrightarrow> inv (serve S q s)"
  using serve_effect by blast

text \<open>One request keeps a decided case decided, with the same decision.\<close>

lemma serve_keeps_decision:
  assumes "inv s" "request_ok q" "cases_of s pid = Some c" "ac_status c \<noteq> PENDING"
  shows "\<exists>c'. cases_of (serve S q s) pid = Some c' \<and> same_decision c c' \<and> ac_status c' \<noteq> PENDING"
  using serve_effect [OF assms(1,2)] assms(3,4)
  by (auto simp: spec_decide_def spec_record_def split: store_request.splits option.splits if_splits)

lemma serve_all_keeps_decision:
  "inv s \<Longrightarrow> list_all request_ok qs \<Longrightarrow> cases_of s pid = Some c \<Longrightarrow> ac_status c \<noteq> PENDING \<Longrightarrow>
   \<exists>c'. cases_of (serve_all S qs s) pid = Some c' \<and> same_decision c c' \<and> ac_status c' \<noteq> PENDING"
proof (induction qs arbitrary: s c)
  case Nil
  then show ?case by auto
next
  case (Cons q qs)
  from Cons.prems obtain c1 where c1: "cases_of (serve S q s) pid = Some c1" "same_decision c c1"
    "ac_status c1 \<noteq> PENDING" using serve_keeps_decision by fastforce
  have "inv (serve S q s)" using Cons.prems by (simp add: serve_inv)
  with c1 Cons obtain c2 where "cases_of (serve_all S qs (serve S q s)) pid = Some c2"
    "same_decision c1 c2" "ac_status c2 \<noteq> PENDING" by fastforce
  then show ?case using c1 same_decision_trans by auto
qed

text \<open>The first decision wins: every later one is told what was decided, and changes nothing.\<close>

lemma decide_twice:
  assumes inv: "inv s" and aware: "is_aware now" "is_aware now'"
    and first: "op_decide S now pid ok by n s = Inr ((RECORDED, Some c), s1)"
    and reqs: "list_all request_ok qs"
    and later: "op_decide S now' pid ok' by' n' (serve_all S qs s1) = Inr ((out, c'), s2)"
  shows "out = ALREADY_DECIDED \<and> (\<exists>d. c' = Some d \<and> same_decision c d) \<and> cases_of s2 = cases_of (serve_all S qs s1)"
proof -
  from decide_spec [OF inv aware(1) first] have inv1: "inv s1"
    and c: "cases_of s1 pid = Some c" "ac_status c \<noteq> PENDING"
    by (auto simp: spec_decide_def split: option.splits if_splits)
  obtain d where d: "cases_of (serve_all S qs s1) pid = Some d" "same_decision c d"
    "ac_status d \<noteq> PENDING" using serve_all_keeps_decision [OF inv1 reqs c] by auto
  have "inv (serve_all S qs t)" if "inv t" for t
    using reqs that by (induction qs arbitrary: t) (simp_all add: serve_inv)
  from decide_spec [OF this [OF inv1] aware(2) later] d show ?thesis
    by (auto simp: spec_decide_def)
qed

text \<open>A decision is read back, and no other case is touched.\<close>

lemma decide_get:
  assumes "inv s" "is_aware now" "op_get S pid s = Some c" "ac_status c = PENDING"
    and "op_decide S now pid ok by n s = Inr (r, s')"
  shows "r = (RECORDED, Some (decided now ok by n c))"
    and "op_get S pid' s' = (if pid' = pid then Some (decided now ok by n c) else op_get S pid' s)"
  using decide_spec [OF assms(1,2,5)] assms get_spec [OF assms(1)] get_spec [of s']
  by (auto simp: spec_decide_def)

end

section \<open>Both stores keep it\<close>

definition mem_inv :: "mem_store \<Rightarrow> bool" where
  "mem_inv s \<longleftrightarrow> dict_ok s \<and> (\<forall>(k, c) \<in> set s. ac_proposal_id c = k)"

definition db_inv :: "dialect \<Rightarrow> case_table \<Rightarrow> bool" where
  "db_inv d tbl \<longleftrightarrow> table_ok d tbl \<and> (\<forall>r \<in> set tbl. row_fits d r)"

definition mem_cases :: "mem_store \<Rightarrow> case_map" where
  "mem_cases s = dict_get s"

definition db_cases :: "case_table \<Rightarrow> case_map" where
  "db_cases tbl = mem_cases (abs_table tbl)"

definition any_case :: "approval_case \<Rightarrow> bool" where
  "any_case c = True"

definition any_name :: "string \<Rightarrow> bool" where
  "any_name n = True"

definition name_fits :: "dialect \<Rightarrow> string \<Rightarrow> bool" where
  "name_fits d n \<longleftrightarrow> d = SQLite \<or> py_len n \<le> 256"

definition case_fits :: "dialect \<Rightarrow> approval_case \<Rightarrow> bool" where
  "case_fits d c \<longleftrightarrow> row_fits d (insert_row d c)"

lemma mem_inv_set:
  assumes "mem_inv s" "ac_proposal_id c = k"
  shows "mem_inv (dict_set s k c)"
proof -
  have "set (dict_set s k c) \<subseteq> insert (k, c) (set s)"
    by (induction s) (auto split: if_splits)
  with assms show ?thesis by (auto simp: mem_inv_def dict_ok_set)
qed

lemma mem_list_spec:
  assumes "mem_inv s"
  shows "set (mem_list_by_status st s) = {c. \<exists>pid. mem_cases s pid = Some c \<and> ac_status c = st}"
    and "sorted (map ac_created_at (mem_list_by_status st s))"
  using assms by (force simp: mem_list_by_status_def mem_cases_def mem_inv_def dict_ok_def
      dict_values_def dict_keys_def map_of_eq_Some_iff image_iff)+

lemma mem_key: "mem_inv s \<Longrightarrow> mem_cases s pid = Some c \<Longrightarrow> ac_proposal_id c = pid"
  by (auto simp: mem_inv_def mem_cases_def dest: map_of_SomeD)

lemma mem_open_spec:
  "mem_inv s \<Longrightarrow> mem_open c s = (b, s') \<Longrightarrow>
   mem_inv s' \<and> b = (mem_cases s (ac_proposal_id c) = None) \<and>
   mem_cases s' = (if b then (mem_cases s)(ac_proposal_id c \<mapsto> c) else mem_cases s)"
  by (auto simp: mem_open_def mem_cases_def update_conv' mem_inv_set split: if_splits)

lemma mem_decide_spec:
  assumes "mem_inv s" "mem_decide now pid ok by n s = (r, s')"
  shows "mem_inv s' \<and> (r, mem_cases s') = spec_decide now pid ok by n (mem_cases s)"
  using assms mem_key [OF assms(1), of pid]
  by (auto simp: mem_decide_def spec_decide_def mem_cases_def update_conv' mem_inv_set Let_def
      split: option.splits if_splits)

lemma mem_record_spec:
  assumes "mem_inv s" "mem_record_execution now pid ok res s = (r, s')"
  shows "mem_inv s' \<and> (r, mem_cases s') = spec_record now pid ok res (mem_cases s)"
  using assms mem_key [OF assms(1), of pid]
  by (auto simp: mem_record_execution_def spec_record_def mem_cases_def update_conv' mem_inv_set
      Let_def split: option.splits)

interpretation mem: case_store_spec InMemoryCaseStore mem_inv mem_cases any_case any_name
proof (unfold_locales, goal_cases)
  case (1 s pid c)
  then show ?case by (rule mem_key)
next
  case (2 s c b s')
  then show ?case by (simp add: InMemoryCaseStore_def mem_open_spec)
next
  case (6 s now pid ok who n r s')
  then show ?case by (simp add: InMemoryCaseStore_def mem_decide_spec)
next
  case (8 s now pid ok res oc s')
  then show ?case by (simp add: InMemoryCaseStore_def mem_record_spec)
qed (simp_all add: InMemoryCaseStore_def mem_get_def mem_cases_def mem_list_spec [unfolded mem_cases_def])

lemma mem_inv_abs_table: "table_ok d tbl \<Longrightarrow> mem_inv (abs_table tbl)"
  by (auto simp: mem_inv_def table_ok_def dict_ok_def dict_keys_def abs_table_def row_to_case_def comp_def)

lemma update_rows_fits:
  "update_rows d P f tbl = Inr (row, tbl') \<Longrightarrow> \<forall>r \<in> set tbl. row_fits d r \<Longrightarrow>
   \<forall>r \<in> set tbl'. row_fits d r"
  by (auto simp: update_rows_def split: if_splits)

lemma db_open_spec:
  assumes "db_inv d tbl" "fresh_case c" "db_open d c tbl = Inr (b, tbl')"
  shows "db_inv d tbl' \<and> b = (db_cases tbl (ac_proposal_id c) = None) \<and>
    db_cases tbl' = (if b then (db_cases tbl)(ac_proposal_id c \<mapsto> c) else db_cases tbl)"
proof -
  have t: "table_ok d tbl" using assms(1) by (simp add: db_inv_def)
  have "\<forall>r \<in> set tbl'. row_fits d r"
    using assms(1,3) by (auto simp: db_open_def db_inv_def Let_def split: if_splits)
  with db_open_refines [OF assms(3,2) t] show ?thesis
    using mem_open_spec [OF mem_inv_abs_table [OF t], of c b "abs_table tbl'"]
    by (auto simp: db_inv_def db_cases_def)
qed

lemma db_decide_spec:
  assumes "db_inv d tbl" "is_aware now" "db_decide d now pid ok by n tbl = Inr (r, tbl')"
  shows "db_inv d tbl' \<and> (r, db_cases tbl') = spec_decide now pid ok by n (db_cases tbl)"
proof -
  have t: "table_ok d tbl" using assms(1) by (simp add: db_inv_def)
  have "\<forall>r \<in> set tbl'. row_fits d r"
    using assms(1,3) update_rows_fits
    by (auto simp: db_decide_def db_inv_def bind_result_Inr_iff split: option.splits)
  with db_decide_refines [OF assms(3) t assms(2)] show ?thesis
    using mem_decide_spec [OF mem_inv_abs_table [OF t], of now pid ok "by" n r "abs_table tbl'"]
    by (auto simp: db_inv_def db_cases_def)
qed

lemma db_record_spec:
  assumes "db_inv d tbl" "is_aware now" "db_record_execution d now pid ok res tbl = Inr (r, tbl')"
  shows "db_inv d tbl' \<and> (r, db_cases tbl') = spec_record now pid ok res (db_cases tbl)"
proof -
  have t: "table_ok d tbl" using assms(1) by (simp add: db_inv_def)
  have "\<forall>r \<in> set tbl'. row_fits d r"
    using assms(1,3) update_rows_fits
    by (auto simp: db_record_execution_def db_inv_def bind_result_Inr_iff)
  with db_record_refines [OF assms(3) t assms(2)] show ?thesis
    using mem_record_spec [OF mem_inv_abs_table [OF t], of now pid ok res r "abs_table tbl'"]
    by (auto simp: db_inv_def db_cases_def)
qed

lemma status_width: "st \<in> set STATUSES \<Longrightarrow> py_len st \<le> 16"
  by (auto simp: STATUSES_def status_defs py_len_def)

lemma STATUSES_set [simp]:
  "PENDING \<in> set STATUSES" "APPROVED \<in> set STATUSES" "REJECTED \<in> set STATUSES"
  "EXECUTED \<in> set STATUSES" "FAILED \<in> set STATUSES"
  by (simp_all add: STATUSES_def)

lemma update_rows_total:
  "\<forall>r \<in> set tbl. row_fits d r \<Longrightarrow> (\<And>r. row_fits d r \<Longrightarrow> row_fits d (f r)) \<Longrightarrow>
   \<exists>q. update_rows d P f tbl = Inr q"
  by (auto simp: update_rows_def)

lemma db_decide_total:
  assumes "db_inv d tbl" "name_fits d by"
  shows "\<not> isl (db_decide d now pid ok by n tbl)"
proof -
  have "\<exists>q. update_rows d (\<lambda>r. row_proposal_id r = pid \<and> row_status r = PENDING)
          (\<lambda>r. r\<lparr>row_status := (if ok then APPROVED else REJECTED),
                 row_decided_by := by, row_note := n,
                 row_decided_at := Some (store_time d now)\<rparr>) tbl = Inr q"
    using assms by (intro update_rows_total) (auto simp: db_inv_def row_fits_def name_fits_def status_width)
  then show ?thesis by (auto simp: db_decide_def)
qed

lemma db_record_total:
  assumes "db_inv d tbl"
  shows "\<not> isl (db_record_execution d now pid ok res tbl)"
proof -
  have "\<exists>q. update_rows d (\<lambda>r. row_proposal_id r = pid)
          (\<lambda>r. r\<lparr>row_status := (if ok then EXECUTED else FAILED), row_result := Some res,
                 row_executed_at := Some (store_time d now)\<rparr>) tbl = Inr q"
    using assms by (intro update_rows_total) (auto simp: db_inv_def row_fits_def status_width)
  then show ?thesis by (auto simp: db_record_execution_def)
qed

interpretation db: case_store_spec "DatabaseCaseStore d" "db_inv d" db_cases "case_fits d" "name_fits d"
  for d
proof (unfold_locales, goal_cases)
  case (1 s pid c)
  then show ?case
    using mem_key [OF mem_inv_abs_table] by (auto simp: db_inv_def db_cases_def)
next
  case (2 s c b s')
  then show ?case by (simp add: DatabaseCaseStore_def db_open_spec)
next
  case (3 s c)
  then show ?case by (simp add: DatabaseCaseStore_def db_open_def case_fits_def Let_def)
next
  case (4 s pid)
  then show ?case
    by (simp add: DatabaseCaseStore_def db_get_refines db_cases_def mem_cases_def mem_get_def)
next
  case (5 s st)
  then have t: "table_ok d s" by (simp add: db_inv_def)
  then show ?case
    using mem_list_spec [OF mem_inv_abs_table [OF t]]
    by (simp add: DatabaseCaseStore_def db_list_refines [OF t] db_cases_def)
next
  case (6 s now pid ok who n r s')
  then show ?case by (simp add: DatabaseCaseStore_def db_decide_spec)
next
  case (7 s who now pid ok n)
  then show ?case by (simp add: DatabaseCaseStore_def db_decide_total)
next
  case (8 s now pid ok res oc s')
  then show ?case by (simp add: DatabaseCaseStore_def db_record_spec)
next
  case (9 s now pid ok res)
  then show ?case by (simp add: DatabaseCaseStore_def db_record_total)
qed

section \<open>The database store is the in-memory store\<close>

lemma db_get_cases: "db_get pid s = db_cases s pid"
  by (simp add: db_get_refines db_cases_def mem_cases_def mem_get_def)

definition request_fits :: "dialect \<Rightarrow> store_request \<Rightarrow> bool" where
  "request_fits d q \<longleftrightarrow>
     (case q of Open c \<Rightarrow> case_fits d c | Decide now pid ok who n \<Rightarrow> name_fits d who | Record now pid ok res \<Rightarrow> True)"

lemma serve_refines:
  assumes "db_inv d tbl" "request_ok q" "request_fits d q"
  shows "abs_table (serve (DatabaseCaseStore d) q tbl) = serve InMemoryCaseStore q (abs_table tbl)"
proof (cases q)
  case (Open c)
  have "\<not> isl (db_open d c tbl)"
    using db.open_total [OF assms(1), of c] assms(3) Open by (simp add: DatabaseCaseStore_def request_fits_def)
  then obtain b tbl' where r: "db_open d c tbl = Inr (b, tbl')" by (cases "db_open d c tbl") auto
  with db_open_refines [OF r] assms Open show ?thesis
    by (auto simp: DatabaseCaseStore_def InMemoryCaseStore_def db_inv_def split: prod.splits)
next
  case (Decide now pid ok who n)
  have "\<not> isl (db_decide d now pid ok who n tbl)"
    using db_decide_total assms Decide by (simp add: request_fits_def)
  then obtain x tbl' where r: "db_decide d now pid ok who n tbl = Inr (x, tbl')"
    by (cases "db_decide d now pid ok who n tbl") auto
  have "(x, abs_table tbl') = mem_decide now pid ok who n (abs_table tbl)"
    using db_decide_refines [OF r] assms Decide by (auto simp: db_inv_def)
  with r Decide show ?thesis
    by (auto simp: DatabaseCaseStore_def InMemoryCaseStore_def split: prod.splits)
next
  case (Record now pid ok res)
  have "\<not> isl (db_record_execution d now pid ok res tbl)" using db_record_total assms(1) by blast
  then obtain x tbl' where r: "db_record_execution d now pid ok res tbl = Inr (x, tbl')"
    by (cases "db_record_execution d now pid ok res tbl") auto
  have "(x, abs_table tbl') = mem_record_execution now pid ok res (abs_table tbl)"
    using db_record_refines [OF r] assms Record by (auto simp: db_inv_def)
  with r Record show ?thesis
    by (auto simp: DatabaseCaseStore_def InMemoryCaseStore_def split: prod.splits)
qed

lemma serve_all_refines:
  "db_inv d tbl \<Longrightarrow> list_all request_ok qs \<Longrightarrow> list_all (request_fits d) qs \<Longrightarrow>
   abs_table (serve_all (DatabaseCaseStore d) qs tbl) = serve_all InMemoryCaseStore qs (abs_table tbl)"
proof (induction qs arbitrary: tbl)
  case (Cons q qs)
  then show ?case using serve_refines [of d tbl q] db.serve_inv [of d tbl q] by simp
qed simp

text \<open>C8. Refinement: on any sequence of requests that fit the columns, the database store, read through its abstraction, holds the cases that the in-memory store holds.\<close>

theorem database_refines_memory:
  assumes "list_all request_ok qs" "list_all (request_fits d) qs"
  shows "abs_table (serve_all (DatabaseCaseStore d) qs []) = serve_all InMemoryCaseStore qs []"
  using serve_all_refines [of d "[]" qs] assms by (simp add: db_inv_def table_ok_def abs_table_def)

section \<open>A sample table\<close>

lemma demo_fresh: "fresh_case demo_case" "ac_status demo_case = PENDING" "ac_proposal_id demo_case = ''p1''"
  by (simp_all add: fresh_case_def demo_case_def ApprovalCase_def)

abbreviation demo_table :: case_table where
  "demo_table \<equiv> [insert_row SQLite demo_case]"

definition approved_table :: case_table where
  "approved_table = [(insert_row SQLite demo_case)\<lparr>row_status := APPROVED, row_decided_by := ''alice'',
     row_note := ''ok'', row_decided_at := Some (Naive 1)\<rparr>]"

definition executed_table :: case_table where
  "executed_table = [(insert_row SQLite demo_case)\<lparr>row_status := EXECUTED, row_decided_by := ''alice'',
     row_note := ''ok'', row_decided_at := Some (Naive 1), row_result := Some demo_result,
     row_executed_at := Some (Naive 2)\<rparr>]"

lemma demo_open: "db_open SQLite demo_case [] = Inr (True, demo_table)"
  by (simp add: db_open_def select_row_def row_fits_def)

lemma demo_decide:
  "db_decide SQLite (Aware 1) ''p1'' True ''alice'' ''ok'' demo_table = Inr ((RECORDED, Some demo_approved), approved_table)"
  by (simp add: db_decide_def update_rows_def approved_table_def demo_approved_def demo_case_def ApprovalCase_def
      insert_row_def row_fits_def row_to_case_def decided_def as_utc_def store_time_def)

lemma demo_late_decision:
  "db_decide SQLite (Aware 3) ''p1'' False ''bob'' [] approved_table =
   Inr ((ALREADY_DECIDED, Some demo_approved), approved_table)"
  by (simp add: db_decide_def update_rows_def approved_table_def demo_approved_def demo_case_def ApprovalCase_def
      insert_row_def row_to_case_def decided_def as_utc_def store_time_def select_row_def)

lemma demo_record:
  "db_record_execution SQLite (Aware 2) ''p1'' True demo_result approved_table =
   Inr (Some (executed (Aware 2) True demo_result demo_approved), executed_table)"
  by (simp add: db_record_execution_def update_rows_def approved_table_def executed_table_def demo_approved_def
      demo_case_def ApprovalCase_def insert_row_def row_fits_def row_to_case_def decided_def executed_def
      as_utc_def store_time_def)

lemma demo_inv: "db_inv SQLite demo_table"
  by (simp add: db_inv_def table_ok_def row_fits_def insert_row_def store_time_def)

lemma executed_inv: "db_inv SQLite executed_table"
  by (simp add: db_inv_def table_ok_def row_fits_def executed_table_def insert_row_def store_time_def)

lemma demo_get: "db_get ''p1'' demo_table = Some demo_case"
proof -
  have "row_proposal_id (insert_row SQLite demo_case) = ''p1''" by (simp add: insert_row_def demo_fresh)
  then show ?thesis by (simp add: db_get_def select_row_def row_to_case_insert demo_fresh)
qed

lemma executed_get:
  "db_get ''p1'' executed_table = Some (row_to_case (hd executed_table))"
  "ac_status (row_to_case (hd executed_table)) = EXECUTED"
  by (simp_all add: db_get_def select_row_def executed_table_def insert_row_def demo_fresh)

definition demo_requests :: "store_request list" where
  "demo_requests = [Open demo_case, Decide (Aware 1) ''p1'' True ''alice'' ''ok'',
     Record (Aware 2) ''p1'' True demo_result]"

theorem database_refines_memory_witness:
  "abs_table (serve_all (DatabaseCaseStore SQLite) demo_requests []) = serve_all InMemoryCaseStore demo_requests []"
  by (rule database_refines_memory)
    (simp_all add: demo_requests_def demo_fresh request_fits_def case_fits_def row_fits_def name_fits_def)



text \<open>The database store's listing by status holds exactly the stored cases with that status, oldest first.\<close>

theorem listing_is_exact_and_sorted:
  assumes "db_inv d tbl"
  shows "set (db_list_by_status st tbl) = {c. \<exists>pid. db_get pid tbl = Some c \<and> ac_status c = st} \<and>
    sorted (map ac_created_at (db_list_by_status st tbl))"
  using db.list_spec [OF assms, of st]
  by (simp add: DatabaseCaseStore_def db_get_refines db_cases_def mem_cases_def mem_get_def)

theorem listing_is_exact_and_sorted_witness:
  "set (db_list_by_status PENDING demo_table) = {c. \<exists>pid. db_get pid demo_table = Some c \<and> ac_status c = PENDING}"
  using listing_is_exact_and_sorted [OF demo_inv] by blast

text \<open>The database store's \<^verbatim>\<open>record_execution\<close> has no guard on the status: it turns a REJECTED case, a terminal state, into an EXECUTED one.\<close>

theorem record_execution_leaves_terminal_state:
  "\<exists>tbl c tbl'. db_get ''p1'' tbl = Some c \<and> ac_status c \<in> set TERMINAL \<and>
     db_record_execution SQLite (Aware 2) ''p1'' True demo_result tbl =
       Inr (Some (executed (Aware 2) True demo_result c), tbl') \<and>
     (\<exists>c'. db_get ''p1'' tbl' = Some c' \<and> ac_status c' = EXECUTED)"
proof -
  let ?c = "decided (Aware 1) False ''alice'' [] demo_case"
  let ?tbl = "[(insert_row SQLite demo_case)\<lparr>row_status := REJECTED, row_decided_by := ''alice'',
     row_decided_at := Some (Naive 1)\<rparr>]"
  let ?tbl' = "[(hd ?tbl)\<lparr>row_status := EXECUTED, row_result := Some demo_result, row_executed_at := Some (Naive 2)\<rparr>]"
  have "db_get ''p1'' ?tbl = Some ?c"
    by (simp add: db_get_def select_row_def demo_case_def ApprovalCase_def insert_row_def row_to_case_def
        decided_def as_utc_def store_time_def)
  moreover have "ac_status ?c \<in> set TERMINAL" by (simp add: TERMINAL_def)
  moreover have "db_record_execution SQLite (Aware 2) ''p1'' True demo_result ?tbl =
       Inr (Some (executed (Aware 2) True demo_result ?c), ?tbl')"
    by (simp add: db_record_execution_def update_rows_def demo_case_def ApprovalCase_def insert_row_def
        row_fits_def row_to_case_def decided_def executed_def as_utc_def store_time_def)
  moreover have "\<exists>c'. db_get ''p1'' ?tbl' = Some c' \<and> ac_status c' = EXECUTED"
    by (simp add: db_get_def select_row_def demo_case_def ApprovalCase_def insert_row_def)
  ultimately show ?thesis by blast
qed

end
