(* ===== verification/Serving.thy ===== *)
theory Serving
  imports Proposals Case_Store_Spec
begin

text \<open>
  The approval endpoints of \<^verbatim>\<open>app/fast_api_app.py\<close>. A handler maps the state of the process to
  its response (\<open>Inl\<close> is the exception it ends with) and the state it leaves. ADK's runner is a
  parameter: one turn reads and changes the world \<open>'w\<close> behind the agents and yields its events, or
  raises. Drawn UUIDs and clock readings are sequences the state holds a position in.
\<close>

section \<open>State and collaborators\<close>

type_synonym 'w runner = "string \<Rightarrow> string \<Rightarrow> string \<Rightarrow> 'w \<Rightarrow> event list result \<times> 'w"

record ('s, 'w) deployment =
  dep_store :: "'s case_store"
  dep_runner :: "'w runner"
  dep_uuid :: "nat \<Rightarrow> string"
  dep_clock :: "nat \<Rightarrow> datetime"

record ('s, 'w) app_state =
  st_store :: 's
  st_world :: 'w
  st_draws :: nat
  st_ticks :: nat

section \<open>One turn\<close>

record TurnResult =
  turn_trace :: "string list"
  turn_final_text :: "string option"
  turn_texts :: "string list"

definition new_turn :: TurnResult where
  "new_turn = \<lparr>turn_trace = [], turn_final_text = None, turn_texts = []\<rparr>"

text \<open>The body of the loop over the events of a turn.\<close>

definition collect_event :: "TurnResult \<Rightarrow> event \<Rightarrow> TurnResult" where
  "collect_event r e =
     (let r1 = r\<lparr>turn_trace := turn_trace r @ [summarise e], turn_texts := turn_texts r @ reply_texts e\<rparr>;
          body = parts_text (content_parts e)
      in if ev_final e \<and> body \<noteq> [] then r1\<lparr>turn_final_text := Some body\<rparr> else r1)"

definition run_turn ::
  "('s, 'w) deployment \<Rightarrow> string \<Rightarrow> string \<Rightarrow> string \<Rightarrow> ('s, 'w) app_state \<Rightarrow>
   TurnResult result \<times> ('s, 'w) app_state" where
  "run_turn dep user_id session_id txt st =
     (case dep_runner dep user_id session_id txt (st_world st) of
        (r, w) \<Rightarrow> (map_sum id (foldl collect_event new_turn) r, st\<lparr>st_world := w\<rparr>))"

section \<open>Handlers\<close>

text \<open>The loop that opens a case for each proposal found.\<close>

fun open_cases ::
  "('s, 'w) deployment \<Rightarrow> string \<Rightarrow> json_dict list \<Rightarrow> ('s, 'w) app_state \<Rightarrow>
   approval_case list result \<times> ('s, 'w) app_state" where
  "open_cases dep session_id [] st = (Inr [], st)"
| "open_cases dep session_id (found # rest) st =
     (let st1 = st\<lparr>st_draws := Suc (st_draws st), st_ticks := Suc (st_ticks st)\<rparr>
      in case case_from_proposal (dep_clock dep (st_ticks st)) (dep_uuid dep (st_draws st))
                found session_id session_id [] of
           Inl e \<Rightarrow> (Inl e, st1)
         | Inr c \<Rightarrow>
             (case op_open (dep_store dep) c (st_store st1) of
                Inl e \<Rightarrow> (Inl e, st1)
              | Inr (fresh, s) \<Rightarrow>
                  (case open_cases dep session_id rest (st1\<lparr>st_store := s\<rparr>) of
                     (Inl e, st2) \<Rightarrow> (Inl e, st2)
                   | (Inr opened, st2) \<Rightarrow> (Inr (if fresh then c # opened else opened), st2))))"

definition turn_final :: "TurnResult \<Rightarrow> json" where
  "turn_final turn = (case turn_final_text turn of None \<Rightarrow> JNull | Some s \<Rightarrow> JStr s)"

definition turn_trace_json :: "TurnResult \<Rightarrow> json" where
  "turn_trace_json turn = JArr (map JStr (turn_trace turn))"

text \<open>\<open>req.session_id or f"case-{uuid.uuid4().hex[:8]}"\<close>.\<close>

definition run_session ::
  "('s, 'w) deployment \<Rightarrow> string option \<Rightarrow> ('s, 'w) app_state \<Rightarrow> string \<times> ('s, 'w) app_state" where
  "run_session dep requested st =
     (case requested of
        Some s \<Rightarrow>
          if s \<noteq> [] then (s, st)
          else (''case-'' @ take 8 (dep_uuid dep (st_draws st)), st\<lparr>st_draws := Suc (st_draws st)\<rparr>)
      | None \<Rightarrow> (''case-'' @ take 8 (dep_uuid dep (st_draws st)), st\<lparr>st_draws := Suc (st_draws st)\<rparr>))"

record CaseRun =
  run_text :: string
  run_session_id :: "string option"
  run_user_id :: string

definition cases_run ::
  "('s, 'w) deployment \<Rightarrow> CaseRun \<Rightarrow> ('s, 'w) app_state \<Rightarrow> json result \<times> ('s, 'w) app_state" where
  "cases_run dep req st =
     (case run_session dep (run_session_id req) st of (session_id, st1) \<Rightarrow>
       (case run_turn dep (run_user_id req) session_id (run_text req) st1 of
          (Inl e, st2) \<Rightarrow> (Inl e, st2)
        | (Inr turn, st2) \<Rightarrow>
            (case open_cases dep session_id (find_proposals (turn_texts turn)) st2 of
               (Inl e, st3) \<Rightarrow> (Inl e, st3)
             | (Inr opened, st3) \<Rightarrow>
                 (Inr (JObj
                    [(''status'', JStr (if opened \<noteq> [] then ''awaiting_approval'' else ''completed'')),
                     (''session_id'', JStr session_id),
                     (''user_id'', JStr (run_user_id req)),
                     (''final_text'', turn_final turn),
                     (''pending'', JArr (map public opened)),
                     (''trace'', turn_trace_json turn)]), st3))))"

definition cases_list ::
  "('s, 'w) deployment \<Rightarrow> string \<Rightarrow> ('s, 'w) app_state \<Rightarrow> json result \<times> ('s, 'w) app_state" where
  "cases_list dep st_name st =
     (let items = map public (op_list_by_status (dep_store dep) st_name (st_store st))
      in (Inr (JObj [(''count'', JInt (int (length items))), (''cases'', JArr items)]), st))"

definition unknown_proposal :: py_error where
  "unknown_proposal = HTTPException 404 ''unknown proposal_id''"

definition case_detail ::
  "('s, 'w) deployment \<Rightarrow> string \<Rightarrow> ('s, 'w) app_state \<Rightarrow> json result \<times> ('s, 'w) app_state" where
  "case_detail dep proposal_id st =
     (case op_get (dep_store dep) proposal_id (st_store st) of
        None \<Rightarrow> (Inl unknown_proposal, st)
      | Some c \<Rightarrow> (Inr (public c), st))"

record CaseDecision =
  dec_approved :: bool
  dec_note :: string
  dec_decided_by :: string

definition case_response :: "string \<Rightarrow> approval_case \<Rightarrow> json" where
  "case_response verdict c = JObj [(''status'', JStr verdict), (''case'', public c)]"

definition turn_response :: "string \<Rightarrow> approval_case \<Rightarrow> TurnResult \<Rightarrow> json" where
  "turn_response verdict c turn =
     JObj [(''status'', JStr verdict), (''case'', public c),
           (''final_text'', turn_final turn), (''trace'', turn_trace_json turn)]"

text \<open>The second half of \<open>case_decide\<close>: the execution turn of an approved case.\<close>

definition execute_case ::
  "('s, 'w) deployment \<Rightarrow> string \<Rightarrow> string \<Rightarrow> approval_case \<Rightarrow> ('s, 'w) app_state \<Rightarrow>
   json result \<times> ('s, 'w) app_state" where
  "execute_case dep user_id proposal_id c st =
     (case run_turn dep user_id (ac_session_id c) (execution_instruction c) st of
        (Inl e, st1) \<Rightarrow> (Inl e, st1)
      | (Inr turn, st1) \<Rightarrow>
          (case find_execution (turn_texts turn) (ac_proposal c) of
             None \<Rightarrow>
               (Inr (turn_response ''approved_not_confirmed''
                  (case op_get (dep_store dep) proposal_id (st_store st1) of None \<Rightarrow> c | Some c' \<Rightarrow> c')
                  turn), st1)
           | Some performed \<Rightarrow>
               (let st2 = st1\<lparr>st_ticks := Suc (st_ticks st1)\<rparr>
                in case op_record_execution (dep_store dep) (dep_clock dep (st_ticks st1)) proposal_id True
                          performed (st_store st1) of
                     Inl e \<Rightarrow> (Inl e, st2)
                   | Inr (updated, s) \<Rightarrow>
                       (Inr (turn_response ''executed'' (case updated of None \<Rightarrow> c | Some c' \<Rightarrow> c') turn),
                        st2\<lparr>st_store := s\<rparr>))))"

definition case_decide ::
  "('s, 'w) deployment \<Rightarrow> string \<Rightarrow> CaseDecision \<Rightarrow> string \<Rightarrow> ('s, 'w) app_state \<Rightarrow>
   json result \<times> ('s, 'w) app_state" where
  "case_decide dep proposal_id decision user_id st =
     (let st1 = st\<lparr>st_ticks := Suc (st_ticks st)\<rparr>
      in case op_decide (dep_store dep) (dep_clock dep (st_ticks st)) proposal_id (dec_approved decision)
                (dec_decided_by decision) (dec_note decision) (st_store st) of
           Inl e \<Rightarrow> (Inl e, st1)
         | Inr ((outcome, found), s) \<Rightarrow>
             (let st2 = st1\<lparr>st_store := s\<rparr>
              in case found of
                   None \<Rightarrow> (Inl unknown_proposal, st2)
                 | Some c \<Rightarrow>
                     if outcome = NOT_FOUND then (Inl unknown_proposal, st2)
                     else if ac_status c = REJECTED then (Inr (case_response ''rejected'' c), st2)
                     else if ac_status c \<in> {EXECUTED, FAILED}
                     then (Inr (case_response ''already_executed'' c), st2)
                     else execute_case dep user_id proposal_id c st2))"

section \<open>Turns\<close>

lemma foldl_collect_event:
  "turn_texts (foldl collect_event r evs) = turn_texts r @ concat (map reply_texts evs)"
  "turn_trace (foldl collect_event r evs) = turn_trace r @ map summarise evs"
  by (induction evs arbitrary: r) (simp_all add: collect_event_def Let_def)

lemma turn_texts_events [simp]:
  "turn_texts (foldl collect_event new_turn evs) = concat (map reply_texts evs)"
  "turn_trace (foldl collect_event new_turn evs) = map summarise evs"
  by (simp_all add: foldl_collect_event new_turn_def)

text \<open>The final text is the body of the last final event that has one.\<close>

definition final_body :: "event \<Rightarrow> string" where
  "final_body e = (if ev_final e then parts_text (content_parts e) else [])"

lemma turn_final_text_last:
  "turn_final_text (foldl collect_event r evs) =
   (case filter (\<lambda>b. b \<noteq> []) (map final_body evs) of
      [] \<Rightarrow> turn_final_text r
    | bs \<Rightarrow> Some (last bs))"
proof (induction evs arbitrary: r)
  case (Cons e evs)
  have "turn_final_text (collect_event r e) = (if final_body e \<noteq> [] then Some (final_body e) else turn_final_text r)"
    by (simp add: collect_event_def final_body_def Let_def)
  with Cons show ?case by (auto split: list.splits)
qed simp

section \<open>What the handlers do to the cases of any store\<close>

text \<open>The clock is UTC: every reading carries its zone.\<close>

definition clock_aware :: "('s, 'w) deployment \<Rightarrow> bool" where
  "clock_aware dep \<longleftrightarrow> (\<forall>n. is_aware (dep_clock dep n))"

lemma run_turn_store [simp]: "st_store (snd (run_turn dep u sid txt st)) = st_store st"
  by (simp add: run_turn_def split: prod.splits)

lemma run_turn_Pair:
  "run_turn dep u sid txt st = (r, st') \<Longrightarrow>
   st_store st' = st_store st \<and> st_ticks st' = st_ticks st \<and>
   r = map_sum id (foldl collect_event new_turn) (fst (dep_runner dep u sid txt (st_world st))) \<and>
   st_world st' = snd (dep_runner dep u sid txt (st_world st))"
  by (auto simp: run_turn_def split: prod.splits)

definition decision_request ::
  "('s, 'w) deployment \<Rightarrow> string \<Rightarrow> CaseDecision \<Rightarrow> ('s, 'w) app_state \<Rightarrow> store_request" where
  "decision_request dep pid decision st =
     Decide (dep_clock dep (st_ticks st)) pid (dec_approved decision)
       (dec_decided_by decision) (dec_note decision)"

definition decided_now ::
  "('s, 'w) deployment \<Rightarrow> CaseDecision \<Rightarrow> ('s, 'w) app_state \<Rightarrow> approval_case \<Rightarrow> approval_case" where
  "decided_now dep decision st c =
     decided (dep_clock dep (st_ticks st)) (dec_approved decision) (dec_decided_by decision)
       (dec_note decision) c"

text \<open>The result the execution turn of a case is confirmed by, if it is.\<close>

definition confirmation ::
  "('s, 'w) deployment \<Rightarrow> string \<Rightarrow> approval_case \<Rightarrow> 'w \<Rightarrow> json_dict option" where
  "confirmation dep user_id c w =
     (case fst (dep_runner dep user_id (ac_session_id c) (execution_instruction c) w) of
        Inl e \<Rightarrow> None
      | Inr evs \<Rightarrow> find_execution (concat (map reply_texts evs)) (ac_proposal c))"

text \<open>One proposal of the loop: it fails and nothing is stored, or a new case is given to the store.\<close>

lemma open_cases_ConsE:
  assumes run: "open_cases dep sid (obj # objs) st = (resp, st')" and "clock_aware dep"
  obtains (failed) e where "resp = Inl e" "st_store st' = st_store st" "st_world st' = st_world st"
  | (opened) c b s st1 r where "fresh_case c" "ac_status c = PENDING" "ac_session_id c = sid"
      "ac_proposal_id c = new_proposal_id (dep_uuid dep (st_draws st))"
      "dict_of_field (dict_get obj ''proposal'') = Inr (ac_proposal c)"
      "op_open (dep_store dep) c (st_store st) = Inr (b, s)"
      "st1 = st\<lparr>st_draws := Suc (st_draws st), st_ticks := Suc (st_ticks st), st_store := s\<rparr>"
      "open_cases dep sid objs st1 = (r, st')" "resp = map_sum id (\<lambda>cs. if b then c # cs else cs) r"
proof (cases "case_from_proposal (dep_clock dep (st_ticks st)) (dep_uuid dep (st_draws st)) obj sid sid []")
  case (Inl e)
  with run show thesis by (intro failed [of e]) auto
next
  case (Inr c)
  have "is_aware (dep_clock dep (st_ticks st))" using assms(2) by (simp add: clock_aware_def)
  note fresh = case_from_proposal_fresh [OF Inr this]
  show thesis
  proof (cases "op_open (dep_store dep) c (st_store st)")
    case (Inl e)
    with run Inr show thesis by (intro failed [of e]) auto
  next
    case o: (Inr bs)
    obtain b s where bs: "bs = (b, s)" by fastforce
    let ?st1 = "st\<lparr>st_draws := Suc (st_draws st), st_ticks := Suc (st_ticks st), st_store := s\<rparr>"
    obtain r st2 where rest: "open_cases dep sid objs ?st1 = (r, st2)" by fastforce
    have r: "st2 = st'" "resp = map_sum id (\<lambda>cs. if b then c # cs else cs) r"
      using run Inr o bs rest by (cases r; auto)+
    have "dict_of_field (dict_get obj ''proposal'') = Inr (ac_proposal c)"
      using Inr by (auto simp: case_from_proposal_def bind_result_Inr_iff ApprovalCase_def)
    then show thesis
      using opened [of c b s ?st1 r] fresh o bs rest r by (simp add: fresh_case_def new_proposal_id_def)
  qed
qed

context case_store_spec
begin

lemma op_decide_result:
  assumes "inv s" "is_aware now" "admits_name by"
  shows "\<exists>s'. op_decide S now pid ok by n s = Inr (fst (spec_decide now pid ok by n (cases_of s)), s') \<and>
    inv s' \<and> cases_of s' = snd (spec_decide now pid ok by n (cases_of s))"
proof (cases "op_decide S now pid ok by n s")
  case (Inl e)
  with decide_total [OF assms(1,3), of now pid ok n] show ?thesis by simp
next
  case (Inr rs)
  obtain r s' where rs: "rs = (r, s')" by fastforce
  from decide_spec [OF assms(1,2)] Inr rs
  have "inv s'" "(r, cases_of s') = spec_decide now pid ok by n (cases_of s)" by blast+
  then show ?thesis using Inr rs by (metis fst_conv snd_conv)
qed

lemma op_record_result:
  assumes "inv s" "is_aware now"
  shows "\<exists>s'. op_record_execution S now pid ok res s = Inr (fst (spec_record now pid ok res (cases_of s)), s') \<and>
    inv s' \<and> cases_of s' = snd (spec_record now pid ok res (cases_of s))"
proof (cases "op_record_execution S now pid ok res s")
  case (Inl e)
  with record_total [OF assms(1), of now pid ok res] show ?thesis by simp
next
  case (Inr rs)
  obtain r s' where rs: "rs = (r, s')" by fastforce
  from record_spec [OF assms(1,2)] Inr rs
  have "inv s'" "(r, cases_of s') = spec_record now pid ok res (cases_of s)" by blast+
  then show ?thesis using Inr rs by (metis fst_conv snd_conv)
qed

text \<open>The execution turn changes the one case, and only when the turn confirms it.\<close>

lemma execute_case_effect:
  assumes "dep_store dep = S" "clock_aware dep" "inv (st_store st)"
    and "cases_of (st_store st) pid = Some c"
    and run: "execute_case dep user pid c st = (resp, st')"
  shows "inv (st_store st') \<and>
    (case confirmation dep user c (st_world st) of
       None \<Rightarrow> cases_of (st_store st') = cases_of (st_store st)
     | Some performed \<Rightarrow>
         cases_of (st_store st') =
           (cases_of (st_store st))(pid \<mapsto> executed (dep_clock dep (st_ticks st)) True performed c))"
proof -
  obtain tr st1 where t: "run_turn dep user (ac_session_id c) (execution_instruction c) st = (tr, st1)"
    by fastforce
  note p = run_turn_Pair [OF t]
  show ?thesis
  proof (cases "confirmation dep user c (st_world st)")
    case None
    then show ?thesis
      using run p t assms(3)
      by (auto simp: execute_case_def confirmation_def split: sum.splits option.splits)
  next
    case (Some performed)
    let ?now = "dep_clock dep (st_ticks st)"
    from Some obtain evs where
      evs: "fst (dep_runner dep user (ac_session_id c) (execution_instruction c) (st_world st)) = Inr evs"
      "find_execution (concat (map reply_texts evs)) (ac_proposal c) = Some performed"
      by (auto simp: confirmation_def split: sum.splits)
    have aware: "is_aware ?now" using assms(2) by (simp add: clock_aware_def)
    obtain s' where s': "op_record_execution S ?now pid True performed (st_store st)
        = Inr (fst (spec_record ?now pid True performed (cases_of (st_store st))), s')"
      "inv s'" "cases_of s' = snd (spec_record ?now pid True performed (cases_of (st_store st)))"
      using op_record_result [OF assms(3) aware] by blast
    have "st_store st' = s'"
      using run p t evs s'(1) assms(1)
      by (auto simp: execute_case_def Let_def split: option.splits)
    then show ?thesis using s' Some assms(4) by (simp add: spec_record_def)
  qed
qed

text \<open>What the decision endpoint goes on to do with the case the store hands back.\<close>

lemma case_decide_unknown:
  assumes "dep_store dep = S" "clock_aware dep" "inv (st_store st)" "admits_name (dec_decided_by decision)"
    and "cases_of (st_store st) pid = None"
    and run: "case_decide dep pid decision user st = (resp, st')"
  shows "resp = Inl unknown_proposal \<and> inv (st_store st') \<and>
    cases_of (st_store st') = cases_of (st_store st) \<and> st_world st' = st_world st"
proof -
  have "is_aware (dep_clock dep (st_ticks st))" using assms(2) by (simp add: clock_aware_def)
  from op_decide_result [OF assms(3) this assms(4), of pid "dec_approved decision" "dec_note decision"]
  show ?thesis using run assms(1,5) by (auto simp: case_decide_def spec_decide_def Let_def)
qed

lemma case_decide_known:
  assumes "dep_store dep = S" "clock_aware dep" "inv (st_store st)" "admits_name (dec_decided_by decision)"
    and "cases_of (st_store st) pid = Some c0"
    and "c = (if ac_status c0 = PENDING then decided_now dep decision st c0 else c0)"
  obtains st2 where "inv (st_store st2)" "st_world st2 = st_world st" "st_ticks st2 = Suc (st_ticks st)"
    "cases_of (st_store st2) = (cases_of (st_store st))(pid \<mapsto> c)"
    "case_decide dep pid decision user st =
       (if ac_status c = REJECTED then (Inr (case_response ''rejected'' c), st2)
        else if ac_status c \<in> {EXECUTED, FAILED}
        then (Inr (case_response ''already_executed'' c), st2)
        else execute_case dep user pid c st2)"
proof -
  let ?now = "dep_clock dep (st_ticks st)"
  let ?r = "spec_decide ?now pid (dec_approved decision) (dec_decided_by decision) (dec_note decision)
      (cases_of (st_store st))"
  have aware: "is_aware ?now" using assms(2) by (simp add: clock_aware_def)
  obtain s' where s': "op_decide S ?now pid (dec_approved decision) (dec_decided_by decision)
      (dec_note decision) (st_store st) = Inr (fst ?r, s')" "inv s'" "cases_of s' = snd ?r"
    using op_decide_result [OF assms(3) aware assms(4)] by blast
  have r: "\<exists>out. fst ?r = (out, Some c) \<and> out \<noteq> NOT_FOUND \<and> snd ?r = (cases_of (st_store st))(pid \<mapsto> c)"
    using assms(5,6) by (auto simp: spec_decide_def decided_now_def fun_upd_idem)
  show thesis
    by (rule that [of "st\<lparr>st_ticks := Suc (st_ticks st), st_store := s'\<rparr>"])
      (use r s' assms(1) in \<open>auto simp: case_decide_def Let_def\<close>)
qed

text \<open>A rejection runs nothing and changes nothing but the case it rejects.\<close>

lemma case_decide_rejects:
  assumes "dep_store dep = S" "clock_aware dep" "inv (st_store st)" "admits_name (dec_decided_by decision)"
    and "cases_of (st_store st) pid = Some c0" "ac_status c0 = PENDING" "\<not> dec_approved decision"
    and run: "case_decide dep pid decision user st = (resp, st')"
  shows "resp = Inr (case_response ''rejected'' (decided_now dep decision st c0)) \<and>
    cases_of (st_store st') = (cases_of (st_store st))(pid \<mapsto> decided_now dep decision st c0) \<and>
    st_world st' = st_world st"
proof -
  obtain st2 where "st_world st2 = st_world st"
    "cases_of (st_store st2) = (cases_of (st_store st))(pid \<mapsto> decided_now dep decision st c0)"
    "case_decide dep pid decision user st = (Inr (case_response ''rejected'' (decided_now dep decision st c0)), st2)"
    using case_decide_known [OF assms(1-5) refl, of user] assms(6,7) by (auto simp: decided_now_def)
  with run show ?thesis by simp
qed

text \<open>A closed case is reported, not run again.\<close>

lemma case_decide_closed:
  assumes "dep_store dep = S" "clock_aware dep" "inv (st_store st)" "admits_name (dec_decided_by decision)"
    and "cases_of (st_store st) pid = Some c0" "ac_status c0 \<in> {REJECTED, EXECUTED, FAILED}"
    and run: "case_decide dep pid decision user st = (resp, st')"
  shows "resp = Inr (case_response (if ac_status c0 = REJECTED then ''rejected'' else ''already_executed'') c0) \<and>
    cases_of (st_store st') = cases_of (st_store st) \<and> st_world st' = st_world st"
proof -
  have np: "ac_status c0 \<noteq> PENDING" using assms(6) by auto
  have upd: "(cases_of (st_store st))(pid \<mapsto> c0) = cases_of (st_store st)"
    using assms(5) by (simp add: fun_upd_idem)
  have "c0 = (if ac_status c0 = PENDING then decided_now dep decision st c0 else c0)" using np by simp
  then obtain st2 where "st_world st2 = st_world st"
    "cases_of (st_store st2) = (cases_of (st_store st))(pid \<mapsto> c0)"
    "case_decide dep pid decision user st =
       (if ac_status c0 = REJECTED then (Inr (case_response ''rejected'' c0), st2)
        else if ac_status c0 \<in> {EXECUTED, FAILED}
        then (Inr (case_response ''already_executed'' c0), st2)
        else execute_case dep user pid c0 st2)"
    by (rule case_decide_known [OF assms(1-5), of c0 user])
  with run upd assms(6) show ?thesis by (auto split: if_splits)
qed

text \<open>
  An approval is on the row before the turn runs, and stays there whatever the turn does; the case
  is closed when, and only when, the turn confirms the approved content.
\<close>

lemma case_decide_approves:
  assumes "dep_store dep = S" "clock_aware dep" "inv (st_store st)" "admits_name (dec_decided_by decision)"
    and "cases_of (st_store st) pid = Some c0"
    and "ac_status c0 = PENDING \<and> dec_approved decision \<and> c = decided_now dep decision st c0
         \<or> ac_status c0 = APPROVED \<and> c = c0"
    and run: "case_decide dep pid decision user st = (resp, st')"
  shows "inv (st_store st') \<and>
    cases_of (st_store st') = (cases_of (st_store st))(pid \<mapsto>
      (case confirmation dep user c (st_world st) of
         None \<Rightarrow> c
       | Some performed \<Rightarrow> executed (dep_clock dep (Suc (st_ticks st))) True performed c))"
proof -
  have c: "c = (if ac_status c0 = PENDING then decided_now dep decision st c0 else c0)"
    "ac_status c = APPROVED" using assms(6) by (auto simp: decided_now_def)
  obtain st2 where st2: "inv (st_store st2)" "st_world st2 = st_world st" "st_ticks st2 = Suc (st_ticks st)"
    "cases_of (st_store st2) = (cases_of (st_store st))(pid \<mapsto> c)"
    "case_decide dep pid decision user st = execute_case dep user pid c st2"
    using case_decide_known [OF assms(1-5) c(1), of user] c(2) by auto
  have "cases_of (st_store st2) pid = Some c" by (simp add: st2(4))
  from execute_case_effect [OF assms(1,2) st2(1) this, of user resp st'] run st2
  show ?thesis by (simp split: option.splits)
qed

text \<open>The cases opened by a turn are stored, pending, and the others are untouched.\<close>

lemma open_cases_effect:
  assumes "dep_store dep = S" "clock_aware dep" "inv (st_store st)"
    and "open_cases dep sid objs st = (resp, st')"
  shows "inv (st_store st') \<and> st_world st' = st_world st \<and>
    (\<forall>pid c. cases_of (st_store st) pid = Some c \<longrightarrow> cases_of (st_store st') pid = Some c) \<and>
    (\<forall>opened. resp = Inr opened \<longrightarrow>
       (\<forall>c \<in> set opened. cases_of (st_store st) (ac_proposal_id c) = None \<and>
          cases_of (st_store st') (ac_proposal_id c) = Some c \<and> ac_status c = PENDING \<and>
          ac_session_id c = sid \<and> (\<exists>obj \<in> set objs. dict_of_field (dict_get obj ''proposal'') = Inr (ac_proposal c))))"
  using assms(3,4)
proof (induction objs arbitrary: st resp)
  case (Cons obj objs)
  from Cons.prems(2) assms(2) show ?case
  proof (cases rule: open_cases_ConsE)
    case (opened c b s st1 r)
    from open_spec [OF Cons.prems(1) opened(1) opened(6) [unfolded assms(1)]]
    have s: "inv s" "b = (cases_of (st_store st) (ac_proposal_id c) = None)"
      "cases_of s = (if b then (cases_of (st_store st))(ac_proposal_id c \<mapsto> c) else cases_of (st_store st))" by auto
    have old: "cases_of s pid = Some d" if "cases_of (st_store st) pid = Some d" for pid d using that s by auto
    then have absent: "cases_of (st_store st) pid = None" if "cases_of s pid = None" for pid
      using that by (cases "cases_of (st_store st) pid") auto
    have i: "inv (st_store st1)" "st_store st1 = s" "st_world st1 = st_world st" using s(1) opened(7) by simp_all
    note IH = Cons.IH [OF i(1) opened(8)]
    have new: "cases_of (st_store st) (ac_proposal_id d) = None \<and>
        cases_of (st_store st') (ac_proposal_id d) = Some d \<and> ac_status d = PENDING \<and> ac_session_id d = sid \<and>
        (\<exists>obj \<in> set (obj # objs). dict_of_field (dict_get obj ''proposal'') = Inr (ac_proposal d))"
      if "resp = Inr cs" "d \<in> set cs" for cs d
    proof -
      from that opened(9) obtain ds where ds: "r = Inr ds" "d \<in> set ds \<or> b \<and> d = c"
        by (cases r) (auto split: if_splits)
      from ds(2) show ?thesis
      proof
        assume "d \<in> set ds"
        with IH ds(1) i(2) absent show ?thesis by auto
      next
        assume "b \<and> d = c"
        with IH i(2) s(2,3) opened(2,3,5) show ?thesis by auto
      qed
    qed
    have "\<forall>pid d. cases_of (st_store st) pid = Some d \<longrightarrow> cases_of (st_store st') pid = Some d"
      using IH old i(2) by blast
    moreover have "inv (st_store st')" "st_world st' = st_world st" using IH i(3) by simp_all
    ultimately show ?thesis using new by (intro conjI) blast+
  qed (use Cons.prems in simp)
qed auto

end

end
