(* ===== verification/Case_Protocol.thy ===== *)
theory Case_Protocol
  imports Serving
begin

text \<open>
  Concurrent requests on one case store. \<open>case_decide\<close> awaits the store, then a whole agent turn,
  then the store again, and other requests, other pods and crashes come in between. The step
  relation cuts the handler at these points: each step is one store operation or one turn, the rest
  of a handler is kept as a thread. \<open>p_turns\<close> logs the proposals whose execution turn was run.
\<close>

section \<open>Steps\<close>

datatype thread =
    AwaitTurn approval_case
  | AwaitRecord approval_case json_dict

record 's protocol =
  p_store :: 's
  p_threads :: "nat \<Rightarrow> thread option"
  p_turns :: "string list"

text \<open>The case \<open>case_decide\<close> goes on to execute, if it does.\<close>

definition to_execute :: "decision_outcome \<times> approval_case option \<Rightarrow> approval_case option" where
  "to_execute r =
     (case r of (outcome, found) \<Rightarrow>
        (case found of
           None \<Rightarrow> None
         | Some c \<Rightarrow>
             if outcome = NOT_FOUND \<or> ac_status c = REJECTED \<or> ac_status c \<in> {EXECUTED, FAILED}
             then None else Some c))"

text \<open>What is left of the handler after its turn.\<close>

definition after_turn :: "approval_case \<Rightarrow> event list result \<Rightarrow> thread option" where
  "after_turn c r =
     (case r of
        Inl e \<Rightarrow> None
      | Inr evs \<Rightarrow> map_option (AwaitRecord c) (find_execution (concat (map reply_texts evs)) (ac_proposal c)))"

inductive protocol_step :: "'s case_store \<Rightarrow> 's protocol \<Rightarrow> 's protocol \<Rightarrow> bool" for S where
  step_open: "protocol_step S p (p\<lparr>p_store := s'\<rparr>)"
    if "op_open S c (p_store p) = Inr (b, s')" "fresh_case c" "ac_status c = PENDING"
| step_decide: "protocol_step S p (p\<lparr>p_store := s', p_threads := (p_threads p)(h := map_option AwaitTurn (to_execute r))\<rparr>)"
    if "op_decide S now pid ok by n (p_store p) = Inr (r, s')" "is_aware now" "p_threads p h = None"
| step_turn: "protocol_step S p (p\<lparr>p_threads := (p_threads p)(h := after_turn c r),
                                    p_turns := p_turns p @ [ac_proposal_id c]\<rparr>)"
    if "p_threads p h = Some (AwaitTurn c)"
| step_record: "protocol_step S p (p\<lparr>p_store := s', p_threads := (p_threads p)(h := None)\<rparr>)"
    if "p_threads p h = Some (AwaitRecord c performed)"
      "op_record_execution S now (ac_proposal_id c) True performed (p_store p) = Inr (oc, s')" "is_aware now"
| step_crash: "protocol_step S p (p\<lparr>p_threads := (p_threads p)(h := None)\<rparr>)"

inductive_cases protocol_stepE: "protocol_step S p p'"

definition start :: "'s \<Rightarrow> 's protocol" where
  "start s = \<lparr>p_store = s, p_threads = Map.empty, p_turns = []\<rparr>"

inductive reachable :: "'s case_store \<Rightarrow> 's \<Rightarrow> 's protocol \<Rightarrow> bool" for S s0 where
  reach_start: "reachable S s0 (start s0)"
| reach_step: "reachable S s0 p \<Longrightarrow> protocol_step S p p' \<Longrightarrow> reachable S s0 p'"

section \<open>The invariant\<close>

text \<open>What holds of a case: its fields follow from how far it has come.\<close>

definition case_ok :: "approval_case \<Rightarrow> bool" where
  "case_ok c \<longleftrightarrow>
     ac_status c \<in> {PENDING, APPROVED, REJECTED, EXECUTED} \<and>
     (ac_status c = PENDING \<longleftrightarrow> ac_decided_at c = None) \<and>
     (ac_status c = EXECUTED \<longleftrightarrow> ac_executed_at c \<noteq> None) \<and>
     (ac_result c \<noteq> None \<longleftrightarrow> ac_status c = EXECUTED) \<and>
     (\<forall>r. ac_result c = Some r \<longrightarrow> confirms (ac_proposal c) r)"

definition was_approved :: "approval_case \<Rightarrow> bool" where
  "was_approved c \<longleftrightarrow> ac_status c = APPROVED \<or> ac_status c = EXECUTED"

fun thread_case :: "thread \<Rightarrow> approval_case" where
  "thread_case (AwaitTurn c) = c"
| "thread_case (AwaitRecord c performed) = c"

definition thread_ok :: "case_map \<Rightarrow> thread \<Rightarrow> bool" where
  "thread_ok m t \<longleftrightarrow>
     (\<exists>c. m (ac_proposal_id (thread_case t)) = Some c \<and> same_decision (thread_case t) c \<and> was_approved c) \<and>
     (\<forall>c performed. t = AwaitRecord c performed \<longrightarrow> confirms (ac_proposal c) performed)"

definition protocol_inv :: "case_map \<Rightarrow> 's protocol \<Rightarrow> bool" where
  "protocol_inv m p \<longleftrightarrow>
     (\<forall>pid c. m pid = Some c \<longrightarrow> ac_proposal_id c = pid \<and> case_ok c) \<and>
     (\<forall>h t. p_threads p h = Some t \<longrightarrow> thread_ok m t) \<and>
     (\<forall>pid \<in> set (p_turns p). \<exists>c. m pid = Some c \<and> was_approved c)"

text \<open>How one step may change the cases.\<close>

definition grows :: "case_map \<Rightarrow> case_map \<Rightarrow> bool" where
  "grows m m' \<longleftrightarrow> (\<forall>pid c. m pid = Some c \<and> was_approved c \<longrightarrow>
     (\<exists>c'. m' pid = Some c' \<and> same_decision c c' \<and> was_approved c'))"

lemma grows_refl [simp, intro]: "grows m m"
  by (auto simp: grows_def)

lemma thread_ok_grows: "thread_ok m t \<Longrightarrow> grows m m' \<Longrightarrow> thread_ok m' t"
  by (fastforce simp: thread_ok_def grows_def dest: same_decision_trans)

lemma grows_open: "m (ac_proposal_id c) = None \<Longrightarrow> grows m (m(ac_proposal_id c \<mapsto> c))"
  by (auto simp: grows_def)

lemma grows_decide: "grows m (snd (spec_decide now pid ok by n m))"
  by (auto simp: grows_def spec_decide_def was_approved_def split: option.splits)

lemma grows_record: "grows m (snd (spec_record now pid True res m))"
  by (auto simp: grows_def spec_record_def was_approved_def split: option.splits)

lemma case_ok_decided: "case_ok c \<Longrightarrow> ac_status c = PENDING \<Longrightarrow> case_ok (decided now ok by n c)"
  by (auto simp: case_ok_def)

lemma case_ok_executed:
  "case_ok c \<Longrightarrow> was_approved c \<Longrightarrow> confirms (ac_proposal c) res \<Longrightarrow> case_ok (executed now True res c)"
  by (auto simp: case_ok_def was_approved_def)

lemma case_ok_fresh: "fresh_case c \<Longrightarrow> ac_status c = PENDING \<Longrightarrow> case_ok c"
  by (auto simp: case_ok_def fresh_case_def)

lemma protocol_inv_grows:
  assumes "protocol_inv m p" "grows m m'"
    and "\<forall>pid c. m' pid = Some c \<longrightarrow> ac_proposal_id c = pid \<and> case_ok c"
    and "\<forall>h t. p_threads p' h = Some t \<longrightarrow> p_threads p h = Some t \<or> thread_ok m' t"
    and "\<forall>pid \<in> set (p_turns p'). pid \<in> set (p_turns p) \<or> (\<exists>c. m' pid = Some c \<and> was_approved c)"
  shows "protocol_inv m' p'"
  unfolding protocol_inv_def
proof (intro conjI ballI allI impI)
  fix h t assume "p_threads p' h = Some t"
  with assms(4) have "p_threads p h = Some t \<or> thread_ok m' t" by blast
  then show "thread_ok m' t" using assms(1,2) thread_ok_grows unfolding protocol_inv_def by blast
next
  fix pid assume "pid \<in> set (p_turns p')"
  with assms(5) have "pid \<in> set (p_turns p) \<or> (\<exists>c. m' pid = Some c \<and> was_approved c)" by blast
  then show "\<exists>c. m' pid = Some c \<and> was_approved c"
    using assms(1,2) unfolding protocol_inv_def grows_def by blast
qed (use assms(3) in auto)

text \<open>A thread that starts belongs to a case that is approved.\<close>

lemma to_execute_approved:
  assumes "to_execute (fst (spec_decide now pid ok by n m)) = Some c"
    and inv: "\<And>pid c. m pid = Some c \<Longrightarrow> ac_proposal_id c = pid \<and> case_ok c"
  shows "snd (spec_decide now pid ok by n m) (ac_proposal_id c) = Some c \<and> was_approved c"
proof -
  obtain c0 where c0: "m pid = Some c0"
    using assms(1) by (cases "m pid") (auto simp: spec_decide_def to_execute_def)
  with inv have "ac_proposal_id c0 = pid" "case_ok c0" by blast+
  then show ?thesis
    using assms(1) c0
    by (auto simp: spec_decide_def to_execute_def was_approved_def case_ok_def split: if_splits)
qed

text \<open>A turn is recorded, once, or leaves the store as it is.\<close>

lemma execute_caseE:
  assumes "execute_case dep user (ac_proposal_id c) c st = (resp, st')"
  obtains (unrecorded) "st_store st' = st_store st"
  | (recorded) evs performed oc s' where "after_turn c (Inr evs) = Some (AwaitRecord c performed)"
      "op_record_execution (dep_store dep) (dep_clock dep (st_ticks st)) (ac_proposal_id c) True performed (st_store st) =
         Inr (oc, s')" "st_store st' = s'"
proof -
  obtain tr st1 where t: "run_turn dep user (ac_session_id c) (execution_instruction c) st = (tr, st1)" by fastforce
  note q = run_turn_Pair [OF t]
  let ?r = "fst (dep_runner dep user (ac_session_id c) (execution_instruction c) (st_world st))"
  let ?op = "\<lambda>performed. op_record_execution (dep_store dep) (dep_clock dep (st_ticks st)) (ac_proposal_id c) True
      performed (st_store st)"
  show thesis
  proof (cases "after_turn c ?r")
    case None
    then show thesis
      using unrecorded assms t q by (auto simp: execute_case_def after_turn_def split: sum.splits option.splits)
  next
    case (Some th)
    then obtain evs performed where e: "?r = Inr evs" "th = AwaitRecord c performed"
      "find_execution (concat (map reply_texts evs)) (ac_proposal c) = Some performed"
      by (auto simp: after_turn_def split: sum.splits)
    show thesis
    proof (cases "?op performed")
      case (Inl err)
      then show thesis using unrecorded assms t q e by (auto simp: execute_case_def Let_def)
    next
      case (Inr os)
      then obtain oc s' where "?op performed = Inr (oc, s')" by (cases os) auto
      then show thesis using recorded [of evs performed oc s'] assms t q e Some by (auto simp: execute_case_def Let_def)
    qed
  qed
qed

context case_store_spec
begin

text \<open>The two steps that change a case, and the one that turns a thread into the next.\<close>

lemma decide_keeps_inv:
  assumes "inv (p_store p)" "protocol_inv (cases_of (p_store p)) p" "is_aware now"
    and "op_decide S now pid ok who n (p_store p) = Inr (r, s')"
  shows "inv s' \<and> protocol_inv (cases_of s')
    (p\<lparr>p_store := s', p_threads := (p_threads p)(h := map_option AwaitTurn (to_execute r))\<rparr>)"
proof -
  from decide_spec [OF assms(1,3,4)]
  have s': "inv s'" "r = fst (spec_decide now pid ok who n (cases_of (p_store p)))"
    "cases_of s' = snd (spec_decide now pid ok who n (cases_of (p_store p)))" by (auto simp: prod_eq_iff)
  have good: "\<And>pid c. cases_of (p_store p) pid = Some c \<Longrightarrow> ac_proposal_id c = pid \<and> case_ok c"
    using assms(2) unfolding protocol_inv_def by blast
  have "thread_ok (cases_of s') (AwaitTurn c)" if "to_execute r = Some c" for c
    using to_execute_approved [of now pid ok who n "cases_of (p_store p)" c] good that s' by (auto simp: thread_ok_def)
  moreover have "ac_proposal_id c = q \<and> case_ok c" if "cases_of s' q = Some c" for q c
    using that good case_ok_decided s'(3)
    by (auto simp: spec_decide_def split: option.splits if_splits)
  ultimately show ?thesis
    using s'(1,3) grows_decide by (intro conjI protocol_inv_grows [OF assms(2)]) (auto split: if_splits)
qed

lemma turn_keeps_inv:
  assumes "protocol_inv m p" "p_threads p h = Some (AwaitTurn c)"
  shows "protocol_inv m (p\<lparr>p_threads := (p_threads p)(h := after_turn c r), p_turns := p_turns p @ [ac_proposal_id c]\<rparr>)"
proof -
  have t: "thread_ok m (AwaitTurn c)" using assms unfolding protocol_inv_def by blast
  then have "thread_ok m t" if "after_turn c r = Some t" for t
    using that by (auto simp: thread_ok_def after_turn_def split: sum.splits dest!: find_execution_SomeD)
  moreover have "\<exists>c'. m (ac_proposal_id c) = Some c' \<and> was_approved c'"
    using t by (auto simp: thread_ok_def)
  ultimately show ?thesis
    using assms(1) by (intro protocol_inv_grows [OF assms(1)]) (auto simp: protocol_inv_def split: if_splits)
qed

lemma record_keeps_inv:
  assumes "inv (p_store p)" "protocol_inv (cases_of (p_store p)) p" "is_aware now"
    and "p_threads p h = Some (AwaitRecord c performed)"
    and "op_record_execution S now (ac_proposal_id c) True performed (p_store p) = Inr (oc, s')"
  shows "inv s' \<and> protocol_inv (cases_of s') (p\<lparr>p_store := s', p_threads := (p_threads p)(h := None)\<rparr>)"
proof -
  from record_spec [OF assms(1,3,5)]
  have s': "inv s'" "cases_of s' = snd (spec_record now (ac_proposal_id c) True performed (cases_of (p_store p)))"
    by (auto simp: prod_eq_iff)
  have "thread_ok (cases_of (p_store p)) (AwaitRecord c performed)"
    using assms(2,4) unfolding protocol_inv_def by blast
  then obtain c' where c': "cases_of (p_store p) (ac_proposal_id c) = Some c'" "same_decision c c'"
    "was_approved c'" "confirms (ac_proposal c) performed" by (auto simp: thread_ok_def)
  have good: "\<And>pid c. cases_of (p_store p) pid = Some c \<Longrightarrow> ac_proposal_id c = pid \<and> case_ok c"
    using assms(2) unfolding protocol_inv_def by blast
  have "confirms (ac_proposal c') performed" using c' by (simp add: same_decision_def)
  with c' good have "case_ok (executed now True performed c')" by (blast intro: case_ok_executed)
  then have "ac_proposal_id d = q \<and> case_ok d" if "cases_of s' q = Some d" for q d
    using that good c'(1) s'(2) by (auto simp: spec_record_def split: if_splits)
  then show ?thesis
    using s' grows_record by (intro conjI protocol_inv_grows [OF assms(2)]) (auto split: if_splits)
qed

lemma step_inv:
  assumes "protocol_step S p p'" "inv (p_store p)" "protocol_inv (cases_of (p_store p)) p"
  shows "inv (p_store p') \<and> protocol_inv (cases_of (p_store p')) p'"
  using assms(1)
proof (cases rule: protocol_stepE [consumes 1, case_names step_open step_decide step_turn step_record step_crash])
  case (step_open c b s')
  from open_spec [OF assms(2) step_open(3,2)]
  have s': "inv s'" "cases_of s' = (if cases_of (p_store p) (ac_proposal_id c) = None
      then (cases_of (p_store p))(ac_proposal_id c \<mapsto> c) else cases_of (p_store p))" by auto
  have "protocol_inv (cases_of s') p'"
    using assms(3) s'(2) step_open(1) grows_open case_ok_fresh [OF step_open(3,4)]
    by (intro protocol_inv_grows [OF assms(3)]) (auto simp: protocol_inv_def)
  then show ?thesis using s' step_open(1) by simp
next
  case (step_decide now pid ok who n r s' h)
  with decide_keeps_inv [OF assms(2,3) step_decide(3,2)] show ?thesis by simp
next
  case (step_turn h c r)
  with turn_keeps_inv [OF assms(3) step_turn(2)] assms(2) show ?thesis by simp
next
  case (step_record h c performed now oc s')
  with record_keeps_inv [OF assms(2,3) step_record(4,2,3)] show ?thesis by simp
next
  case (step_crash h)
  have "protocol_inv (cases_of (p_store p)) p'"
    using step_crash assms(3)
    by (intro protocol_inv_grows [OF assms(3)]) (auto simp: protocol_inv_def split: if_splits)
  then show ?thesis using assms(2) step_crash by simp
qed

lemma reachable_inv:
  "reachable S s0 p \<Longrightarrow> inv s0 \<Longrightarrow> cases_of s0 = Map.empty \<Longrightarrow>
   inv (p_store p) \<and> protocol_inv (cases_of (p_store p)) p"
proof (induction rule: reachable.induct)
  case reach_start
  then show ?case by (simp add: start_def protocol_inv_def)
next
  case (reach_step p p')
  then show ?case using step_inv by blast
qed

text \<open>The decision endpoint, run without interruption, is a sequence of steps of the relation.\<close>

lemma execute_case_steps:
  assumes "dep_store dep = S" "clock_aware dep" "p_store p = st_store st"
    and "p_threads p h = Some (AwaitTurn c)"
    and run: "execute_case dep user (ac_proposal_id c) c st = (resp, st')"
  shows "rtranclp (protocol_step S) p
    (p\<lparr>p_store := st_store st', p_threads := (p_threads p)(h := None),
       p_turns := p_turns p @ [ac_proposal_id c]\<rparr>)"
proof -
  have turn: "protocol_step S p (p\<lparr>p_threads := (p_threads p)(h := after_turn c r),
      p_turns := p_turns p @ [ac_proposal_id c]\<rparr>)" for r
    by (rule step_turn [OF assms(4)])
  from run show ?thesis
  proof (cases rule: execute_caseE)
    case unrecorded
    then have "p\<lparr>p_store := st_store st', p_threads := (p_threads p)(h := None),
        p_turns := p_turns p @ [ac_proposal_id c]\<rparr>
      = p\<lparr>p_threads := (p_threads p)(h := after_turn c (Inl (StorageError []))),
        p_turns := p_turns p @ [ac_proposal_id c]\<rparr>"
      using assms(3) by (simp add: after_turn_def)
    then show ?thesis using turn by (metis r_into_rtranclp)
  next
    case (recorded evs performed oc s')
    let ?p1 = "p\<lparr>p_threads := (p_threads p)(h := after_turn c (Inr evs)), p_turns := p_turns p @ [ac_proposal_id c]\<rparr>"
    have "protocol_step S ?p1 (?p1\<lparr>p_store := s', p_threads := (p_threads ?p1)(h := None)\<rparr>)"
      using assms(1-3) recorded
      by (intro step_record [where performed = performed and now = "dep_clock dep (st_ticks st)" and c = c and oc = oc])
        (auto simp: clock_aware_def)
    moreover have "?p1\<lparr>p_store := s', p_threads := (p_threads ?p1)(h := None)\<rparr>
      = p\<lparr>p_store := st_store st', p_threads := (p_threads p)(h := None),
           p_turns := p_turns p @ [ac_proposal_id c]\<rparr>" using recorded(3) by simp
    ultimately show ?thesis using turn by (metis converse_rtranclp_into_rtranclp r_into_rtranclp)
  qed
qed

lemma case_decide_steps:
  assumes "dep_store dep = S" "clock_aware dep" "inv (st_store st)" "p_store p = st_store st"
    and "p_threads p h = None"
    and run: "case_decide dep pid decision user st = (resp, st')"
  shows "\<exists>turns. rtranclp (protocol_step S) p (p\<lparr>p_store := st_store st', p_turns := p_turns p @ turns\<rparr>)"
proof (cases "op_decide S (dep_clock dep (st_ticks st)) pid (dec_approved decision)
    (dec_decided_by decision) (dec_note decision) (st_store st)")
  case (Inl e)
  then have "p\<lparr>p_store := st_store st', p_turns := p_turns p @ []\<rparr> = p"
    using run assms(1,4) by (auto simp: case_decide_def Let_def)
  then show ?thesis by (metis rtranclp.rtrancl_refl)
next
  case (Inr rs)
  let ?now = "dep_clock dep (st_ticks st)"
  obtain outcome found s' where rs: "rs = ((outcome, found), s')" by (metis surj_pair)
  let ?p1 = "p\<lparr>p_store := s', p_threads := (p_threads p)(h := map_option AwaitTurn (to_execute (outcome, found)))\<rparr>"
  have aware: "is_aware ?now" using assms(2) by (simp add: clock_aware_def)
  from Inr rs assms(4) aware assms(5) have step: "protocol_step S p ?p1"
    by (intro step_decide [where now = ?now and pid = pid]) auto
  show ?thesis
  proof (cases "to_execute (outcome, found)")
    case None
    then have "st_store st' = s'"
      using run Inr rs assms(1) by (auto simp: case_decide_def to_execute_def Let_def split: option.splits if_splits)
    then have "p\<lparr>p_store := st_store st', p_turns := p_turns p @ []\<rparr> = ?p1"
      using None assms(5) by (simp add: fun_upd_idem)
    with step show ?thesis by (metis r_into_rtranclp)
  next
    case (Some c)
    let ?st2 = "st\<lparr>st_ticks := Suc (st_ticks st), st_store := s'\<rparr>"
    have key: "ac_proposal_id c = pid"
      using decide_spec [OF assms(3) aware Inr [unfolded rs]] Some key_spec [OF assms(3), of pid]
      by (auto simp: spec_decide_def to_execute_def split: option.splits if_splits)
    have "execute_case dep user (ac_proposal_id c) c ?st2 = (resp, st')"
      using run Inr rs assms(1) Some key
      by (auto simp: case_decide_def to_execute_def Let_def split: option.splits if_splits)
    from execute_case_steps [OF assms(1,2) _ _ this, of ?p1 h] Some
    have "rtranclp (protocol_step S) ?p1 (?p1\<lparr>p_store := st_store st',
        p_threads := (p_threads ?p1)(h := None), p_turns := p_turns ?p1 @ [ac_proposal_id c]\<rparr>)" by simp
    with step have "rtranclp (protocol_step S) p (?p1\<lparr>p_store := st_store st',
        p_threads := (p_threads ?p1)(h := None), p_turns := p_turns ?p1 @ [ac_proposal_id c]\<rparr>)"
      by (rule converse_rtranclp_into_rtranclp)
    moreover have "?p1\<lparr>p_store := st_store st', p_threads := (p_threads ?p1)(h := None),
        p_turns := p_turns ?p1 @ [ac_proposal_id c]\<rparr>
      = p\<lparr>p_store := st_store st', p_turns := p_turns p @ [ac_proposal_id c]\<rparr>"
      using assms(5) by (simp add: fun_upd_idem)
    ultimately show ?thesis by auto
  qed
qed

text \<open>A case that is not rejected can be closed from any state: a decision, a turn, a record.\<close>

lemma step_to_execution:
  assumes "inv (p_store p)" "cases_of (p_store p) pid = Some c" "ac_status c \<in> {PENDING, APPROVED}"
    and "p_threads p h = None" "is_aware now" "is_aware now'" "admits_name who"
    and "c' = (if ac_status c = PENDING then decided now True who n c else c)"
    and "find_execution (concat (map reply_texts evs)) (ac_proposal c) = Some performed"
  shows "\<exists>p'. rtranclp (protocol_step S) p p' \<and> p_threads p' = p_threads p \<and>
    cases_of (p_store p') = (cases_of (p_store p))(pid \<mapsto> executed now' True performed c')"
proof -
  have key: "ac_proposal_id c' = pid" using key_spec assms(1,2,8) by auto
  have same: "ac_proposal c' = ac_proposal c" using assms(8) by simp
  obtain r s1 where d: "op_decide S now pid True who n (p_store p) = Inr (r, s1)"
    using decide_total [OF assms(1,7), of now pid True n]
    by (cases "op_decide S now pid True who n (p_store p)") auto
  let ?p1 = "p\<lparr>p_store := s1, p_threads := (p_threads p)(h := map_option AwaitTurn (to_execute r))\<rparr>"
  have s1: "inv s1" "to_execute r = Some c'" "cases_of s1 = (cases_of (p_store p))(pid \<mapsto> c')"
    using decide_spec [OF assms(1,5) d] assms(2,3,8) by (auto simp: spec_decide_def to_execute_def)
  have 1: "protocol_step S p ?p1" using d assms(5,4) by (rule step_decide)
  let ?p2 = "?p1\<lparr>p_threads := (p_threads ?p1)(h := after_turn c' (Inr evs)), p_turns := p_turns ?p1 @ [ac_proposal_id c']\<rparr>"
  have 2: "protocol_step S ?p1 ?p2" by (rule step_turn) (simp add: s1(2))
  obtain oc s2 where r: "op_record_execution S now' (ac_proposal_id c') True performed s1 = Inr (oc, s2)"
    using record_total [OF s1(1), of now' "ac_proposal_id c'" True performed] by (cases "op_record_execution S now' (ac_proposal_id c') True performed s1") auto
  let ?p3 = "?p2\<lparr>p_store := s2, p_threads := (p_threads ?p2)(h := None)\<rparr>"
  have t: "p_threads ?p2 h = Some (AwaitRecord c' performed)"
    using assms(9) same by (simp add: after_turn_def)
  have 3: "protocol_step S ?p2 ?p3"
    by (rule step_record [OF t _ assms(6)]) (simp add: r)
  have "cases_of s2 = (cases_of (p_store p))(pid \<mapsto> executed now' True performed c')"
    using record_spec [OF s1(1) assms(6) r] s1(3) key by (simp add: spec_record_def)
  moreover have "p_threads ?p3 = p_threads p" using assms(4) by (simp add: fun_upd_idem)
  moreover have "rtranclp (protocol_step S) p ?p3"
    using 1 2 3 by (meson rtranclp.rtrancl_refl rtranclp.rtrancl_into_rtrancl)
  ultimately show ?thesis by (intro exI [of _ ?p3]) simp
qed

end

section \<open>The protocol over the database store\<close>

lemma database_reachable:
  assumes "reachable (DatabaseCaseStore d) [] p"
  shows "db_inv d (p_store p)" "protocol_inv (db_cases (p_store p)) p"
    "db_get pid (p_store p) = db_cases (p_store p) pid"
proof -
  have "db_inv d (p_store p) \<and> protocol_inv (db_cases (p_store p)) p"
    using assms(1) by (rule db.reachable_inv) (simp_all add: db_inv_def table_ok_def db_cases_def mem_cases_def abs_table_def)
  then show "db_inv d (p_store p)" "protocol_inv (db_cases (p_store p)) p" by auto
  show "db_get pid (p_store p) = db_cases (p_store p) pid"
    by (simp add: db_get_refines db_cases_def mem_cases_def mem_get_def)
qed

text \<open>C1. In every reachable state of the protocol (any number of interleaved requests on the database store), a proposal for which an execution turn was run is stored, carries an approval and the time of that decision: no action is performed that a human has not approved.\<close>

theorem execution_turn_needs_approval:
  assumes "reachable (DatabaseCaseStore d) [] p" "pid \<in> set (p_turns p)"
  shows "\<exists>c. db_get pid (p_store p) = Some c \<and> was_approved c \<and> ac_decided_at c \<noteq> None"
  using database_reachable [OF assms(1)] assms(2)
  by (fastforce simp: protocol_inv_def case_ok_def was_approved_def)

text \<open>C10. In every reachable state a stored case is PENDING, APPROVED, REJECTED or EXECUTED (the request handlers never produce FAILED); it is EXECUTED exactly when it stores an agent's reply that confirms its proposal, and PENDING exactly when it has no decision time.\<close>

theorem closed_cases_are_confirmed:
  assumes "reachable (DatabaseCaseStore d) [] p" "db_get pid (p_store p) = Some c"
  shows "ac_status c \<in> {PENDING, APPROVED, REJECTED, EXECUTED} \<and>
    (ac_status c = EXECUTED \<longleftrightarrow> (\<exists>r. ac_result c = Some r \<and> confirms (ac_proposal c) r)) \<and>
    (ac_status c = PENDING \<longleftrightarrow> ac_decided_at c = None)"
proof -
  have "case_ok c"
    using database_reachable [OF assms(1)] assms(2) by (auto simp: protocol_inv_def)
  then show ?thesis by (cases "ac_result c") (auto simp: case_ok_def)
qed

text \<open>A run of the protocol: a proposal is opened, approved, executed and recorded.\<close>

definition demo_turned :: "case_table protocol" where
  "demo_turned = \<lparr>p_store = approved_table, p_threads = [0 \<mapsto> AwaitRecord demo_approved demo_result],
     p_turns = [''p1'']\<rparr>"

lemma demo_reachable: "reachable (DatabaseCaseStore SQLite) [] demo_turned"
proof -
  let ?S = "DatabaseCaseStore SQLite"
  let ?p1 = "\<lparr>p_store = demo_table, p_threads = Map.empty, p_turns = []\<rparr>"
  let ?p2 = "\<lparr>p_store = approved_table, p_threads = Map.empty(0 := Some (AwaitTurn demo_approved)), p_turns = []\<rparr>"
  have "protocol_step ?S (start []) ((start [])\<lparr>p_store := demo_table\<rparr>)"
    using demo_open demo_fresh by (intro step_open [where b = True]) (simp_all add: start_def DatabaseCaseStore_def)
  then have r1: "reachable ?S [] ?p1"
    using reach_step [OF reach_start] by (simp add: start_def)
  have "to_execute (RECORDED, Some demo_approved) = Some demo_approved"
    by (simp add: to_execute_def demo_approved_def)
  then have "protocol_step ?S ?p1 ?p2"
    using demo_decide step_decide [of ?S "Aware 1" "''p1''" True "''alice''" "''ok''" ?p1 "(RECORDED, Some demo_approved)" approved_table 0]
    by (simp add: DatabaseCaseStore_def)
  then have r2: "reachable ?S [] ?p2" by (rule reach_step [OF r1])
  have "after_turn demo_approved (Inr demo_events) = Some (AwaitRecord demo_approved demo_result)"
    using demo_find by (simp add: after_turn_def demo_approved_def)
  then have "protocol_step ?S ?p2 demo_turned"
    using step_turn [of ?p2 0 demo_approved ?S "Inr demo_events"]
    by (simp add: demo_turned_def demo_approved_def demo_fresh)
  then show ?thesis by (rule reach_step [OF r2])
qed

theorem execution_turn_needs_approval_witness:
  "\<exists>c. db_get ''p1'' (p_store demo_turned) = Some c \<and> was_approved c \<and> ac_decided_at c \<noteq> None"
  by (rule execution_turn_needs_approval [OF demo_reachable]) (simp add: demo_turned_def)

definition demo_done :: "case_table protocol" where
  "demo_done = \<lparr>p_store = executed_table, p_threads = Map.empty, p_turns = [''p1'']\<rparr>"

lemma demo_done_reachable: "reachable (DatabaseCaseStore SQLite) [] demo_done"
proof -
  have "protocol_step (DatabaseCaseStore SQLite) demo_turned
    (demo_turned\<lparr>p_store := executed_table, p_threads := (p_threads demo_turned)(0 := None)\<rparr>)"
    using demo_record
    by (intro step_record [where c = demo_approved and performed = demo_result and now = "Aware 2"
          and oc = "Some (executed (Aware 2) True demo_result demo_approved)"])
      (simp_all add: demo_turned_def DatabaseCaseStore_def demo_approved_def demo_fresh)
  then have "protocol_step (DatabaseCaseStore SQLite) demo_turned demo_done"
    by (simp add: demo_turned_def demo_done_def)
  then show ?thesis by (rule reach_step [OF demo_reachable])
qed

theorem closed_cases_are_confirmed_witness:
  "\<exists>c. db_get ''p1'' (p_store demo_done) = Some c \<and> ac_status c = EXECUTED \<and>
     (\<exists>r. ac_result c = Some r \<and> confirms (ac_proposal c) r)"
proof -
  have g: "db_get ''p1'' (p_store demo_done) = Some (row_to_case (hd executed_table))"
    by (simp add: demo_done_def db_get_def select_row_def executed_table_def insert_row_def demo_fresh)
  have "ac_status (row_to_case (hd executed_table)) = EXECUTED" by (simp add: executed_table_def)
  with closed_cases_are_confirmed [OF demo_done_reachable g] g show ?thesis by auto
qed



text \<open>A second approval posted while the first one's turn is unrecorded runs the turn again: there is a reachable state in which the same proposal's turn ran twice.\<close>

theorem concurrent_retry_runs_twice:
  "\<exists>p. reachable (DatabaseCaseStore SQLite) [] p \<and> p_turns p = [''p1'', ''p1'']"
proof -
  let ?S = "DatabaseCaseStore SQLite"
  have d: "db_decide SQLite (Aware 3) ''p1'' True ''bob'' [] approved_table =
      Inr ((ALREADY_DECIDED, Some demo_approved), approved_table)"
    by (simp add: db_decide_def update_rows_def approved_table_def demo_approved_def demo_case_def ApprovalCase_def
        insert_row_def row_to_case_def decided_def as_utc_def store_time_def select_row_def)
  have e: "to_execute (ALREADY_DECIDED, Some demo_approved) = Some demo_approved"
    by (simp add: to_execute_def demo_approved_def)
  let ?p = "\<lparr>p_store = approved_table, p_threads = [0 \<mapsto> AwaitRecord demo_approved demo_result,
      1 \<mapsto> AwaitTurn demo_approved], p_turns = [''p1'']\<rparr>"
  have "protocol_step ?S demo_turned ?p"
    using d e step_decide [of ?S "Aware 3" "''p1''" True "''bob''" "[]" demo_turned "(ALREADY_DECIDED, Some demo_approved)" approved_table 1]
    by (simp add: DatabaseCaseStore_def demo_turned_def)
  then have "reachable ?S [] ?p" by (rule reach_step [OF demo_reachable])
  moreover have "protocol_step ?S ?p (?p\<lparr>p_threads := (p_threads ?p)(1 := after_turn demo_approved (Inr demo_events)),
      p_turns := p_turns ?p @ [ac_proposal_id demo_approved]\<rparr>)"
    by (rule step_turn) simp
  ultimately have r: "reachable ?S [] (?p\<lparr>p_threads := (p_threads ?p)(1 := after_turn demo_approved (Inr demo_events)),
      p_turns := p_turns ?p @ [ac_proposal_id demo_approved]\<rparr>)" (is "reachable _ _ ?q") by (rule reach_step)
  have "p_turns ?q = [''p1'', ''p1'']" by (simp add: demo_approved_def demo_fresh)
  with r show ?thesis by (intro exI [of _ ?q] conjI)
qed

end
