(* ===== verification/Float_Exact.thy ===== *)
theory Float_Exact
  imports Py_Float
begin

text \<open>
  Exactness of the double arithmetic on small integers: a quotient that is an integer below
  \<open>2 ^ 53\<close> is rounded to itself, so a numeral read with or without a fractional \<open>.0\<close> gives the
  same double and that double gives the integer back.
\<close>

lemma norm_odd_shift: "0 < m \<Longrightarrow> norm_odd (m * 2 ^ j) e = norm_odd m (e + int j)"
proof (induction j arbitrary: e)
  case (Suc j)
  then have "norm_odd (m * 2 ^ Suc j) e = norm_odd (m * 2 ^ j) (e + 1)"
    by (subst norm_odd.simps) simp
  with Suc show ?case by (simp add: algebra_simps)
qed simp

lemma norm_odd_value:
  "0 \<le> e \<Longrightarrow> norm_odd m e = (m', e') \<Longrightarrow> 0 \<le> e' \<and> m' * 2 ^ nat e' = m * 2 ^ nat e"
proof (induction m e rule: norm_odd.induct)
  case (1 m e)
  show ?case
  proof (cases "m = 0 \<or> odd m")
    case True
    with 1(2,3) norm_odd.simps [of m e] show ?thesis by (auto split: if_splits)
  next
    case False
    then have "norm_odd m e = norm_odd (m div 2) (e + 1)" by (subst norm_odd.simps) simp
    with 1 False have *: "0 \<le> e' \<and> m' * 2 ^ nat e' = m div 2 * 2 ^ nat (e + 1)" by auto
    have "nat (e + 1) = Suc (nat e)" using 1(2) by simp
    moreover have "m = 2 * (m div 2)" using False by simp
    ultimately have "m div 2 * 2 ^ nat (e + 1) = m * 2 ^ nat e" by (metis mult.commute mult.assoc power_Suc)
    with * show ?thesis by simp
  qed
qed

lemma bit_length_bounds: "0 < n \<Longrightarrow> 0 < bit_length n \<and> 2 ^ (bit_length n - 1) \<le> n \<and> n < 2 ^ bit_length n"
proof (induction n rule: bit_length.induct)
  case (1 n)
  show ?case
  proof (cases "n div 2 = 0")
    case True
    with 1 have "n = 1" by simp
    then show ?thesis by (simp add: bit_length.simps)
  next
    case False
    have bl: "bit_length n = Suc (bit_length (n div 2))" using 1(2) by (subst bit_length.simps) simp
    from 1 False have "0 < bit_length (n div 2)" "2 ^ (bit_length (n div 2) - 1) \<le> n div 2"
      "n div 2 < 2 ^ bit_length (n div 2)" by auto
    then obtain k where k: "bit_length (n div 2) = Suc k" "2 ^ k \<le> n div 2" "n div 2 < 2 ^ Suc k"
      by (cases "bit_length (n div 2)") auto
    have "2 * (2::nat) ^ k \<le> n" "n < 2 * 2 ^ Suc k" using k(2,3) by linarith+
    then show ?thesis using bl k(1) by simp
  qed
qed

lemma mk_fin_int: "0 < v \<Longrightarrow> float_is_integer (mk_fin s (v * 2 ^ j) (- int j)) \<and>
  float_to_int (mk_fin s (v * 2 ^ j) (- int j)) = (if s then - int v else int v)"
proof -
  assume v: "0 < v"
  obtain m' e' where n: "norm_odd v 0 = (m', e')" by fastforce
  from norm_odd_value [OF _ n] have e': "0 \<le> e'" and val: "m' * 2 ^ nat e' = v" by simp_all
  have "mk_fin s (v * 2 ^ j) (- int j) = Fin s m' e'"
    using norm_odd_shift [OF v, of j "- int j"] n by (simp add: mk_fin_def)
  moreover have "int m' * 2 ^ nat e' = int v" using val by (metis of_nat_mult of_nat_numeral of_nat_power)
  ultimately show ?thesis using e' by (auto simp: float_is_integer_def float_to_int_def)
qed

text \<open>A quotient that is a positive integer below \<open>2 ^ 53\<close> is exact.\<close>

text \<open>The exponent of the quotient: below that of its last bit when it fits the significand.\<close>

lemma exact_exponent:
  fixes d v :: nat
  assumes "0 < d" "0 < v" "v < 2 ^ 53"
    and b: "b = int (bit_length (d * v)) - int (bit_length d)"
    and lg: "lg = (if d * 2 ^ nat b \<le> (d * v) * 2 ^ nat (- b) then b else b - 1)"
  shows "lg \<le> 52"
proof (rule ccontr)
  assume big: "\<not> lg \<le> 52"
  have n: "0 < d * v" using assms by simp
  note bn = bit_length_bounds [OF n] and bd = bit_length_bounds [OF assms(1)]
  from big have b53: "53 \<le> b" by (auto simp: lg split: if_splits)
  then have nb: "nat (- b) = 0" using b53 by simp
  show False
  proof (cases "d * 2 ^ nat b \<le> (d * v) * 2 ^ nat (- b)")
    case True
    then have "2 ^ nat b \<le> v" using assms(1) nb by simp
    moreover have "(2::nat) ^ 53 \<le> 2 ^ nat b" using b53 by (intro power_increasing) auto
    ultimately show False using assms(3) by linarith
  next
    case False
    with big have b54: "54 \<le> b" by (auto simp: lg)
    have e: "bit_length (d * v) - 1 = bit_length d + (nat b - 1)" using b54 bn by (simp add: b)
    have "2 ^ bit_length d * 2 ^ (nat b - 1) \<le> d * v"
      using bn unfolding e power_add by simp
    moreover have "d * v < 2 ^ bit_length d * 2 ^ (nat b - 1)"
    proof -
      have "(2::nat) ^ 53 \<le> 2 ^ (nat b - 1)" using b54 by (intro power_increasing) auto
      then have "v < 2 ^ (nat b - 1)" using assms(3) by linarith
      then show ?thesis using bd assms by (intro mult_strict_mono) auto
    qed
    ultimately show False by linarith
  qed
qed

lemma round_ratio_exact:
  assumes "0 < d" "0 < v" "v < 2 ^ 53"
  shows "\<exists>j. round_ratio s (d * v) d = mk_fin s (v * 2 ^ j) (- int j)"
proof -
  let ?n = "d * v"
  define b where "b = int (bit_length ?n) - int (bit_length d)"
  define lg where "lg = (if d * 2 ^ nat b \<le> ?n * 2 ^ nat (- b) then b else b - 1)"
  define q where "q = max (lg - 52) (- 1074)"
  have n: "0 < ?n" using assms by simp
  have "lg \<le> 52" by (rule exact_exponent [OF assms b_def lg_def])
  then have q: "q \<le> 0" "q \<noteq> 971" by (auto simp: q_def)
  then have nq: "nat q = 0" by simp
  have "round_ratio s ?n d = mk_fin s (v * 2 ^ nat (- q)) q"
    unfolding round_ratio_def Let_def b_def [symmetric]
    unfolding lg_def [symmetric]
    unfolding q_def [symmetric]
  proof -
    have num: "?n * 2 ^ nat (- q) = d * (v * 2 ^ nat (- q))" by (simp add: mult.assoc)
    have den: "d * 2 ^ nat q = d" using nq by simp
    show "(if ?n = 0 then Fin s 0 0
      else if 1023 < lg \<or> q = 971 \<and>
        (if d * 2 ^ nat q < 2 * (?n * 2 ^ nat (- q) mod (d * 2 ^ nat q)) \<or>
            2 * (?n * 2 ^ nat (- q) mod (d * 2 ^ nat q)) = d * 2 ^ nat q \<and>
            odd (?n * 2 ^ nat (- q) div (d * 2 ^ nat q))
         then ?n * 2 ^ nat (- q) div (d * 2 ^ nat q) + 1
         else ?n * 2 ^ nat (- q) div (d * 2 ^ nat q)) = 2 ^ 53 then Inf s
      else mk_fin s
        (if d * 2 ^ nat q < 2 * (?n * 2 ^ nat (- q) mod (d * 2 ^ nat q)) \<or>
            2 * (?n * 2 ^ nat (- q) mod (d * 2 ^ nat q)) = d * 2 ^ nat q \<and>
            odd (?n * 2 ^ nat (- q) div (d * 2 ^ nat q))
         then ?n * 2 ^ nat (- q) div (d * 2 ^ nat q) + 1
         else ?n * 2 ^ nat (- q) div (d * 2 ^ nat q)) q) = mk_fin s (v * 2 ^ nat (- q)) q"
      unfolding num den using n \<open>lg \<le> 52\<close> q(2) assms(1) by auto
  qed
  moreover have "q = - int (nat (- q))" using q by simp
  ultimately show ?thesis by metis
qed

lemma round_ratio_int:
  assumes "0 < d" "v < 2 ^ 53"
  shows "float_is_integer (round_ratio s (d * v) d)"
    and "float_to_int (round_ratio s (d * v) d) = (if s then - int v else int v)"
proof -
  have "float_is_integer (round_ratio s (d * v) d) \<and>
    float_to_int (round_ratio s (d * v) d) = (if s then - int v else int v)"
  proof (cases "v = 0")
    case True
    then show ?thesis by (simp add: round_ratio_def float_is_integer_def float_to_int_def)
  next
    case False
    then obtain j where "round_ratio s (d * v) d = mk_fin s (v * 2 ^ j) (- int j)"
      using round_ratio_exact [of d v s] assms by auto
    then show ?thesis using mk_fin_int [of v s j] False by simp
  qed
  then show "float_is_integer (round_ratio s (d * v) d)"
    and "float_to_int (round_ratio s (d * v) d) = (if s then - int v else int v)" by auto
qed

section \<open>Overflow\<close>

lemma bit_length_power: "bit_length (2 ^ k) = Suc k"
proof (induction k)
  case 0
  show ?case by (simp add: bit_length.simps)
next
  case (Suc k)
  have "bit_length (2 ^ Suc k) = Suc (bit_length (2 ^ Suc k div 2))" by (subst bit_length.simps) simp
  with Suc show ?case by simp
qed

lemma round_ratio_overflow: "round_ratio s (2 ^ 1024) 1 = Inf s"
proof -
  have b: "bit_length (2 ^ 1024) = 1025" "bit_length 1 = 1"
    using bit_length_power [of 1024] bit_length_power [of 0] by simp_all
  show ?thesis unfolding round_ratio_def b Let_def by simp
qed

end
