(* ===== verification/Math_Tools.thy ===== *)
theory Math_Tools
  imports Proposals Float_Exact
begin

text \<open>
  The math specialist's tools (\<^verbatim>\<open>app/agents/math/tools.py\<close>): the arithmetic evaluator over the
  syntax tree that \<open>ast.parse\<close> gives, the canonical spelling of a number, and the gated
  publication with the list \<open>PUBLICATIONS\<close> as its state. The parser, floating-point \<open>**\<close> (which
  is the platform's \<open>pow\<close>) and complex arithmetic, which a negative base with a fractional
  exponent leads to, are parameters.
\<close>

section \<open>Syntax trees and numbers\<close>

datatype py_const = CInt int | CFloat pyfloat | CBool bool | COther string

datatype py_binop = Add | Sub | Mult | Div | FloorDiv | Mod | Pow | OtherBinop string

datatype py_unop = UAdd | USub | OtherUnop string

datatype py_ast =
    Constant py_const
  | BinOp py_ast py_binop py_ast
  | UnaryOp py_unop py_ast
  | OtherNode string

datatype 'c number = Real pyfloat | Complex 'c

record 'c arith =
  pow_float :: "pyfloat \<Rightarrow> pyfloat \<Rightarrow> 'c number result"
  complex_of :: "pyfloat \<Rightarrow> 'c"
  complex_bin :: "py_binop \<Rightarrow> 'c \<Rightarrow> 'c \<Rightarrow> 'c number result"
  complex_neg :: "'c \<Rightarrow> 'c"
  complex_str :: "'c \<Rightarrow> string"

section \<open>The evaluator\<close>

text \<open>\<open>_BINARY_OPS\<close> and \<open>_UNARY_OPS\<close>; \<open>None\<close> is an operator that is not in the table.\<close>

definition float_bin :: "'c arith \<Rightarrow> py_binop \<Rightarrow> pyfloat \<Rightarrow> pyfloat \<Rightarrow> 'c number result" where
  "float_bin A op x y =
     (case op of
        Add \<Rightarrow> Inr (Real (float_add x y))
      | Sub \<Rightarrow> Inr (Real (float_sub x y))
      | Mult \<Rightarrow> Inr (Real (float_mul x y))
      | Div \<Rightarrow> map_sum id Real (float_div x y)
      | FloorDiv \<Rightarrow> map_sum id Real (float_floordiv x y)
      | Mod \<Rightarrow> map_sum id Real (float_mod x y)
      | Pow \<Rightarrow> pow_float A x y
      | OtherBinop n \<Rightarrow> Inl (ValueError ''Unsupported expression''))"

fun apply_bin :: "'c arith \<Rightarrow> py_binop \<Rightarrow> 'c number \<Rightarrow> 'c number \<Rightarrow> 'c number result" where
  "apply_bin A op (Real x) (Real y) = float_bin A op x y"
| "apply_bin A op (Real x) (Complex w) = complex_bin A op (complex_of A x) w"
| "apply_bin A op (Complex z) (Real y) = complex_bin A op z (complex_of A y)"
| "apply_bin A op (Complex z) (Complex w) = complex_bin A op z w"

definition BINARY_OPS :: "'c arith \<Rightarrow> py_binop \<Rightarrow> ('c number \<Rightarrow> 'c number \<Rightarrow> 'c number result) option" where
  "BINARY_OPS A op = (case op of OtherBinop n \<Rightarrow> None | _ \<Rightarrow> Some (apply_bin A op))"

definition UNARY_OPS :: "'c arith \<Rightarrow> py_unop \<Rightarrow> ('c number \<Rightarrow> 'c number) option" where
  "UNARY_OPS A op =
     (case op of
        UAdd \<Rightarrow> Some (\<lambda>v. v)
      | USub \<Rightarrow> Some (\<lambda>v. case v of Real x \<Rightarrow> Real (float_neg x) | Complex z \<Rightarrow> Complex (complex_neg A z))
      | OtherUnop n \<Rightarrow> None)"

definition unsupported :: py_error where
  "unsupported = ValueError ''Unsupported expression''"

text \<open>\<open>float(node.value)\<close> of an \<open>int\<close>, a \<open>float\<close> or a \<open>bool\<close>, which is an \<open>int\<close>.\<close>

definition const_value :: "py_const \<Rightarrow> pyfloat result" where
  "const_value c =
     (case c of
        CInt i \<Rightarrow> float_of_int i
      | CFloat f \<Rightarrow> Inr f
      | CBool b \<Rightarrow> float_of_int (int_of_bool b)
      | COther s \<Rightarrow> Inl unsupported)"

fun eval_node :: "'c arith \<Rightarrow> py_ast \<Rightarrow> 'c number result" where
  "eval_node A (Constant c) = map_sum id Real (const_value c)"
| "eval_node A (BinOp left op right) =
     (case BINARY_OPS A op of
        None \<Rightarrow> Inl unsupported
      | Some f \<Rightarrow> bind_result (eval_node A left) (\<lambda>x. bind_result (eval_node A right) (f x)))"
| "eval_node A (UnaryOp op operand) =
     (case UNARY_OPS A op of
        None \<Rightarrow> Inl unsupported
      | Some f \<Rightarrow> map_sum id f (eval_node A operand))"
| "eval_node A (OtherNode s) = Inl unsupported"

fun error_text :: "py_error \<Rightarrow> string" where
  "error_text (ValueError m) = m"
| "error_text (KeyError m) = m"
| "error_text (TypeError m) = m"
| "error_text (SyntaxError m) = m"
| "error_text (ZeroDivisionError m) = m"
| "error_text (OverflowError m) = m"
| "error_text (InputValidationError m) = m"
| "error_text (HTTPException n m) = m"
| "error_text (StorageError m) = m"

text \<open>The exceptions \<open>calculate\<close> turns into an error result.\<close>

fun calculate_catches :: "py_error \<Rightarrow> bool" where
  "calculate_catches (ValueError m) = True"
| "calculate_catches (SyntaxError m) = True"
| "calculate_catches (ZeroDivisionError m) = True"
| "calculate_catches (TypeError m) = True"
| "calculate_catches _ = False"

definition number_str :: "'c arith \<Rightarrow> 'c number \<Rightarrow> string" where
  "number_str A v = (case v of Real x \<Rightarrow> float_repr x | Complex z \<Rightarrow> complex_str A z)"

definition calculate :: "'c arith \<Rightarrow> (string \<Rightarrow> py_ast result) \<Rightarrow> string \<Rightarrow> json_dict result" where
  "calculate A parse expression =
     (case bind_result (parse expression) (eval_node A) of
        Inr v \<Rightarrow> Inr [(''status'', JStr ''ok''), (''expression'', JStr expression),
                      (''result'', JStr (number_str A v))]
      | Inl e \<Rightarrow>
          if calculate_catches e
          then Inr [(''status'', JStr ''error''), (''expression'', JStr expression),
                    (''error'', JStr (error_text e))]
          else Inl e)"

section \<open>The gated publication\<close>

definition PUBLISH_ACTION :: string where
  "PUBLISH_ACTION = ''publish_result''"

definition canonical_value :: "string \<Rightarrow> string" where
  "canonical_value v =
     (case float_of_string v of
        None \<Rightarrow> v
      | Some number \<Rightarrow>
          if float_is_integer number then int_str (float_to_int number) else float_repr number)"

record publication =
  pub_value :: string
  pub_label :: string
  pub_approved_by :: string

definition publish_proposal :: "string \<Rightarrow> string \<Rightarrow> json_dict" where
  "publish_proposal v label =
     [(''action'', JStr PUBLISH_ACTION), (''value'', JStr v), (''label'', JStr label)]"

definition publish_result ::
  "string \<Rightarrow> string \<Rightarrow> string \<Rightarrow> string \<Rightarrow> publication list \<Rightarrow> json_dict \<times> publication list" where
  "publish_result value0 label approved_by note_text publications =
     (let v = canonical_value value0
      in if strip approved_by = []
         then ([(''status'', JStr APPROVAL_REQUIRED), (''action'', JStr PUBLISH_ACTION),
                (''proposal'', JObj (publish_proposal v label)),
                (''summary'', JStr (''Publish '' @ repr v @ '' under label '' @ repr label @ ''.''))],
               publications)
         else ([(''status'', JStr PUBLISHED), (''action'', JStr PUBLISH_ACTION),
                (''note'', JStr note_text), (''value'', JStr v), (''label'', JStr label),
                (''approved_by'', JStr approved_by)],
               publications @ [\<lparr>pub_value = v, pub_label = label, pub_approved_by = approved_by\<rparr>]))"

section \<open>Only whitelisted trees are evaluated\<close>

fun whitelisted :: "py_ast \<Rightarrow> bool" where
  "whitelisted (Constant c) \<longleftrightarrow> (\<forall>s. c \<noteq> COther s)"
| "whitelisted (BinOp l op r) \<longleftrightarrow> (\<forall>n. op \<noteq> OtherBinop n) \<and> whitelisted l \<and> whitelisted r"
| "whitelisted (UnaryOp op x) \<longleftrightarrow> (\<forall>n. op \<noteq> OtherUnop n) \<and> whitelisted x"
| "whitelisted (OtherNode s) \<longleftrightarrow> False"

lemma eval_node_whitelisted: "eval_node A t = Inr v \<Longrightarrow> whitelisted t"
proof (induction t arbitrary: v)
  case (Constant c)
  then show ?case by (cases c) (auto simp: const_value_def)
next
  case (BinOp l op r)
  then show ?case by (auto simp: BINARY_OPS_def bind_result_Inr_iff split: option.splits py_binop.splits)
next
  case (UnaryOp op t)
  then show ?case by (cases "eval_node A t") (auto simp: UNARY_OPS_def split: option.splits py_unop.splits)
qed simp

lemma calculate_ok_whitelisted:
  assumes "calculate A parse expression = Inr d" "dict_get d ''status'' = Some (JStr ''ok'')"
  shows "\<exists>t v. parse expression = Inr t \<and> whitelisted t \<and> eval_node A t = Inr v \<and>
    dict_get d ''result'' = Some (JStr (number_str A v))"
proof -
  from assms obtain v where "bind_result (parse expression) (eval_node A) = Inr v"
    "d = [(''status'', JStr ''ok''), (''expression'', JStr expression), (''result'', JStr (number_str A v))]"
    by (auto simp: calculate_def split: sum.splits if_splits)
  then show ?thesis by (auto simp: bind_result_Inr_iff dest: eval_node_whitelisted)
qed

section \<open>Canonical spelling\<close>

lemma digitpart_digits:
  assumes "list_all is_digit ds" "rest = [] \<or> (hd rest = CHR ''.'' \<or> hd rest = CHR ''e'')"
  shows "digitpart (ds @ rest) = (ds, rest)"
  using assms
proof (induction ds rule: digitpart.induct)
  case 1
  then show ?case by (cases rest rule: digitpart.cases) (auto simp: is_digit_def)
next
  case (2 c)
  then show ?case
  proof (cases rest rule: digitpart.cases)
    case 1
    with 2 show ?thesis by simp
  next
    case (2 d)
    then show ?thesis using \<open>list_all is_digit [c]\<close> \<open>rest = [] \<or> _\<close> by (auto simp: is_digit_def)
  next
    case (3 d e)
    then show ?thesis using \<open>list_all is_digit [c]\<close> \<open>rest = [] \<or> _\<close> by (auto simp: is_digit_def)
  next
    case (4 d e x s)
    then show ?thesis using \<open>list_all is_digit [c]\<close> \<open>rest = [] \<or> _\<close> by (auto simp: is_digit_def)
  qed
next
  case (3 c d)
  then show ?case
    by (cases rest) (auto simp: is_digit_def)
next
  case (4 c d x s)
  then show ?case by (auto simp: is_digit_def)
qed

lemma nat_of_digits_append_0: "nat_of_digits (ds @ ''0'') = 10 * nat_of_digits ds"
proof -
  have "nat_of_digits (ds @ ''0'') = nat_of_digits ds * 10 + digit_val CHR ''0''"
    by (rule nat_of_digits_snoc)
  then show ?thesis by (simp add: digit_val_def)
qed

lemma lower_digits: "list_all is_digit ds \<Longrightarrow> lower ds = ds"
  by (induction ds) (auto simp: lower_def lower_char_def is_digit_def is_upper_letter_def)

lemma digits_not_special:
  assumes "isdigit ds"
  shows "lower (ds @ rest) \<noteq> ''inf''" "lower (ds @ rest) \<noteq> ''infinity''" "lower (ds @ rest) \<noteq> ''nan''"
proof -
  obtain c t where c: "ds = c # t" "is_digit c" using assms by (cases ds) (auto simp: isdigit_def)
  then have "hd (lower (ds @ rest)) = c"
    by (simp add: lower_def lower_char_def is_digit_def is_upper_letter_def)
  then show "lower (ds @ rest) \<noteq> ''inf''" "lower (ds @ rest) \<noteq> ''infinity''" "lower (ds @ rest) \<noteq> ''nan''"
    using c(2) by (auto simp: is_digit_def)
qed

lemma float_of_digits:
  assumes "isdigit ds"
  shows "float_of_string ds = Some (scale10 False (nat_of_digits ds) 0)"
    and "float_of_string (ds @ ''.0'') = Some (scale10 False (10 * nat_of_digits ds) (- 1))"
proof -
  obtain c t where ds: "ds = c # t" "is_digit c" "list_all is_digit ds"
    using assms by (cases ds) (auto simp: isdigit_def)
  have c: "c \<noteq> CHR ''-''" "c \<noteq> CHR ''+''" using ds(2) by (auto simp: is_digit_def)
  have s1: "strip ds = ds" using stripped_digits [OF assms] by (simp add: strip_def strip_of_id)
  have "stripped is_space (ds @ ''.0'')"
    using ds by (auto simp: stripped_def is_space_def is_digit_def)
  then have s2: "strip (ds @ ''.0'') = ds @ ''.0''" by (simp add: strip_def strip_of_id)
  have d1: "digitpart ds = (ds, [])" using digitpart_digits [OF ds(3), of "[]"] by simp
  have d2: "digitpart (ds @ ''.0'') = (ds, ''.0'')" using digitpart_digits [OF ds(3)] by simp
  have d3: "digitpart ''0'' = (''0'', [])" by (simp add: is_digit_def)
  have "parse_unsigned False ds = Some (scale10 False (nat_of_digits ds) 0)"
    using digits_not_special [OF assms, of "[]"] d1 ds(1)
    by (simp add: parse_unsigned_def Let_def exponent_part_def)
  then show "float_of_string ds = Some (scale10 False (nat_of_digits ds) 0)"
    unfolding float_of_string_def s1 using ds(1) c by simp
  have "parse_unsigned False (ds @ ''.0'') = Some (scale10 False (10 * nat_of_digits ds) (- 1))"
    using digits_not_special [OF assms, of "''.0''"] d2 d3
    by (simp add: parse_unsigned_def Let_def exponent_part_def nat_of_digits_append_0)
  then show "float_of_string (ds @ ''.0'') = Some (scale10 False (10 * nat_of_digits ds) (- 1))"
    unfolding float_of_string_def s2 using ds(1) c by simp
qed

text \<open>An integer below \<open>2 ^ 53\<close> has one spelling, with or without its \<open>.0\<close>.\<close>

lemma canonical_digits:
  assumes "isdigit ds" "nat_of_digits ds < 2 ^ 53"
  shows "canonical_value ds = nat_str (nat_of_digits ds)"
    and "canonical_value (ds @ ''.0'') = nat_str (nat_of_digits ds)"
proof -
  let ?v = "nat_of_digits ds"
  have a: "scale10 False ?v 0 = round_ratio False (1 * ?v) 1" by (simp add: scale10_def)
  have b: "scale10 False (10 * ?v) (- 1) = round_ratio False (10 * ?v) 10" by (simp add: scale10_def)
  show "canonical_value ds = nat_str ?v"
    unfolding canonical_value_def float_of_digits(1) [OF assms(1)] a
    using round_ratio_int [of 1 ?v False] assms(2) by (simp add: int_str_def)
  show "canonical_value (ds @ ''.0'') = nat_str ?v"
    unfolding canonical_value_def float_of_digits(2) [OF assms(1)] b
    using round_ratio_int [of 10 ?v False] assms(2) by (simp add: int_str_def)
qed

section \<open>The gate\<close>

lemma publish_result_cases:
  "publish_result v label who n pubs =
   (if strip who = []
    then ([(''status'', JStr APPROVAL_REQUIRED), (''action'', JStr PUBLISH_ACTION),
           (''proposal'', JObj (publish_proposal (canonical_value v) label)),
           (''summary'', JStr (''Publish '' @ repr (canonical_value v) @ '' under label '' @ repr label @ ''.''))],
          pubs)
    else ([(''status'', JStr PUBLISHED), (''action'', JStr PUBLISH_ACTION),
           (''note'', JStr n), (''value'', JStr (canonical_value v)), (''label'', JStr label),
           (''approved_by'', JStr who)],
          pubs @ [\<lparr>pub_value = canonical_value v, pub_label = label, pub_approved_by = who\<rparr>]))"
  by (simp add: publish_result_def Let_def)

lemma published_confirms:
  "confirms (publish_proposal v label) (fst (publish_result w l who n pubs)) \<longleftrightarrow>
   strip who \<noteq> [] \<and> canonical_value w = v \<and> l = label"
  by (auto simp: confirms_def wanted_def publish_result_cases publish_proposal_def APPROVAL_REQUIRED_def
      PUBLISHED_def)

section \<open>The gate and the evaluator\<close>


text \<open>C14. The reply of a publication confirms an approved proposal exactly when an approver was given and the published value and label are those that were approved.\<close>

theorem only_the_approved_content_confirms:
  "confirms (publish_proposal (canonical_value v) label) (fst (publish_result w l who n pubs)) =
   (strip who \<noteq> [] \<and> canonical_value w = canonical_value v \<and> l = label)"
  by (simp add: published_confirms)

text \<open>An integer below 2 to the 53 and the same integer with a zero fraction have one canonical spelling, the decimal numeral.\<close>

theorem integers_have_one_spelling:
  assumes "isdigit ds" "nat_of_digits ds < 2 ^ 53"
  shows "canonical_value ds = nat_str (nat_of_digits ds) \<and> canonical_value (ds @ ''.0'') = nat_str (nat_of_digits ds)"
  using canonical_digits [OF assms] by simp

theorem integers_have_one_spelling_witness:
  "canonical_value ''391'' = ''391'' \<and> canonical_value ''391.0'' = ''391''"
proof -
  have d: "isdigit ''391''" by (simp add: isdigit_def is_digit_def)
  have n: "nat_of_digits ''391'' = 391" by (simp add: nat_of_digits_def digit_val_def)
  have s: "nat_str 391 = ''391''" by (simp add: nat_str.simps digit_char_def eq_char_code)
  show ?thesis using integers_have_one_spelling [OF d] n s by simp
qed


definition demo_arith :: "unit arith" where
  "demo_arith = \<lparr>pow_float = (\<lambda>x y. Inr (Real x)), complex_of = (\<lambda>x. ()),
     complex_bin = (\<lambda>op x y. Inr (Complex ())), complex_neg = (\<lambda>x. ()), complex_str = (\<lambda>x. ''c'')\<rparr>"

definition demo_parse :: "string \<Rightarrow> py_ast result" where
  "demo_parse s = Inr (UnaryOp USub (Constant (CFloat one_float)))"

lemma demo_calculate:
  "calculate demo_arith demo_parse ''-1.0'' =
   Inr [(''status'', JStr ''ok''), (''expression'', JStr ''-1.0''),
        (''result'', JStr (number_str demo_arith (Real (float_neg one_float))))]"
  by (simp add: calculate_def demo_parse_def const_value_def UNARY_OPS_def)


text \<open>An integer literal beyond the largest double: the error is not answered but raised.\<close>

theorem calculate_raises_on_overflow:
  "calculate A (\<lambda>s. Inr (Constant (CInt (2 ^ 1024)))) e =
   Inl (OverflowError ''int too large to convert to float'')"
proof -
  have "round_ratio False (2 ^ 1024) 1 = Inf False" by (rule round_ratio_overflow)
  then have "float_of_int (2 ^ 1024) = Inl (OverflowError ''int too large to convert to float'')"
    by (simp add: float_of_int_def nat_power_eq)
  then show ?thesis by (simp add: calculate_def const_value_def)
qed

end
