(* ===== verification/Reporting.thy ===== *)
theory Reporting
  imports Math_Tools
begin

text \<open>
  \<^verbatim>\<open>app/agents/reporting.py\<close>: the callback that restates a turn's audit-relevant tool results as
  verbatim JSON, so that they survive the reduction of a peer's reply to text. A session event is
  an event with the id of its invocation. A \<open>status\<close> that is a list or a dictionary cannot be
  looked up in the \<open>frozenset\<close>: the lookup raises \<open>TypeError\<close>.
\<close>

record session_event = event +
  ev_invocation :: string

definition AUDITED_STATUSES :: "string list" where
  "AUDITED_STATUSES = [APPROVAL_REQUIRED, PUBLISHED]"

definition RESULT_HEADER :: string where
  "RESULT_HEADER = ''Structured result(s):''"

text \<open>\<open>_payloads\<close>.\<close>

definition response_payload :: "json \<Rightarrow> json_dict option" where
  "response_payload payload =
     (case payload of
        JObj d \<Rightarrow> (case dict_get d ''result'' of Some (JObj inner) \<Rightarrow> Some inner | _ \<Rightarrow> Some d)
      | _ \<Rightarrow> None)"

definition payloads :: "session_event \<Rightarrow> json_dict list" where
  "payloads e = List.map_filter (\<lambda>(name, response). response_payload response) (ev_responses e)"

text \<open>\<open>payload.get("status") in AUDITED_STATUSES\<close>.\<close>

definition audited :: "json_dict \<Rightarrow> bool result" where
  "audited payload =
     (case dict_get payload ''status'' of
        Some (JStr s) \<Rightarrow> Inr (s \<in> set AUDITED_STATUSES)
      | Some (JArr vs) \<Rightarrow> Inl (TypeError ''cannot use 'list' as a set element (unhashable type: 'list')'')
      | Some (JObj d) \<Rightarrow> Inl (TypeError ''cannot use 'dict' as a set element (unhashable type: 'dict')'')
      | _ \<Rightarrow> Inr False)"

text \<open>The loop over the payloads of an event, with \<open>(results, seen)\<close>.\<close>

fun note_results ::
  "json_dict list \<Rightarrow> json_dict list \<times> string set \<Rightarrow> (json_dict list \<times> string set) result" where
  "note_results [] acc = Inr acc"
| "note_results (payload # rest) acc =
     bind_result (audited payload)
       (\<lambda>hit.
          if \<not> hit then note_results rest acc
          else
            (case acc of (results, seen) \<Rightarrow>
               (let key = dumps_sorted (JObj payload)
                in note_results rest
                     (if key \<in> seen then (results, seen) else (results @ [payload], insert key seen)))))"

definition spoken_text :: "string \<Rightarrow> session_event \<Rightarrow> string \<Rightarrow> string" where
  "spoken_text agent_name e spoken =
     (let txt = parts_text (content_parts (event.truncate e))
      in if ev_author e = agent_name \<and> txt \<noteq> [] then txt else spoken)"

text \<open>The loop over the events of the session.\<close>

fun collect_results ::
  "string \<Rightarrow> string \<Rightarrow> session_event list \<Rightarrow> json_dict list \<times> string set \<Rightarrow> string \<Rightarrow>
   (json_dict list \<times> string) result" where
  "collect_results agent_name invocation_id [] acc spoken = Inr (fst acc, spoken)"
| "collect_results agent_name invocation_id (e # rest) acc spoken =
     (if ev_invocation e \<noteq> invocation_id then collect_results agent_name invocation_id rest acc spoken
      else bind_result (note_results (payloads e) acc)
             (\<lambda>acc'. collect_results agent_name invocation_id rest acc' (spoken_text agent_name e spoken)))"

definition restate_blocks :: "json_dict list \<Rightarrow> string" where
  "restate_blocks results = join [newline] (map (\<lambda>r. dumps_sorted (JObj r)) results)"

definition restate_structured_results ::
  "string \<Rightarrow> string \<Rightarrow> session_event list \<Rightarrow> string option result" where
  "restate_structured_results agent_name invocation_id events =
     map_sum id
       (\<lambda>(results, spoken).
          if results = [] then None
          else
            (let blocks = restate_blocks results
             in Some (if spoken \<noteq> []
                      then spoken @ [newline, newline] @ RESULT_HEADER @ [newline] @ blocks
                      else blocks)))
       (collect_results agent_name invocation_id events ([], {}) [])"

section \<open>What a caller reads back\<close>

lemma json_ok_sorted_dict: "json_ok (JObj d) \<Longrightarrow> json_ok (JObj (sorted_dict d))"
  using json_ok_sort_keys [of "JObj d"] unfolding sort_keys_obj .

lemma dumps_sorted_obj: "dumps_sorted (JObj d) = dumps (JObj (sorted_dict d))"
  unfolding dumps_sorted_def sort_keys_obj ..

lemma scan_blocks:
  "list_all (\<lambda>r. json_ok (JObj r)) results \<Longrightarrow>
   json_objects_in (restate_blocks results) = map sorted_dict results"
proof (induction results)
  case Nil
  then show ?case by (simp add: restate_blocks_def json_objects_in_none)
next
  case (Cons r rs)
  have ok: "json_ok (JObj (sorted_dict r))" using Cons.prems json_ok_sorted_dict by simp
  show ?case
  proof (cases rs)
    case Nil
    then show ?thesis
      using json_objects_in_dumps_only [OF ok]
      by (simp add: restate_blocks_def dumps_sorted_obj)
  next
    case (Cons r2 rs2)
    have "restate_blocks (r # rs) = [] @ dumps (JObj (sorted_dict r)) @ newline # restate_blocks rs"
      using Cons by (simp add: restate_blocks_def dumps_sorted_obj)
    moreover have "json_objects_in (newline # restate_blocks rs) = json_objects_in (restate_blocks rs)"
      using json_objects_in_skip [of "[newline]"] by simp
    ultimately show ?thesis
      using json_objects_in_dumps [OF _ ok, of "[]" "newline # restate_blocks rs"] Cons.IH Cons.prems
      by simp
  qed
qed

lemma restate_scan:
  assumes "restate_structured_results agent iid events = Inr (Some body)"
    and "collect_results agent iid events ([], {}) [] = Inr (results, spoken)"
    and "list_all (\<lambda>r. json_ok (JObj r)) results" "CHR ''{'' \<notin> set spoken"
  shows "json_objects_in body = map sorted_dict results"
proof -
  have body: "body = (if spoken \<noteq> [] then spoken @ [newline, newline] @ RESULT_HEADER @ [newline] else [])
      @ restate_blocks results"
    using assms(1,2) by (auto simp: restate_structured_results_def Let_def split: if_splits)
  show ?thesis
    unfolding body using assms(4) scan_blocks [OF assms(3)]
    by (subst json_objects_in_skip) (auto simp: RESULT_HEADER_def)
qed

section \<open>Which results are restated\<close>

definition is_audited :: "json_dict \<Rightarrow> bool" where
  "is_audited d \<longleftrightarrow> audited d = Inr True"

definition result_key :: "json_dict \<Rightarrow> string" where
  "result_key d = dumps_sorted (JObj d)"

lemma note_results_first:
  "note_results ps (rs, seen) = Inr acc \<Longrightarrow>
   acc = (rs @ first_by result_key seen (filter is_audited ps), seen \<union> result_key ` set (filter is_audited ps))"
proof (induction ps arbitrary: rs seen)
  case (Cons p ps)
  from Cons.prems obtain hit where hit: "audited p = Inr hit"
    by (cases "audited p") auto
  show ?case
  proof (cases "hit \<and> result_key p \<notin> seen")
    case True
    with hit Cons.prems have "note_results ps (rs @ [p], insert (result_key p) seen) = Inr acc"
      by (simp add: result_key_def Let_def)
    from Cons.IH [OF this] True hit show ?thesis by (simp add: is_audited_def)
  next
    case False
    with hit Cons.prems have "note_results ps (rs, seen) = Inr acc"
      by (cases hit) (simp_all add: result_key_def Let_def)
    from Cons.IH [OF this] False hit show ?thesis by (auto simp: is_audited_def)
  qed
qed simp

definition turn_payloads :: "string \<Rightarrow> session_event list \<Rightarrow> json_dict list" where
  "turn_payloads invocation_id events =
     concat (map payloads (filter (\<lambda>e. ev_invocation e = invocation_id) events))"

lemma first_by_append:
  "first_by f seen (xs @ ys) = first_by f seen xs @ first_by f (seen \<union> f ` set xs) ys"
proof (induction xs arbitrary: seen)
  case (Cons x xs)
  show ?case
  proof (cases "f x \<in> seen")
    case True
    then have "seen \<union> f ` set (x # xs) = seen \<union> f ` set xs" by auto
    with True Cons show ?thesis by simp
  next
    case False
    have "insert (f x) seen \<union> f ` set xs = seen \<union> f ` set (x # xs)" by auto
    with False Cons show ?thesis by simp
  qed
qed simp

lemma collect_results_first:
  "collect_results agent iid events (rs, seen) spoken = Inr (results, spoken') \<Longrightarrow>
   results = rs @ first_by result_key seen (filter is_audited (turn_payloads iid events))"
proof (induction events arbitrary: rs seen spoken)
  case (Cons e events)
  show ?case
  proof (cases "ev_invocation e = iid")
    case True
    with Cons.prems obtain acc where acc: "note_results (payloads e) (rs, seen) = Inr acc"
      "collect_results agent iid events acc (spoken_text agent e spoken) = Inr (results, spoken')"
      by (auto simp: bind_result_Inr_iff)
    note a = note_results_first [OF acc(1)]
    show ?thesis
      using Cons.IH [OF acc(2) [unfolded a]] True by (simp add: turn_payloads_def first_by_append)
  qed (use Cons in \<open>simp add: turn_payloads_def\<close>)
qed (simp add: turn_payloads_def)

text \<open>Sorting the keys of a proposal changes neither what it proposes nor what confirms it.\<close>

lemma dict_get_sorted: "dict_ok d \<Longrightarrow> dict_get (sorted_dict d) k = map_option sort_keys (dict_get d k)"
  by (simp add: dict_ok_def dict_keys_def dict_get_sorted_dict)

lemma field_eq_sorted:
  "dict_ok d \<Longrightarrow> is_scalar v \<Longrightarrow> field_eq (sorted_dict d) k v \<longleftrightarrow> field_eq d k v"
  by (cases "dict_get d k"; cases "the (dict_get d k)"; cases v) (auto simp: field_eq_def dict_get_sorted)

lemma confirms_sorted: "dict_ok d \<Longrightarrow> confirms p (sorted_dict d) \<longleftrightarrow> confirms p d"
  by (auto simp: confirms_def wanted_def field_eq_sorted split: prod.splits simp del: field_eq_str)

section \<open>The text keeps the results\<close>


definition math_event :: session_event where
  "math_event = \<lparr>ev_author = ''math'', ev_calls = [],
     ev_responses = [(''publish_result'', JObj demo_result)],
     ev_content = Some (Some [Some ''It is done.'']), ev_error = None, ev_final = True, ev_invocation = ''i1''\<rparr>"

lemma demo_audited: "audited demo_result = Inr True"
  by (simp add: audited_def demo_result_def AUDITED_STATUSES_def PUBLISHED_def)

lemma demo_spoken: "parts_text [Some ''It is done.''] = ''It is done.''"
  by (simp add: parts_text_def strip_def strip_of_def lstrip_of_def rstrip_of_def is_space_def)

lemma demo_collect:
  "collect_results ''math'' ''i1'' [math_event] ([], {}) [] = Inr ([demo_result], ''It is done.'')"
proof -
  have "payloads math_event = [demo_result]"
    by (simp add: payloads_def math_event_def List.map_filter_simps response_payload_def demo_result_def)
  moreover have "spoken_text ''math'' math_event [] = ''It is done.''"
    by (simp add: spoken_text_def math_event_def content_parts_def event.truncate_def demo_spoken)
  moreover have "ev_invocation math_event = ''i1''" by (simp add: math_event_def)
  ultimately show ?thesis using demo_audited by simp
qed


text \<open>A tool result whose status is a list stops the callback.\<close>

theorem callback_raises_on_list_status:
  "\<exists>m. audited [(''status'', JArr [])] = Inl (TypeError m)"
  by (simp add: audited_def)

end
