(* ===== verification/Approval_Flow.thy ===== *)
theory Approval_Flow
  imports Reporting Serving
begin

text \<open>
  The way of one approval across the processes: a specialist's tool answers with a proposal, its
  callback restates the answer as text, the text comes back to the orchestrator as the reply of a
  peer tool, and the orchestrator opens a case; once approved, the same content published by the
  specialist comes back the same way and closes the case. \<open>restated\<close> and \<open>carries\<close> name the two
  hops; what the models do between them is not constrained.
\<close>

section \<open>What a specialist sends, and what arrives\<close>

definition restated :: "string \<Rightarrow> string \<Rightarrow> session_event list \<Rightarrow> string \<Rightarrow> bool" where
  "restated agent iid evs body \<longleftrightarrow>
     restate_structured_results agent iid evs = Inr (Some body) \<and>
     (\<exists>results spoken. collect_results agent iid evs ([], {}) [] = Inr (results, spoken) \<and>
        list_all (\<lambda>r. json_ok (JObj r)) results \<and> CHR ''{'' \<notin> set spoken)"

lemma result_key_inject:
  "json_ok (JObj d) \<Longrightarrow> json_ok (JObj d') \<Longrightarrow> result_key d = result_key d' \<longleftrightarrow> sorted_dict d = sorted_dict d'"
  unfolding result_key_def dumps_sorted_obj
  by (rule json_line.encode_inject) (rule json_ok_sorted_dict, assumption)+

lemma restated_objects:
  assumes "restated agent iid evs body" "d \<in> set (turn_payloads iid evs)" "is_audited d" "json_ok (JObj d)"
  shows "sorted_dict d \<in> set (json_objects_in body)"
proof -
  from assms(1) obtain results spoken where r: "restate_structured_results agent iid evs = Inr (Some body)"
    "collect_results agent iid evs ([], {}) [] = Inr (results, spoken)"
    "list_all (\<lambda>r. json_ok (JObj r)) results" "CHR ''{'' \<notin> set spoken" by (auto simp: restated_def)
  note c = collect_results_first [OF r(2)]
  have "result_key d \<in> result_key ` set results"
    using assms(2,3) by (simp add: c first_by_keys)
  then obtain d' where d': "d' \<in> set results" "result_key d' = result_key d" by auto
  then have "json_ok (JObj d')" using r(3) by (auto simp: list_all_iff)
  with d'(2) assms(4) have "sorted_dict d' = sorted_dict d" using result_key_inject by blast
  then show ?thesis using restate_scan [OF r] d'(1) by (metis image_eqI image_set)
qed

lemma restated_only:
  assumes "restated agent iid evs body" "obj \<in> set (json_objects_in body)"
  obtains d where "d \<in> set (turn_payloads iid evs)" "is_audited d" "json_ok (JObj d)" "obj = sorted_dict d"
proof -
  from assms(1) obtain results spoken where r: "restate_structured_results agent iid evs = Inr (Some body)"
    "collect_results agent iid evs ([], {}) [] = Inr (results, spoken)"
    "list_all (\<lambda>r. json_ok (JObj r)) results" "CHR ''{'' \<notin> set spoken" by (auto simp: restated_def)
  from assms(2) obtain d where d: "d \<in> set results" "obj = sorted_dict d"
    using restate_scan [OF r] by auto
  then have "d \<in> set (turn_payloads iid evs)" "is_audited d"
    using collect_results_first [OF r(2)] first_by_set by fastforce+
  with d r(3) that show thesis by (auto simp: list_all_iff)
qed

definition carries :: "event \<Rightarrow> string \<Rightarrow> bool" where
  "carries e body \<longleftrightarrow> (\<exists>(tool, reply) \<in> set (ev_responses e). body \<in> str_leaves reply)"

lemma carried_text: "carries e body \<Longrightarrow> e \<in> set evs \<Longrightarrow> body \<in> set (concat (map reply_texts evs))"
  using unpack_leaves reply_texts_response by (fastforce simp: carries_def)

section \<open>The replies of the publishing tool\<close>

definition publish_reply :: "string \<Rightarrow> string \<Rightarrow> string \<Rightarrow> string \<Rightarrow> json_dict" where
  "publish_reply v label approver note_text = fst (publish_result v label approver note_text [])"

lemma publish_reply_fst: "fst (publish_result v label approver note_text pubs) = publish_reply v label approver note_text"
  by (simp add: publish_reply_def publish_result_def Let_def)

lemma publish_reply_audited: "is_audited (publish_reply v label approver note_text)"
  by (simp add: publish_reply_def publish_result_def is_audited_def audited_def AUDITED_STATUSES_def Let_def)

lemma publish_reply_keys: "distinct (map fst (publish_reply v label approver note_text))"
  by (simp add: publish_reply_def publish_result_def Let_def)

definition approved_content :: "string \<Rightarrow> string \<Rightarrow> json_dict" where
  "approved_content v label =
     [(''action'', JStr PUBLISH_ACTION), (''label'', JStr label), (''value'', JStr (canonical_value v))]"

lemma sorted_proposal: "sorted_dict (publish_proposal (canonical_value v) label) = approved_content v label"
  by (simp add: sorted_dict_def publish_proposal_def approved_content_def)

lemma sort_keys_str: "sort_keys (JStr s) = JStr s"
  by simp

lemma proposal_reported:
  assumes "strip approver = []"
  shows "reported_proposal (sorted_dict (publish_reply v label approver note_text)) = Some (approved_content v label)"
  using assms publish_reply_keys [of v label approver note_text]
  by (simp add: reported_proposal_Some_iff dict_get_sorted_dict publish_reply_def publish_result_def Let_def
    sorted_proposal sort_keys_obj sort_keys_str del: sort_keys.simps)

lemma published_confirms_approved:
  "confirms (approved_content v label) (sorted_dict (publish_reply w l approver note_text)) \<longleftrightarrow>
   strip approver \<noteq> [] \<and> canonical_value w = canonical_value v \<and> l = label"
proof -
  have "dict_ok (publish_reply w l approver note_text)"
    using publish_reply_keys by (simp add: dict_ok_def dict_keys_def)
  then show ?thesis
    by (auto simp: confirms_sorted)
      (auto simp: confirms_def wanted_def approved_content_def publish_reply_def publish_result_def Let_def
        APPROVAL_REQUIRED_def PUBLISHED_def PUBLISH_ACTION_def split: if_splits)
qed

section \<open>Every reported proposal is opened\<close>

text \<open>The ids of the next \<open>k\<close> draws are new and differ from each other.\<close>

definition ids_fresh :: "('s, 'w) deployment \<Rightarrow> case_map \<Rightarrow> nat \<Rightarrow> nat \<Rightarrow> bool" where
  "ids_fresh dep m n k \<longleftrightarrow>
     inj_on (\<lambda>i. new_proposal_id (dep_uuid dep i)) {n..<n + k} \<and>
     (\<forall>i \<in> {n..<n + k}. m (new_proposal_id (dep_uuid dep i)) = None)"

lemma ids_fresh_Suc:
  assumes "ids_fresh dep m n (Suc k)"
  shows "m (new_proposal_id (dep_uuid dep n)) = None"
    "ids_fresh dep (m(new_proposal_id (dep_uuid dep n) \<mapsto> c)) (Suc n) k" "ids_fresh dep m (Suc n) k"
proof -
  have sub: "{Suc n..<Suc n + k} \<subseteq> {n..<n + Suc k}" by auto
  from assms have f: "inj_on (\<lambda>i. new_proposal_id (dep_uuid dep i)) {n..<n + Suc k}"
    "\<forall>i \<in> {n..<n + Suc k}. m (new_proposal_id (dep_uuid dep i)) = None" by (auto simp: ids_fresh_def)
  then show "m (new_proposal_id (dep_uuid dep n)) = None" by simp
  show "ids_fresh dep m (Suc n) k"
    using f sub inj_on_subset [OF f(1) sub] by (auto simp: ids_fresh_def)
  moreover have "new_proposal_id (dep_uuid dep i) \<noteq> new_proposal_id (dep_uuid dep n)" if "i \<in> {Suc n..<Suc n + k}" for i
    using inj_onD [OF f(1), of i n] that by auto
  ultimately show "ids_fresh dep (m(new_proposal_id (dep_uuid dep n) \<mapsto> c)) (Suc n) k"
    by (auto simp: ids_fresh_def)
qed

lemma ids_fresh_less: "ids_fresh dep m n (Suc k) \<Longrightarrow> ids_fresh dep m n k"
  by (auto simp: ids_fresh_def intro: inj_on_subset)

context case_store_spec
begin

lemma open_cases_complete:
  assumes "dep_store dep = S" "clock_aware dep" "inv (st_store st)"
    and "open_cases dep sid objs st = (Inr opened, st')"
    and "ids_fresh dep (cases_of (st_store st)) (st_draws st) (length objs)"
  shows "list_all2 (\<lambda>obj c. dict_of_field (dict_get obj ''proposal'') = Inr (ac_proposal c)) objs opened"
  using assms(3-5)
proof (induction objs arbitrary: st opened)
  case (Cons obj objs)
  from Cons.prems(2) assms(2) show ?case
  proof (cases rule: open_cases_ConsE)
    case (opened c b s st1 r)
    note ids = ids_fresh_Suc [OF Cons.prems(3) [unfolded list.size add_Suc_right add_0_right]]
    have s: "inv s" "b" "cases_of s = (cases_of (st_store st))(ac_proposal_id c \<mapsto> c)"
      using open_spec [OF Cons.prems(1) opened(1) opened(6) [unfolded assms(1)]] ids(1) opened(4) by auto
    then obtain ds where ds: "r = Inr ds" "Inr opened = Inr (c # ds)" using opened(9) by (cases r) auto
    have "list_all2 (\<lambda>obj c. dict_of_field (dict_get obj ''proposal'') = Inr (ac_proposal c)) objs ds"
      using Cons.IH [OF _ opened(8) [unfolded ds(1)]] s ids(2) [of c] opened(4,7) by (simp del: fun_upd_apply)
    then show ?thesis using ds(2) opened(5) by simp
  qed simp
qed simp

end

section \<open>Content, not spelling\<close>

text \<open>Only the content of a proposal counts for what confirms it, not the order of its keys.\<close>

lemma wanted_sorted: "set (wanted (sorted_dict p)) = set (wanted p)"
proof -
  have s: "is_scalar (sort_keys v) = is_scalar v" "is_scalar v \<Longrightarrow> sort_keys v = v" for v by (cases v; simp)+
  show ?thesis by (auto simp: wanted_def sorted_dict_def s) (force simp: s)+
qed

lemma confirms_sorted_proposal: "confirms (sorted_dict p) obj = confirms p obj"
  by (simp add: confirms_def wanted_sorted)

lemma find_execution_exists:
  assumes "text \<in> set texts" "obj \<in> set (json_objects_in text)" "confirms p obj"
  obtains performed where "find_execution texts p = Some performed" "confirms p performed"
proof (cases "find_execution texts p")
  case None
  with assms show thesis by (auto simp: find_execution_find find_None_iff)
qed (use find_execution_SomeD that in blast)

text \<open>A proposal that an object of the texts reports is the content of a proposal that is found.\<close>

lemma reported_is_found:
  assumes "text \<in> set texts" "obj \<in> set (json_objects_in text)" "reported_proposal obj = Some p"
    and "\<forall>obj \<in> set (reported texts). json_ok (JObj obj)"
  obtains obj' p' where "obj' \<in> set (find_proposals texts)" "reported_proposal obj' = Some p'"
    "sorted_dict p' = sorted_dict p"
proof -
  have r: "obj \<in> set (reported texts)" using assms(1-3) by (auto simp: in_reported_iff)
  then have "proposal_key obj \<in> proposal_key ` set (find_proposals texts)"
    by (simp add: find_proposals_first first_by_keys)
  then obtain obj' where obj': "obj' \<in> set (find_proposals texts)" "proposal_key obj' = proposal_key obj" by auto
  then obtain p' where p': "reported_proposal obj' = Some p'" using find_proposals_reported by blast
  have "obj' \<in> set (reported texts)" using obj'(1) first_by_set by (fastforce simp: find_proposals_first)
  then have ok: "json_ok (JObj obj)" "json_ok (JObj obj')" using assms(4) r by auto
  have field: "json_ok v" if "dict_get x k = Some v" "json_ok (JObj x)" for x k v
    using that map_of_SomeD by (fastforce simp: list_all_iff)
  have "json_ok (JObj q)" if "reported_proposal x = Some q" "json_ok (JObj x)" for x q
    using that(1) [unfolded reported_proposal_Some_iff] field that(2) by blast
  then have "json_ok (JObj p)" "json_ok (JObj p')" using ok assms(3) p' by blast+
  moreover have "result_key p' = result_key p"
    using obj'(2) p' assms(3) by (simp add: proposal_key_def result_key_def)
  ultimately have "sorted_dict p' = sorted_dict p" using result_key_inject by blast
  then show thesis using that obj'(1) p' by blast
qed

lemma sorted_approved: "sorted_dict (approved_content v label) = approved_content v label"
  by (simp add: sorted_dict_def approved_content_def)

section \<open>The two halves of an approval\<close>

text \<open>C4. End to end, the way of a proposal: when a specialist's \<^verbatim>\<open>publish_result\<close> answered without an approver, its callback restated the turn as text, and that text came back anywhere inside a peer's tool reply, then a run that returns has stored a PENDING case of the session whose proposal is the canonical value and the label of that call.\<close>

theorem proposal_reaches_the_queue:
  assumes "dep_store dep = DatabaseCaseStore d" "clock_aware dep" "db_inv d (st_store st)"
    and "ids_fresh dep (db_cases (st_store st)) (st_draws st) (Suc (length (find_proposals (concat (map reply_texts evs)))))"
    and "run_session dep (run_session_id req) st = (sid, st1)"
    and "fst (dep_runner dep (run_user_id req) sid (run_text req) (st_world st)) = Inr evs"
    and "\<forall>obj \<in> set (reported (concat (map reply_texts evs))). json_ok (JObj obj)"
    and "e \<in> set evs" "carries e body" "restated agent iid sevs body"
    and "publish_reply v label approver n \<in> set (turn_payloads iid sevs)"
    and "json_ok (JObj (publish_reply v label approver n))" "strip approver = []"
    and "cases_run dep req st = (Inr resp, st')"
  shows "\<exists>c. db_get (ac_proposal_id c) (st_store st') = Some c \<and> ac_status c = PENDING \<and> ac_session_id c = sid \<and>
    sorted_dict (ac_proposal c) = approved_content v label"
proof -
  let ?texts = "concat (map reply_texts evs)"
  obtain r st2 where t: "run_turn dep (run_user_id req) sid (run_text req) st1 = (r, st2)" by fastforce
  have s1: "st_store st1 = st_store st" "st_world st1 = st_world st" "st_draws st \<le> st_draws st1"
    using assms(5) by (auto simp: run_session_def split: option.splits if_splits)
  have ids: "ids_fresh dep (db_cases (st_store st)) (st_draws st1) (length (find_proposals ?texts))"
    using assms(4,5) ids_fresh_less ids_fresh_Suc(3)
    by (fastforce simp: run_session_def split: option.splits if_splits)
  note t' = run_turn_Pair [OF t]
  have r: "r = Inr (foldl collect_event new_turn evs)" using t' s1 assms(6) by simp
  have d2: "st_draws st2 = st_draws st1" using t by (auto simp: run_turn_def split: prod.splits)
  obtain opened where o: "open_cases dep sid (find_proposals ?texts) st2 = (Inr opened, st')"
    using assms(5,14) t r by (auto simp: cases_run_def split: prod.splits sum.splits)
  have inv2: "db_inv d (st_store st2)" using assms(3) t' s1 by simp
  have "body \<in> set ?texts" using carried_text assms(8,9) by blast
  moreover have "sorted_dict (publish_reply v label approver n) \<in> set (json_objects_in body)"
    using restated_objects [OF assms(10,11) publish_reply_audited assms(12)] .
  ultimately obtain obj p where obj: "obj \<in> set (find_proposals ?texts)" "reported_proposal obj = Some p"
    "sorted_dict p = sorted_dict (approved_content v label)"
    using reported_is_found [OF _ _ proposal_reported [OF assms(13)] assms(7)] by metis
  have all: "list_all2 (\<lambda>obj c. dict_of_field (dict_get obj ''proposal'') = Inr (ac_proposal c)) (find_proposals ?texts) opened"
  proof (rule db.open_cases_complete [OF assms(1,2) inv2 o])
    show "ids_fresh dep (db_cases (st_store st2)) (st_draws st2) (length (find_proposals ?texts))"
      using ids s1 t' d2 by simp
  qed
  obtain i where i: "i < length (find_proposals ?texts)" "find_proposals ?texts ! i = obj"
    using obj(1) by (auto simp: in_set_conv_nth)
  define c where "c = opened ! i"
  have c: "c \<in> set opened" "dict_of_field (dict_get obj ''proposal'') = Inr (ac_proposal c)"
    using list_all2_nthD [OF all i(1)] list_all2_lengthD [OF all] i by (auto simp: c_def)
  from c(2) have "ac_proposal c = p"
    using obj(2) by (auto simp: reported_proposal_Some_iff dict_of_field_def split: if_splits)
  moreover have "db_cases (st_store st') (ac_proposal_id c) = Some c \<and> ac_status c = PENDING \<and> ac_session_id c = sid"
    using db.open_cases_effect [OF assms(1,2) inv2 o] c(1) by blast
  ultimately show ?thesis using obj(3) by (auto simp: db_get_cases sorted_approved)
qed

text \<open>C3. End to end, the way back: a pending case for a value and a label is approved, and in the execution turn a specialist publishes a value of the same canonical spelling under that label for a named approver; once that reply has come back through the callback and the peer's tool, the case is stored as EXECUTED with a result that confirms its proposal.\<close>

theorem approved_publication_is_executed:
  assumes "dep_store dep = DatabaseCaseStore d" "clock_aware dep" "db_inv d (st_store st)"
    and "name_fits d (dec_decided_by decision)" "db_get pid (st_store st) = Some c0"
    and "ac_status c0 = PENDING" "dec_approved decision" "sorted_dict (ac_proposal c0) = approved_content v label"
    and "c = decided_now dep decision st c0"
    and "fst (dep_runner dep user (ac_session_id c) (execution_instruction c) (st_world st)) = Inr evs"
    and "e \<in> set evs" "carries e body" "restated agent iid sevs body"
    and "publish_reply w label approver n \<in> set (turn_payloads iid sevs)"
    and "json_ok (JObj (publish_reply w label approver n))"
    and "strip approver \<noteq> []" "canonical_value w = canonical_value v"
    and "case_decide dep pid decision user st = (resp, st')"
  shows "\<exists>performed. confirms (ac_proposal c0) performed \<and>
    db_get pid (st_store st') = Some (executed (dep_clock dep (Suc (st_ticks st))) True performed c)"
proof -
  let ?obj = "sorted_dict (publish_reply w label approver n)"
  have "body \<in> set (concat (map reply_texts evs))" using carried_text assms(11,12) by blast
  moreover have "?obj \<in> set (json_objects_in body)"
    using restated_objects [OF assms(13,14) publish_reply_audited assms(15)] .
  moreover have p: "ac_proposal c = ac_proposal c0" by (simp add: assms(9) decided_now_def)
  have "confirms (ac_proposal c) ?obj"
    unfolding p confirms_sorted_proposal [of "ac_proposal c0", symmetric] assms(8)
    using assms(16,17) by (simp add: published_confirms_approved)
  ultimately obtain performed where f: "find_execution (concat (map reply_texts evs)) (ac_proposal c) = Some performed"
    "confirms (ac_proposal c) performed" by (rule find_execution_exists)
  then have "confirmation dep user c (st_world st) = Some performed"
    using assms(10) by (simp add: confirmation_def)
  with db.case_decide_approves [OF assms(1-4) _ _ assms(18), of c0 c] assms(5-7,9) f(2) p
  show ?thesis by (auto simp: db_get_cases)
qed


section \<open>One publication from end to end\<close>

definition flow_reply :: "string \<Rightarrow> json_dict" where
  "flow_reply approver = publish_reply ''42'' ''q3'' approver ''ok''"

definition flow_event :: "string \<Rightarrow> session_event" where
  "flow_event approver = \<lparr>ev_author = ''math'', ev_calls = [], ev_responses = [(''publish_result'', JObj (flow_reply approver))],
     ev_content = None, ev_error = None, ev_final = False, ev_invocation = ''i1''\<rparr>"

definition flow_body :: "string \<Rightarrow> string" where
  "flow_body approver = restate_blocks [flow_reply approver]"

definition relay_event :: "string \<Rightarrow> event" where
  "relay_event approver = \<lparr>ev_author = ''orchestrator'', ev_calls = [], ev_responses = [(''math'', JStr (flow_body approver))],
     ev_content = None, ev_error = None, ev_final = False\<rparr>"

definition flow_runner :: "nat runner" where
  "flow_runner user session txt w = (Inr [relay_event (if w = 0 then [] else ''alice'')], Suc w)"

definition flow_dep :: "(case_table, nat) deployment" where
  "flow_dep = \<lparr>dep_store = DatabaseCaseStore SQLite, dep_runner = flow_runner,
     dep_uuid = (\<lambda>n. replicate 32 (if n = 0 then CHR ''a'' else CHR ''b'')), dep_clock = (\<lambda>n. Aware (int n))\<rparr>"

definition flow_start :: "(case_table, nat) app_state" where
  "flow_start = \<lparr>st_store = [], st_world = 0, st_draws = 0, st_ticks = 0\<rparr>"

definition flow_decision :: CaseDecision where
  "flow_decision = \<lparr>dec_approved = True, dec_note = ''ok'', dec_decided_by = ''alice''\<rparr>"

definition flow_request :: CaseRun where
  "flow_request = \<lparr>run_text = ''Publish 42 as q3.'', run_session_id = Some ''s1'', run_user_id = ''u''\<rparr>"

lemma canonical_42: "canonical_value ''42'' = ''42''"
proof -
  have "isdigit ''42''" "nat_of_digits ''42'' = 42" by code_simp+
  moreover have "nat_str 42 = ''42''" by code_simp
  ultimately show ?thesis using canonical_digits(1) [of "''42''"] by simp
qed

lemma flow_reply_is:
  "flow_reply [] = [(''status'', JStr ''approval_required''), (''action'', JStr ''publish_result''),
     (''proposal'', JObj [(''action'', JStr ''publish_result''), (''value'', JStr ''42''), (''label'', JStr ''q3'')]),
     (''summary'', JStr (''Publish '' @ repr ''42'' @ '' under label '' @ repr ''q3'' @ ''.''))]"
  "flow_reply ''alice'' = [(''status'', JStr ''published''), (''action'', JStr ''publish_result''),
     (''note'', JStr ''ok''), (''value'', JStr ''42''), (''label'', JStr ''q3''), (''approved_by'', JStr ''alice'')]"
  by (simp_all add: flow_reply_def publish_reply_def publish_result_def Let_def canonical_42 publish_proposal_def
    APPROVAL_REQUIRED_def PUBLISHED_def PUBLISH_ACTION_def strip_def strip_of_def lstrip_of_def rstrip_of_def is_space_def)

lemma summary_text: "''Publish '' @ repr ''42'' @ '' under label '' @ repr ''q3'' @ ''.'' = ''Publish '' @ [CHR 0x27] @ ''42'' @ [CHR 0x27] @ '' under label '' @ [CHR 0x27] @ ''q3'' @ [CHR 0x27] @ ''.''"
  by code_simp

lemma flow_reply_ok: "json_ok (JObj (flow_reply []))" "json_ok (JObj (flow_reply ''alice''))"
  unfolding flow_reply_is summary_text by (simp_all add: ascii_text_ok ascii_def)

lemma flow_collected:
  assumes "approver \<in> {[], ''alice''}"
  shows "collect_results ''math'' ''i1'' [flow_event approver] ([], {}) [] = Inr ([flow_reply approver], [])"
    "turn_payloads ''i1'' [flow_event approver] = [flow_reply approver]"
proof -
  have p: "payloads (flow_event approver) = [flow_reply approver]"
    using assms by (auto simp: payloads_def flow_event_def List.map_filter_simps response_payload_def flow_reply_is)
  moreover have "audited (flow_reply approver) = Inr True"
    using publish_reply_audited by (simp add: flow_reply_def is_audited_def)
  moreover have "spoken_text ''math'' (flow_event approver) [] = []"
    by (simp add: spoken_text_def flow_event_def content_parts_def event.truncate_def parts_text_def)
  moreover have "ev_invocation (flow_event approver) = ''i1''" by (simp add: flow_event_def)
  ultimately show "collect_results ''math'' ''i1'' [flow_event approver] ([], {}) [] = Inr ([flow_reply approver], [])"
    "turn_payloads ''i1'' [flow_event approver] = [flow_reply approver]"
    by (simp_all add: turn_payloads_def)
qed

lemma flow_restated:
  assumes "approver \<in> {[], ''alice''}"
  shows "restated ''math'' ''i1'' [flow_event approver] (flow_body approver)"
  using flow_collected(1) [OF assms] flow_reply_ok assms
  by (auto simp: restated_def restate_structured_results_def Let_def flow_body_def simp del: json_ok.simps)

lemma flow_carries: "carries (relay_event approver) (flow_body approver)"
  by (simp add: carries_def relay_event_def)

lemma relay_texts: "reply_texts (relay_event approver) = [flow_body approver]"
  by (simp add: reply_texts_def relay_event_def content_parts_def parts_text_def Let_def)

lemma flow_objects:
  "approver \<in> {[], ''alice''} \<Longrightarrow> json_objects_in (flow_body approver) = [sorted_dict (flow_reply approver)]"
  using scan_blocks [of "[flow_reply approver]"] flow_reply_ok by (auto simp: flow_body_def simp del: json_ok.simps)

lemma flow_found: "find_proposals [flow_body []] = [sorted_dict (flow_reply [])]"
  using flow_objects [of "[]"] proposal_reported [of "[]" "''42''" "''q3''" "''ok''"]
  by (simp add: find_proposals_first reported_def flow_reply_def)

lemma flow_reported_ok: "\<forall>obj \<in> set (reported [flow_body []]). json_ok (JObj obj)"
  using flow_objects [of "[]"] json_ok_sorted_dict [OF flow_reply_ok(1)] by (auto simp: reported_def)

definition flow_case :: approval_case where
  "flow_case = ApprovalCase (Aware 0) ''s1'' (replicate 12 CHR ''a'') [] ''publish_result''
     (str_field (flow_reply []) ''summary'') (approved_content ''42'' ''q3'') ''s1''"

lemma flow_opened:
  "open_cases flow_dep ''s1'' [sorted_dict (flow_reply [])] (flow_start\<lparr>st_world := Suc 0\<rparr>) =
   (Inr [flow_case], flow_start\<lparr>st_store := [insert_row SQLite flow_case], st_world := Suc 0, st_draws := 1, st_ticks := 1\<rparr>)"
proof -
  have r: "reported_proposal (sorted_dict (flow_reply [])) = Some (approved_content ''42'' ''q3'')"
    unfolding flow_reply_def by (rule proposal_reported) simp
  have "dict_get (sorted_dict (flow_reply [])) k = map_option sort_keys (dict_get (flow_reply []) k)" for k
    by (rule dict_get_sorted_dict) (simp add: flow_reply_is)
  with case_from_proposal_found [OF r, of "Aware 0" "replicate 32 CHR ''a''" "''s1''" "''s1''" "[]"]
  have "case_from_proposal (Aware 0) (replicate 32 CHR ''a'') (sorted_dict (flow_reply [])) ''s1'' ''s1'' [] = Inr flow_case"
    by (simp add: flow_case_def str_field_def flow_reply_is py_str_def)
  then show ?thesis
    by (simp add: flow_dep_def flow_start_def DatabaseCaseStore_def db_open_def select_row_def row_fits_def)
qed

definition flow_state :: "(case_table, nat) app_state" where
  "flow_state = flow_start\<lparr>st_store := [insert_row SQLite flow_case], st_world := Suc 0, st_draws := 1, st_ticks := 1\<rparr>"

lemma flow_dep_simps: "dep_store flow_dep = DatabaseCaseStore SQLite" "clock_aware flow_dep" "dep_runner flow_dep = flow_runner"
  by (simp_all add: flow_dep_def clock_aware_def)

lemma flow_run: "snd (cases_run flow_dep flow_request flow_start) = flow_state" "\<not> isl (fst (cases_run flow_dep flow_request flow_start))"
proof -
  have t: "run_turn flow_dep ''u'' ''s1'' ''Publish 42 as q3.'' flow_start =
      (Inr (foldl collect_event new_turn [relay_event []]), flow_start\<lparr>st_world := Suc 0\<rparr>)"
    by (simp add: run_turn_def flow_dep_simps flow_runner_def flow_start_def)
  have "find_proposals (turn_texts (foldl collect_event new_turn [relay_event []])) = [sorted_dict (flow_reply [])]"
    unfolding turn_texts_events by (simp add: relay_texts flow_found)
  then show "snd (cases_run flow_dep flow_request flow_start) = flow_state"
    "\<not> isl (fst (cases_run flow_dep flow_request flow_start))"
    by (simp_all add: cases_run_def flow_request_def run_session_def t flow_opened flow_state_def del: foldl.simps open_cases.simps)
qed

lemma flow_inv: "db_inv SQLite (st_store flow_start)" "db_inv SQLite (st_store flow_state)"
proof -
  show e: "db_inv SQLite (st_store flow_start)" by (simp add: flow_start_def db_inv_def table_ok_def)
  have "db_inv SQLite (st_store (flow_start\<lparr>st_world := Suc 0\<rparr>))" using e by simp
  from db.open_cases_effect [OF flow_dep_simps(1,2) this flow_opened]
  show "db_inv SQLite (st_store flow_state)" by (simp add: flow_state_def)
qed

lemma flow_case_id: "ac_proposal_id flow_case = replicate 12 CHR ''a''"
  by (simp add: flow_case_def ApprovalCase_def)

theorem proposal_reaches_the_queue_witness:
  "\<exists>c. db_get (ac_proposal_id c) (st_store flow_state) = Some c \<and> sorted_dict (ac_proposal c) = approved_content ''42'' ''q3''"
proof -
  let ?r = "cases_run flow_dep flow_request flow_start"
  obtain resp where r: "?r = (Inr resp, flow_state)"
    using flow_run by (cases "fst ?r") (auto simp: prod_eq_iff)
  have ids: "ids_fresh flow_dep (db_cases (st_store flow_start)) (st_draws flow_start)
      (Suc (length (find_proposals (concat (map reply_texts [relay_event []])))))"
    by (auto simp: relay_texts flow_found ids_fresh_def flow_start_def db_get_cases [symmetric] db_get_def select_row_def
        new_proposal_id_def flow_dep_def inj_on_def)
  have run: "fst (dep_runner flow_dep (run_user_id flow_request) ''s1'' (run_text flow_request) (st_world flow_start)) = Inr [relay_event []]"
    by (simp add: flow_dep_simps flow_runner_def flow_start_def)
  have ok: "\<forall>obj \<in> set (reported (concat (map reply_texts [relay_event []]))). json_ok (JObj obj)"
    using flow_reported_ok by (simp add: relay_texts)
  have s: "run_session flow_dep (run_session_id flow_request) flow_start = (''s1'', flow_start)"
    by (simp add: run_session_def flow_request_def)
  have "publish_reply ''42'' ''q3'' [] ''ok'' \<in> set (turn_payloads ''i1'' [flow_event []])"
    using flow_collected(2) [of "[]"] by (simp add: flow_reply_def)
  from proposal_reaches_the_queue [OF flow_dep_simps(1,2) flow_inv(1) ids s run ok _ flow_carries flow_restated this
      flow_reply_ok(1) [unfolded flow_reply_def] _ r]
  show ?thesis by auto
qed

lemma flow_case_facts:
  "ac_status flow_case = PENDING" "sorted_dict (ac_proposal flow_case) = approved_content ''42'' ''q3''"
  "ac_proposal flow_case = approved_content ''42'' ''q3''"
  by (simp_all add: flow_case_def ApprovalCase_def sorted_approved)

lemma flow_stored: "db_get (replicate 12 CHR ''a'') (st_store flow_state) = Some flow_case"
proof -
  have "db_cases (st_store flow_state) (ac_proposal_id flow_case) = Some flow_case"
    using db.open_cases_effect [OF flow_dep_simps(1,2) _ flow_opened] flow_inv(1) by (simp add: flow_state_def)
  then show ?thesis unfolding flow_case_id by (simp add: db_get_cases)
qed

theorem approved_publication_is_executed_witness:
  "\<exists>performed t. confirms (approved_content ''42'' ''q3'') performed \<and>
     db_get (replicate 12 CHR ''a'') (st_store (snd (case_decide flow_dep (replicate 12 CHR ''a'') flow_decision ''u'' flow_state))) =
       Some (executed t True performed (decided_now flow_dep flow_decision flow_state flow_case))"
proof -
  let ?r = "case_decide flow_dep (replicate 12 CHR ''a'') flow_decision ''u'' flow_state"
  let ?c = "decided_now flow_dep flow_decision flow_state flow_case"
  have n: "name_fits SQLite (dec_decided_by flow_decision)" by (simp add: name_fits_def)
  have run: "fst (dep_runner flow_dep ''u'' (ac_session_id ?c) (execution_instruction ?c) (st_world flow_state)) = Inr [relay_event ''alice'']"
    by (simp add: flow_dep_simps flow_runner_def flow_state_def)
  have m: "publish_reply ''42'' ''q3'' ''alice'' ''ok'' \<in> set (turn_payloads ''i1'' [flow_event ''alice''])"
    using flow_collected(2) [of "''alice''"] by (simp add: flow_reply_def)
  have a: "strip ''alice'' \<noteq> []" by code_simp
  have d: "dec_approved flow_decision" by (simp add: flow_decision_def)
  have "?r = (fst ?r, snd ?r)" by simp
  from approved_publication_is_executed [OF flow_dep_simps(1,2) flow_inv(2) n flow_stored flow_case_facts(1) d flow_case_facts(2) refl run _ flow_carries flow_restated m
      flow_reply_ok(2) [unfolded flow_reply_def] a refl this]
  show ?thesis by (auto simp: flow_case_facts(3))
qed


end
