(* ===== verification/Requests.thy ===== *)
theory Requests
  imports Case_Protocol Approval_Flow
begin

text \<open>
  A server's life as the sequence of the requests it answers on \<^verbatim>\<open>/cases\<close> (\<^verbatim>\<open>app/fast_api_app.py\<close>).
  Every endpoint, run on a store, is a sequence of steps of the protocol, so that what holds of
  reachable states holds after any history; and the history says who decided what.
\<close>

section \<open>Requests\<close>

text \<open>The four routes, each with what its handler takes from the request.\<close>

datatype http_request =
    RunCase CaseRun
  | ListCases string
  | CaseDetail string
  | DecideCase string CaseDecision string

fun handle ::
  "('s, 'w) deployment \<Rightarrow> http_request \<Rightarrow> ('s, 'w) app_state \<Rightarrow> json result \<times> ('s, 'w) app_state" where
  "handle dep (RunCase req) st = cases_run dep req st"
| "handle dep (ListCases status) st = cases_list dep status st"
| "handle dep (CaseDetail pid) st = case_detail dep pid st"
| "handle dep (DecideCase pid decision user) st = case_decide dep pid decision user st"

fun handle_all ::
  "('s, 'w) deployment \<Rightarrow> http_request list \<Rightarrow> ('s, 'w) app_state \<Rightarrow> json result list \<times> ('s, 'w) app_state" where
  "handle_all dep [] st = ([], st)"
| "handle_all dep (q # qs) st =
     (case handle dep q st of (resp, st1) \<Rightarrow>
        (case handle_all dep qs st1 of (resps, st2) \<Rightarrow> (resp # resps, st2)))"

lemma run_session_store: "run_session dep s st = (sid, st1) \<Longrightarrow> st_store st1 = st_store st"
  by (auto simp: run_session_def split: option.splits if_splits)

lemma read_only: "st_store (snd (cases_list dep s st)) = st_store st" "st_store (snd (case_detail dep pid st)) = st_store st"
  by (simp_all add: cases_list_def case_detail_def split: option.splits)

text \<open>A run either stores nothing or ends in the loop over the proposals it found.\<close>

lemma cases_runE:
  assumes "cases_run dep req st = (resp, st')"
  obtains (failed) "st_store st' = st_store st"
  | (looped) sid objs st1 r where "open_cases dep sid objs st1 = (r, st')" "st_store st1 = st_store st"
proof -
  obtain sid st1 where s: "run_session dep (run_session_id req) st = (sid, st1)" by fastforce
  obtain r st2 where t: "run_turn dep (run_user_id req) sid (run_text req) st1 = (r, st2)" by fastforce
  have same: "st_store st2 = st_store st" using run_session_store [OF s] run_turn_Pair [OF t] by simp
  show thesis
  proof (cases r)
    case (Inl e)
    with assms s t same show thesis by (intro failed) (simp add: cases_run_def)
  next
    case (Inr turn)
    obtain ro st3 where o: "open_cases dep sid (find_proposals (turn_texts turn)) st2 = (ro, st3)" by fastforce
    have "st3 = st'" using assms s t Inr o by (cases ro) (auto simp: cases_run_def)
    with o same show thesis using looped by blast
  qed
qed

section \<open>Every endpoint is a run of the protocol\<close>

lemma p_store_same: "p_store p = s \<Longrightarrow> p\<lparr>p_store := s\<rparr> = p"
  by (cases p) simp

context case_store_spec
begin

lemma open_cases_steps:
  assumes "dep_store dep = S" "clock_aware dep"
  shows "p_store p = st_store st \<Longrightarrow> open_cases dep sid objs st = (resp, st') \<Longrightarrow>
    rtranclp (protocol_step S) p (p\<lparr>p_store := st_store st'\<rparr>)"
proof (induction objs arbitrary: st p resp)
  case (Cons obj objs)
  from Cons.prems(2) assms(2) show ?case
  proof (cases rule: open_cases_ConsE)
    case (failed e)
    with Cons.prems(1) show ?thesis by (simp add: p_store_same)
  next
    case (opened c b s st1 r)
    have "protocol_step S p (p\<lparr>p_store := s\<rparr>)"
      using opened(1,2,6) assms(1) Cons.prems(1) by (intro step_open [where b = b and c = c]) simp_all
    moreover have "rtranclp (protocol_step S) (p\<lparr>p_store := s\<rparr>) (p\<lparr>p_store := st_store st'\<rparr>)"
      using Cons.IH [OF _ opened(8), of "p\<lparr>p_store := s\<rparr>"] opened(7) by simp
    ultimately show ?thesis by (rule converse_rtranclp_into_rtranclp)
  qed
qed (simp add: p_store_same)

lemma cases_run_steps:
  assumes "dep_store dep = S" "clock_aware dep" "p_store p = st_store st" "cases_run dep req st = (resp, st')"
  shows "rtranclp (protocol_step S) p (p\<lparr>p_store := st_store st'\<rparr>)"
  using assms(4)
proof (cases rule: cases_runE)
  case failed
  with assms(3) show ?thesis by (simp add: p_store_same)
next
  case (looped sid objs st1 r)
  with open_cases_steps [OF assms(1,2) _ looped(1), of p] assms(3) show ?thesis by simp
qed

lemma handle_steps:
  assumes "dep_store dep = S" "clock_aware dep" "inv (st_store st)" "p_store p = st_store st" "p_threads p h = None"
    and "handle dep q st = (resp, st')"
  shows "\<exists>turns. rtranclp (protocol_step S) p (p\<lparr>p_store := st_store st', p_turns := p_turns p @ turns\<rparr>)"
proof -
  have none: "\<exists>turns. rtranclp (protocol_step S) p (p\<lparr>p_store := st_store st', p_turns := p_turns p @ turns\<rparr>)"
    if "rtranclp (protocol_step S) p (p\<lparr>p_store := st_store st'\<rparr>)" using that by (intro exI [of _ "[]"]) simp
  show ?thesis
  proof (cases q)
    case (RunCase req)
    with cases_run_steps [OF assms(1,2,4)] assms(6) none show ?thesis by simp
  next
    case (ListCases s)
    with assms(4,6) none read_only(1) [of dep s st] show ?thesis by (simp add: p_store_same)
  next
    case (CaseDetail pid)
    with assms(4,6) none read_only(2) [of dep pid st] show ?thesis by (simp add: p_store_same)
  next
    case (DecideCase pid decision user)
    with case_decide_steps [OF assms(1-5)] assms(6) show ?thesis by simp
  qed
qed

lemma reachable_rtrancl: "rtranclp (protocol_step S) p p' \<Longrightarrow> reachable S s0 p \<Longrightarrow> reachable S s0 p'"
  by (induction rule: rtranclp_induct) (auto intro: reach_step)

lemma handle_all_reachable:
  assumes "dep_store dep = S" "clock_aware dep" "inv s0" "cases_of s0 = Map.empty"
  shows "reachable S s0 p \<Longrightarrow> p_store p = st_store st \<Longrightarrow> p_threads p = Map.empty \<Longrightarrow>
    handle_all dep qs st = (resps, st') \<Longrightarrow> \<exists>p'. reachable S s0 p' \<and> p_store p' = st_store st' \<and> p_threads p' = Map.empty"
proof (induction qs arbitrary: st p resps)
  case (Cons q qs)
  obtain r st1 where h: "handle dep q st = (r, st1)" by fastforce
  have i: "inv (st_store st)" using reachable_inv [OF Cons.prems(1) assms(3,4)] Cons.prems(2) by simp
  have "p_threads p 0 = None" using Cons.prems(3) by simp
  from handle_steps [OF assms(1,2) i Cons.prems(2) this h] obtain turns where
    "rtranclp (protocol_step S) p (p\<lparr>p_store := st_store st1, p_turns := p_turns p @ turns\<rparr>)" by blast
  from reachable_rtrancl [OF this Cons.prems(1)] Cons.IH [of _ st1] Cons.prems(3,4) h
  show ?case by (auto split: prod.splits)
qed auto


end

section \<open>Who decided\<close>

text \<open>A case that has left PENDING was decided by one of the requests, as the case says.\<close>

definition attributed :: "http_request list \<Rightarrow> approval_case \<Rightarrow> bool" where
  "attributed qs c \<longleftrightarrow> ac_status c = PENDING \<or>
     (\<exists>decision user. DecideCase (ac_proposal_id c) decision user \<in> set qs \<and>
        ac_status c \<in> (if dec_approved decision then {APPROVED, EXECUTED} else {REJECTED}) \<and>
        ac_decided_by c = dec_decided_by decision \<and> ac_note c = dec_note decision)"

lemma attributed_more: "attributed qs c \<Longrightarrow> set qs \<subseteq> set qs' \<Longrightarrow> attributed qs' c"
  by (fastforce simp: attributed_def)

lemma attributed_executed:
  "attributed qs c \<Longrightarrow> ac_status c = APPROVED \<Longrightarrow> attributed qs (executed t True r c)"
  by (auto simp: attributed_def split: if_splits)

lemma attributed_decided:
  "DecideCase (ac_proposal_id c) decision user \<in> set qs \<Longrightarrow>
   attributed qs (decided now (dec_approved decision) (dec_decided_by decision) (dec_note decision) c)"
  by (auto simp: attributed_def)

context case_store_spec
begin

lemma open_cases_new:
  assumes "dep_store dep = S" "clock_aware dep"
  shows "inv (st_store st) \<Longrightarrow> open_cases dep sid objs st = (resp, st') \<Longrightarrow> cases_of (st_store st') q = Some c' \<Longrightarrow>
    cases_of (st_store st) q = Some c' \<or> ac_status c' = PENDING"
proof (induction objs arbitrary: st resp)
  case (Cons obj objs)
  from Cons.prems(2) assms(2) show ?case
  proof (cases rule: open_cases_ConsE)
    case (failed e)
    with Cons.prems(3) show ?thesis by simp
  next
    case (opened c b s st1 r)
    from open_spec [OF Cons.prems(1) opened(1) opened(6) [unfolded assms(1)]]
    have s: "inv s" "cases_of s = (if b then (cases_of (st_store st))(ac_proposal_id c \<mapsto> c) else cases_of (st_store st))"
      by auto
    then have "cases_of s q = Some c' \<or> ac_status c' = PENDING"
      using Cons.IH [OF _ opened(8) Cons.prems(3)] opened(7) by simp
    then show ?thesis using s(2) opened(2) by (auto split: if_splits)
  qed
qed simp

text \<open>What a decision does to any case, whatever becomes of the request.\<close>

lemma case_decide_any:
  assumes "dep_store dep = S" "clock_aware dep" "inv (st_store st)"
    and run: "case_decide dep pid decision user st = (resp, st')"
    and "cases_of (st_store st') q = Some c'"
  shows "cases_of (st_store st) q = Some c' \<or>
    (\<exists>c. q = pid \<and> cases_of (st_store st) pid = Some c \<and> ac_status c = PENDING \<and>
       (c' = decided_now dep decision st c \<or>
        dec_approved decision \<and> (\<exists>t r. c' = executed t True r (decided_now dep decision st c)))) \<or>
    (\<exists>c t r. q = pid \<and> cases_of (st_store st) pid = Some c \<and> ac_status c \<notin> {PENDING, REJECTED, EXECUTED, FAILED} \<and>
       c' = executed t True r c)"
proof (cases "op_decide S (dep_clock dep (st_ticks st)) pid (dec_approved decision) (dec_decided_by decision)
    (dec_note decision) (st_store st)")
  case (Inl e)
  then have "st_store st' = st_store st" using run assms(1) by (auto simp: case_decide_def Let_def)
  then show ?thesis using assms(5) by simp
next
  case (Inr rs)
  obtain outcome found s where rs: "rs = ((outcome, found), s)" by (metis surj_pair)
  have aware: "is_aware (dep_clock dep (st_ticks st))" using assms(2) by (simp add: clock_aware_def)
  note sp = decide_spec [OF assms(3) aware Inr [unfolded rs]]
  let ?st2 = "st\<lparr>st_ticks := Suc (st_ticks st), st_store := s\<rparr>"
  show ?thesis
  proof (cases "to_execute (outcome, found)")
    case None
    then have "st_store st' = s"
      using run Inr rs assms(1) by (auto simp: case_decide_def to_execute_def Let_def split: option.splits if_splits)
    then show ?thesis
      using sp assms(5) by (auto simp: spec_decide_def decided_now_def split: option.splits if_splits)
  next
    case (Some c)
    then have c: "outcome \<noteq> NOT_FOUND" "found = Some c" "ac_status c \<notin> {REJECTED, EXECUTED, FAILED}"
      by (auto simp: to_execute_def split: option.splits if_splits)
    have cs: "cases_of s pid = Some c"
      using sp c by (auto simp: spec_decide_def split: option.splits if_splits)
    have "execute_case dep user pid c ?st2 = (resp, st')"
      using run Inr rs assms(1) c by (simp add: case_decide_def Let_def)
    from execute_case_effect [OF assms(1,2) _ _ this] sp cs
    have "cases_of (st_store st') = cases_of s \<or>
        (\<exists>t r. cases_of (st_store st') = (cases_of s)(pid \<mapsto> executed t True r c))"
      by (auto split: option.splits)
    then have "cases_of s q = Some c' \<or> (\<exists>t r. q = pid \<and> c' = executed t True r c)"
      using assms(5) by (cases "q = pid") (auto, blast)
    then show ?thesis
      using sp c by (auto simp: spec_decide_def decided_now_def split: option.splits if_splits)
  qed
qed

lemma decide_attributed:
  assumes "dep_store dep = S" "clock_aware dep" "inv (st_store st)"
    and "case_decide dep p decision user st = (resp, st')" "cases_of (st_store st') pid = Some c'"
    and old: "\<forall>pid c. cases_of (st_store st) pid = Some c \<longrightarrow> attributed qs c"
    and ok: "\<And>pid c. cases_of (st_store st) pid = Some c \<Longrightarrow> case_ok c"
    and more: "set qs \<subseteq> set qs'" and q: "DecideCase p decision user \<in> set qs'"
  shows "attributed qs' c'"
proof -
  have here: "attributed qs' (decided_now dep decision st c)" if "cases_of (st_store st) p = Some c" for c
  proof -
    have "DecideCase (ac_proposal_id c) decision user \<in> set qs'" using key_spec [OF assms(3) that] q by simp
    from attributed_decided [OF this] show ?thesis by (simp add: decided_now_def)
  qed
  from case_decide_any [OF assms(1-5)] show ?thesis
  proof (elim disjE exE conjE)
    fix c assume "cases_of (st_store st) p = Some c" "c' = decided_now dep decision st c"
    then show ?thesis using here by simp
  next
    fix c t r assume c: "cases_of (st_store st) p = Some c" "dec_approved decision"
      "c' = executed t True r (decided_now dep decision st c)"
    show ?thesis using attributed_executed [OF here [OF c(1)]] c(2,3) by (simp add: decided_now_def)
  next
    fix c t r assume c: "cases_of (st_store st) p = Some c" "ac_status c \<notin> {PENDING, REJECTED, EXECUTED, FAILED}"
      "c' = executed t True r c"
    have "ac_status c = APPROVED" using ok [OF c(1)] c(2) by (auto simp: case_ok_def)
    then show ?thesis using attributed_executed c(1,3) old more attributed_more by blast
  next
    assume "cases_of (st_store st) pid = Some c'"
    then show ?thesis using old more attributed_more by blast
  qed
qed

lemma handle_attributed:
  assumes "dep_store dep = S" "clock_aware dep" "inv (st_store st)" "handle dep q st = (resp, st')"
    and "\<forall>pid c. cases_of (st_store st) pid = Some c \<longrightarrow> attributed qs c"
    and "\<And>pid c. cases_of (st_store st) pid = Some c \<Longrightarrow> case_ok c"
    and "set qs \<subseteq> set qs'" "q \<in> set qs'" "cases_of (st_store st') pid = Some c'"
  shows "attributed qs' c'"
proof -
  have old: ?thesis if "cases_of (st_store st) pid = Some c'"
    using that assms(5,7) attributed_more by blast
  show ?thesis
  proof (cases q)
    case (RunCase req)
    with assms(4) have "cases_run dep req st = (resp, st')" by simp
    then show ?thesis
    proof (cases rule: cases_runE)
      case failed
      with assms(9) old show ?thesis by simp
    next
      case (looped sid objs st1 r)
      with open_cases_new [OF assms(1,2) _ looped(1), of pid c'] assms(3,9)
      have "cases_of (st_store st) pid = Some c' \<or> ac_status c' = PENDING" by simp
      then show ?thesis using old attributed_def by blast
    qed
  next
    case (ListCases s)
    with assms(4,9) read_only(1) [of dep s st] old show ?thesis by simp
  next
    case (CaseDetail p)
    with assms(4,9) read_only(2) [of dep p st] old show ?thesis by simp
  next
    case (DecideCase p decision user)
    with assms(4) have "case_decide dep p decision user st = (resp, st')" by simp
    from decide_attributed [OF assms(1-3) this assms(9,5,6,7)] show ?thesis
      using DecideCase assms(8) by simp
  qed
qed

lemma handle_all_attributed:
  assumes "dep_store dep = S" "clock_aware dep" "inv s0" "cases_of s0 = Map.empty"
  shows "reachable S s0 p \<Longrightarrow> p_store p = st_store st \<Longrightarrow> p_threads p = Map.empty \<Longrightarrow>
    \<forall>pid c. cases_of (st_store st) pid = Some c \<longrightarrow> attributed done c \<Longrightarrow>
    handle_all dep qs st = (resps, st') \<Longrightarrow> cases_of (st_store st') pid = Some c' \<Longrightarrow> attributed (done @ qs) c'"
proof (induction qs arbitrary: st p resps "done")
  case (Cons q qs)
  obtain r st1 where h: "handle dep q st = (r, st1)" by fastforce
  obtain rs st2 where a: "handle_all dep qs st1 = (rs, st2)" by fastforce
  have i: "inv (st_store st)" "protocol_inv (cases_of (st_store st)) p"
    using reachable_inv [OF Cons.prems(1) assms(3,4)] Cons.prems(2) by simp_all
  have "handle_all dep [q] st = ([r], st1)" using h by simp
  from handle_all_reachable [OF assms Cons.prems(1-3) this] obtain p1 where
    p1: "reachable S s0 p1" "p_store p1 = st_store st1" "p_threads p1 = Map.empty" by blast
  have "\<forall>pid c. cases_of (st_store st1) pid = Some c \<longrightarrow> attributed (done @ [q]) c"
    using handle_attributed [OF assms(1,2) i(1) h Cons.prems(4), of "done @ [q]"] i(2)
    by (auto simp: protocol_inv_def)
  moreover have "st2 = st'" using Cons.prems(5) h a by simp
  ultimately show ?case using Cons.IH [OF p1, of "done @ [q]"] Cons.prems(6) a by simp
qed simp

end

section \<open>What a server's history shows\<close>


lemma start_reachable: "reachable (DatabaseCaseStore d) [] (start [])" "db_inv d []" "db_cases [] = Map.empty"
  by (simp_all add: reach_start db_inv_def table_ok_def db_cases_def mem_cases_def abs_table_def)

text \<open>C2. After any sequence of requests served from an empty database, a stored case that is not PENDING was decided by one of those requests: APPROVED or EXECUTED only if that request approved it, REJECTED only if it did not, with the decider and the note it carried; and if it is EXECUTED its result confirms its proposal.\<close>

theorem decided_cases_name_their_request:
  assumes "dep_store dep = DatabaseCaseStore d" "clock_aware dep" "st_store st = []"
    and "handle_all dep qs st = (resps, st')" "db_get pid (st_store st') = Some c" "ac_status c \<noteq> PENDING"
  shows "\<exists>decision user. DecideCase pid decision user \<in> set qs \<and>
    ac_status c \<in> (if dec_approved decision then {APPROVED, EXECUTED} else {REJECTED}) \<and>
    ac_decided_by c = dec_decided_by decision \<and> ac_note c = dec_note decision \<and>
    (ac_status c = EXECUTED \<longrightarrow> (\<exists>performed. ac_result c = Some performed \<and> confirms (ac_proposal c) performed))"
proof -
  have p: "p_store (start []) = st_store st" "p_threads (start []) = Map.empty" by (simp_all add: assms(3) start_def)
  have none: "\<forall>pid c. db_cases (st_store st) pid = Some c \<longrightarrow> attributed [] c" by (simp add: assms(3) start_reachable(3))
  have c: "db_cases (st_store st') pid = Some c" using assms(5) by (simp add: db_get_cases)
  have a: "attributed ([] @ qs) c"
    by (rule db.handle_all_attributed [OF assms(1,2) start_reachable(2,3,1) p none assms(4) c])
  obtain p' where "reachable (DatabaseCaseStore d) [] p'" "p_store p' = st_store st'"
    using db.handle_all_reachable [OF assms(1,2) start_reachable(2,3,1) p assms(4)] by blast
  then have "ac_proposal_id c = pid" "case_ok c" using database_reachable(2) c by (fastforce simp: protocol_inv_def)+
  moreover have "\<exists>performed. ac_result c = Some performed \<and> confirms (ac_proposal c) performed" if "ac_status c = EXECUTED"
    using \<open>case_ok c\<close> that by (auto simp: case_ok_def)
  ultimately show ?thesis using a assms(6) by (auto simp: attributed_def)
qed


theorem decided_cases_name_their_request_witness:
  "\<exists>c. db_get (replicate 12 CHR ''a'') (st_store (snd (handle_all flow_dep
      [RunCase flow_request, DecideCase (replicate 12 CHR ''a'') flow_decision ''u''] flow_start))) = Some c \<and>
    ac_decided_by c = ''alice''"
proof -
  let ?pid = "replicate 12 CHR ''a''"
  let ?qs = "[RunCase flow_request, DecideCase ?pid flow_decision ''u'']"
  let ?r = "case_decide flow_dep ?pid flow_decision ''u'' flow_state"
  have h: "snd (handle_all flow_dep ?qs flow_start) = snd ?r"
    using flow_run(1) by (simp add: split_beta)
  have f: "db_cases (st_store flow_state) ?pid = Some flow_case" using flow_stored by (simp only: db_get_cases)
  have n: "name_fits SQLite (dec_decided_by flow_decision)" by (simp add: name_fits_def)
  have r: "?r = (fst ?r, snd ?r)" by simp
  have "ac_status flow_case = PENDING \<and> dec_approved flow_decision \<and>
      decided_now flow_dep flow_decision flow_state flow_case = decided_now flow_dep flow_decision flow_state flow_case
      \<or> ac_status flow_case = APPROVED \<and> decided_now flow_dep flow_decision flow_state flow_case = flow_case"
    by (simp add: flow_case_facts flow_decision_def)
  from db.case_decide_approves [OF flow_dep_simps(1,2) flow_inv(2) n f this r]
  obtain c where c: "db_cases (st_store (snd ?r)) ?pid = Some c" "ac_status c \<noteq> PENDING"
    by (auto split: option.splits simp: decided_now_def flow_decision_def)
  have e: "st_store flow_start = []" by (simp add: flow_start_def)
  have a: "handle_all flow_dep ?qs flow_start = (fst (handle_all flow_dep ?qs flow_start), snd ?r)"
    using h by (simp only: prod_eq_iff fst_conv snd_conv simp_thms)
  have g: "db_get ?pid (st_store (snd ?r)) = Some c" using c(1) by (simp only: db_get_cases)
  from decided_cases_name_their_request [OF flow_dep_simps(1,2) e a g c(2)]
  have "ac_decided_by c = ''alice''" by (auto simp: flow_decision_def)
  with g h show ?thesis by (auto simp del: handle_all.simps)
qed

end
