(* ===== verification/Ddl.thy ===== *)
theory Ddl
  imports Py_Values
begin

text \<open>
  The statements the migrations issue, and their effect on one PostgreSQL schema: its tables,
  indexes, functions and triggers, the rows a migration inserts, and the privileges of roles. A
  statement that PostgreSQL refuses is an error, and a run of statements is one transaction: on
  an error nothing of it remains. All statements are issued by one role, the migrating one, so that
  the default privileges it sets apply to the tables it creates later.
\<close>

text \<open>\<^verbatim>\<open>with_variant\<close>: a type, and another one to use on the dialect that is named.\<close>

datatype col_type =
    VarChar nat
  | TextType
  | Jsonb
  | Json
  | DateTime bool
  | WithVariant col_type col_type string

datatype server_default = Now | Literal string

record column =
  co_name :: string
  co_type :: col_type
  co_nullable :: bool
  co_default :: "server_default option"

datatype constraint =
    PrimaryKey "string list"
  | ForeignKey "string list" string "string list" string
  | Unique "string list" string
  | Check string string

record table =
  tb_name :: string
  tb_columns :: "column list"
  tb_constraints :: "constraint list"

record index =
  ix_name :: string
  ix_table :: string
  ix_columns :: "string list"
  ix_where :: "string option"

datatype stmt =
    CreateTable table
  | DropTable string
  | CreateIndex index
  | DropIndex string string
  | CreateFunction string
  | DropFunctionIfExists string
  | CreateTrigger string string string
  | DropTriggerIfExists string string
  | Insert string "(string \<times> string) list"
  | GrantUsage string
  | GrantOnAllTables string
  | GrantOnFutureTables string
  | RevokeOnFutureTables string
  | RevokeOnAllTables string
  | RevokeUsage string

text \<open>
  Triggers carry their table and their function; the privileges are those the migrations deal in:
  \<open>USAGE\<close> on the schema, DML on a table, and DML by default on tables created later.
\<close>

record schema_state =
  sc_tables :: "table list"
  sc_indexes :: "index list"
  sc_functions :: "string list"
  sc_triggers :: "(string \<times> string \<times> string) list"
  sc_rows :: "(string \<times> (string \<times> string) list) list"
  sc_usage :: "string list"
  sc_dml :: "(string \<times> string) list"
  sc_default_dml :: "string list"

definition empty_schema :: schema_state where
  "empty_schema = \<lparr>sc_tables = [], sc_indexes = [], sc_functions = [], sc_triggers = [], sc_rows = [],
     sc_usage = [], sc_dml = [], sc_default_dml = []\<rparr>"

definition find_table :: "schema_state \<Rightarrow> string \<Rightarrow> table option" where
  "find_table S n = find (\<lambda>t. tb_name t = n) (sc_tables S)"

definition references :: "string \<Rightarrow> table \<Rightarrow> bool" where
  "references n t \<longleftrightarrow> list_ex (\<lambda>c. case c of ForeignKey _ r _ _ \<Rightarrow> r = n | _ \<Rightarrow> False) (tb_constraints t)"

definition column_names :: "table \<Rightarrow> string list" where
  "column_names t = map co_name (tb_columns t)"

text \<open>The column an index entry such as \<open>timestamp DESC\<close> is about.\<close>

definition index_column :: "string \<Rightarrow> string" where
  "index_column s = takeWhile (\<lambda>c. c \<noteq> CHR '' '') s"

definition table_sound :: "schema_state \<Rightarrow> table \<Rightarrow> bool" where
  "table_sound S t \<longleftrightarrow>
     list_all (\<lambda>c. case c of
         PrimaryKey cs \<Rightarrow> list_all (\<lambda>x. x \<in> set (column_names t)) cs
       | ForeignKey cs r rcs _ \<Rightarrow>
           list_all (\<lambda>x. x \<in> set (column_names t)) cs \<and>
           (case find_table S r of None \<Rightarrow> False | Some u \<Rightarrow> PrimaryKey rcs \<in> set (tb_constraints u))
       | Unique cs _ \<Rightarrow> list_all (\<lambda>x. x \<in> set (column_names t)) cs
       | Check _ _ \<Rightarrow> True) (tb_constraints t)"

definition dml_for :: "string list \<Rightarrow> string list \<Rightarrow> (string \<times> string) list" where
  "dml_for roles tables = concat (map (\<lambda>t. map (\<lambda>r. (t, r)) roles) tables)"

fun exec :: "stmt \<Rightarrow> schema_state \<Rightarrow> schema_state result" where
  "exec (CreateTable t) S =
     (if find_table S (tb_name t) \<noteq> None then Inl (StorageError ''relation already exists'')
      else if \<not> table_sound S t then Inl (StorageError ''undefined column or table'')
      else Inr (S\<lparr>sc_tables := sc_tables S @ [t],
                 sc_dml := sc_dml S @ dml_for (sc_default_dml S) [tb_name t]\<rparr>))"
| "exec (DropTable n) S =
     (if find_table S n = None then Inl (StorageError ''table does not exist'')
      else if list_ex (\<lambda>t. tb_name t \<noteq> n \<and> references n t) (sc_tables S)
      then Inl (StorageError ''other objects depend on it'')
      else Inr (S\<lparr>sc_tables := filter (\<lambda>t. tb_name t \<noteq> n) (sc_tables S),
                 sc_indexes := filter (\<lambda>i. ix_table i \<noteq> n) (sc_indexes S),
                 sc_triggers := filter (\<lambda>(g, t, f). t \<noteq> n) (sc_triggers S),
                 sc_rows := filter (\<lambda>(t, r). t \<noteq> n) (sc_rows S),
                 sc_dml := filter (\<lambda>(t, r). t \<noteq> n) (sc_dml S)\<rparr>))"
| "exec (CreateIndex i) S =
     (case find_table S (ix_table i) of
        None \<Rightarrow> Inl (StorageError ''table does not exist'')
      | Some t \<Rightarrow>
          if list_ex (\<lambda>j. ix_name j = ix_name i) (sc_indexes S) then Inl (StorageError ''relation already exists'')
          else if \<not> list_all (\<lambda>c. index_column c \<in> set (column_names t)) (ix_columns i)
          then Inl (StorageError ''column does not exist'')
          else Inr (S\<lparr>sc_indexes := sc_indexes S @ [i]\<rparr>))"
| "exec (DropIndex n tbl) S =
     (if \<not> list_ex (\<lambda>j. ix_name j = n) (sc_indexes S) then Inl (StorageError ''index does not exist'')
      else Inr (S\<lparr>sc_indexes := filter (\<lambda>j. ix_name j \<noteq> n) (sc_indexes S)\<rparr>))"
| "exec (CreateFunction f) S =
     (if f \<in> set (sc_functions S) then Inl (StorageError ''function already exists'')
      else Inr (S\<lparr>sc_functions := sc_functions S @ [f]\<rparr>))"
| "exec (DropFunctionIfExists f) S =
     (if list_ex (\<lambda>(g, t, f'). f' = f) (sc_triggers S) then Inl (StorageError ''other objects depend on it'')
      else Inr (S\<lparr>sc_functions := filter (\<lambda>g. g \<noteq> f) (sc_functions S)\<rparr>))"
| "exec (CreateTrigger g tbl f) S =
     (if find_table S tbl = None then Inl (StorageError ''table does not exist'')
      else if f \<notin> set (sc_functions S) then Inl (StorageError ''function does not exist'')
      else if list_ex (\<lambda>(g', t, f'). g' = g \<and> t = tbl) (sc_triggers S)
      then Inl (StorageError ''trigger already exists'')
      else Inr (S\<lparr>sc_triggers := sc_triggers S @ [(g, tbl, f)]\<rparr>))"
| "exec (DropTriggerIfExists g tbl) S =
     (if find_table S tbl = None then Inr S
      else Inr (S\<lparr>sc_triggers := filter (\<lambda>(g', t, f). \<not> (g' = g \<and> t = tbl)) (sc_triggers S)\<rparr>))"
| "exec (Insert tbl row) S =
     (case find_table S tbl of
        None \<Rightarrow> Inl (StorageError ''table does not exist'')
      | Some t \<Rightarrow>
          if list_all (\<lambda>(c, v). c \<in> set (column_names t)) row
          then Inr (S\<lparr>sc_rows := sc_rows S @ [(tbl, row)]\<rparr>)
          else Inl (StorageError ''column does not exist''))"
| "exec (GrantUsage r) S = Inr (S\<lparr>sc_usage := List.insert r (sc_usage S)\<rparr>)"
| "exec (GrantOnAllTables r) S =
     Inr (S\<lparr>sc_dml := sc_dml S @ filter (\<lambda>p. p \<notin> set (sc_dml S)) (dml_for [r] (map tb_name (sc_tables S)))\<rparr>)"
| "exec (GrantOnFutureTables r) S = Inr (S\<lparr>sc_default_dml := List.insert r (sc_default_dml S)\<rparr>)"
| "exec (RevokeOnFutureTables r) S = Inr (S\<lparr>sc_default_dml := removeAll r (sc_default_dml S)\<rparr>)"
| "exec (RevokeOnAllTables r) S =
     Inr (S\<lparr>sc_dml := filter (\<lambda>(t, r'). \<not> (r' = r \<and> find_table S t \<noteq> None)) (sc_dml S)\<rparr>)"
| "exec (RevokeUsage r) S = Inr (S\<lparr>sc_usage := removeAll r (sc_usage S)\<rparr>)"

fun run_stmts :: "stmt list \<Rightarrow> schema_state \<Rightarrow> schema_state result" where
  "run_stmts [] S = Inr S"
| "run_stmts (q # qs) S = bind_result (exec q S) (run_stmts qs)"

lemma run_stmts_append: "run_stmts (xs @ ys) S = bind_result (run_stmts xs S) (run_stmts ys)"
proof (induction xs arbitrary: S)
  case (Cons x xs)
  then show ?case by (cases "exec x S") simp_all
qed simp

text \<open>What the privileges mean: a role that has DML on every table, those created later included.\<close>

definition covered :: "string \<Rightarrow> schema_state \<Rightarrow> bool" where
  "covered r S \<longleftrightarrow> r \<in> set (sc_usage S) \<and> r \<in> set (sc_default_dml S) \<and>
     (\<forall>t \<in> set (sc_tables S). (tb_name t, r) \<in> set (sc_dml S))"

text \<open>A statement that takes no privilege away keeps a role covered.\<close>

definition keeps_privileges :: "stmt \<Rightarrow> bool" where
  "keeps_privileges q \<longleftrightarrow>
     (case q of RevokeOnFutureTables _ \<Rightarrow> False | RevokeOnAllTables _ \<Rightarrow> False | RevokeUsage _ \<Rightarrow> False | _ \<Rightarrow> True)"

lemma exec_covered:
  assumes "covered r S" "keeps_privileges q" "exec q S = Inr S'"
  shows "covered r S'"
proof (cases q)
  case (CreateTable t)
  then have "S' = S\<lparr>sc_tables := sc_tables S @ [t], sc_dml := sc_dml S @ dml_for (sc_default_dml S) [tb_name t]\<rparr>"
    using assms(3) by (auto split: if_splits)
  then show ?thesis using assms(1) by (auto simp: covered_def dml_for_def)
next
  case (DropTable n)
  then have "S' = S\<lparr>sc_tables := filter (\<lambda>t. tb_name t \<noteq> n) (sc_tables S),
                 sc_indexes := filter (\<lambda>i. ix_table i \<noteq> n) (sc_indexes S),
                 sc_triggers := filter (\<lambda>(g, t, f). t \<noteq> n) (sc_triggers S),
                 sc_rows := filter (\<lambda>(t, r). t \<noteq> n) (sc_rows S),
                 sc_dml := filter (\<lambda>(t, r). t \<noteq> n) (sc_dml S)\<rparr>"
    using assms(3) by (auto split: if_splits)
  then show ?thesis using assms(1) by (auto simp: covered_def)
next
  case (GrantOnAllTables r')
  then show ?thesis using assms by (auto simp: covered_def)
next
  case (CreateIndex i)
  then show ?thesis using assms by (auto simp: covered_def split: option.splits if_splits)
next
  case (Insert tbl row)
  then show ?thesis using assms by (auto simp: covered_def split: option.splits if_splits)
qed (use assms in \<open>auto simp: covered_def keeps_privileges_def split: if_splits\<close>)

lemma run_stmts_covered:
  "run_stmts qs S = Inr S' \<Longrightarrow> covered r S \<Longrightarrow> list_all keeps_privileges qs \<Longrightarrow> covered r S'"
proof (induction qs arbitrary: S)
  case (Cons q qs)
  then obtain S1 where "exec q S = Inr S1" "run_stmts qs S1 = Inr S'" by (auto simp: result_simps)
  with Cons exec_covered show ?case by auto
qed simp

end
