(* ===== verification/Cluster_Config.thy ===== *)
theory Cluster_Config
  imports Py_Values
begin

text \<open>
  \<^verbatim>\<open>app/cluster/config.py\<close>: the cluster configuration read from the environment, the peers and
  their URLs. An environment is a dictionary of strings.
\<close>

type_synonym env = "(string, string) dict"

abbreviation env_default :: "env \<Rightarrow> string \<Rightarrow> string \<Rightarrow> string" where
  "env_default env key dflt \<equiv> (case dict_get env key of None \<Rightarrow> dflt | Some v \<Rightarrow> v)"

text \<open>\<open>x or y\<close> on strings.\<close>

definition or_else :: "string \<Rightarrow> string \<Rightarrow> string" where
  "or_else x y = (if x \<noteq> [] then x else y)"

definition DEFAULT_AGENT_NAME :: string where "DEFAULT_AGENT_NAME = ''orchestrator''"
definition DEFAULT_NAMESPACE :: string where "DEFAULT_NAMESPACE = ''agents''"
definition DEFAULT_CLUSTER_DOMAIN :: string where "DEFAULT_CLUSTER_DOMAIN = ''svc.cluster.local''"
definition DEFAULT_PEER_SCHEME :: string where "DEFAULT_PEER_SCHEME = ''http''"
definition DEFAULT_PEER_PORT :: int where "DEFAULT_PEER_PORT = 80"
definition DEFAULT_RPC_PATH :: string where "DEFAULT_RPC_PATH = ''/a2a/app''"

record peer_spec =
  peer_name :: string
  peer_base_url :: string

definition service_dns_url :: "string \<Rightarrow> string \<Rightarrow> string \<Rightarrow> string \<Rightarrow> int \<Rightarrow> string" where
  "service_dns_url name namespace cluster_domain scheme port =
     (let host = name @ ''.'' @ namespace @ ''.'' @ cluster_domain;
          default_port = (if scheme = ''https'' then 443 else 80)
      in if port = default_port then scheme @ ''://'' @ host
         else scheme @ ''://'' @ host @ '':'' @ int_str port)"

definition rstrip_slash :: "string \<Rightarrow> string" where
  "rstrip_slash s = rstrip_of (\<lambda>c. c = CHR ''/'') s"

text \<open>The loop body of \<open>_parse_peers\<close>: the peer an item names, if it names one.\<close>

definition parse_peer ::
  "string \<Rightarrow> string \<Rightarrow> string \<Rightarrow> int \<Rightarrow> string \<Rightarrow> peer_spec option" where
  "parse_peer namespace cluster_domain scheme port item =
     (if item = [] then None
      else
        (case partition_on (CHR ''='') item of (name0, _, url) \<Rightarrow>
           let name = strip name0
           in if name = [] then None
              else
                let explicit = strip url;
                    base_url = (if explicit \<noteq> [] then explicit
                                else service_dns_url name namespace cluster_domain scheme port)
                in Some \<lparr>peer_name = name, peer_base_url = rstrip_slash base_url\<rparr>))"

definition peer_items :: "string option \<Rightarrow> string list \<Rightarrow> string list" where
  "peer_items raw defaults =
     (case raw of
        None \<Rightarrow> defaults
      | Some r \<Rightarrow> if r \<noteq> [] then map strip (split_on (CHR '','') r) else defaults)"

definition parse_peers ::
  "string option \<Rightarrow> string \<Rightarrow> string \<Rightarrow> string \<Rightarrow> int \<Rightarrow> string list \<Rightarrow> peer_spec list" where
  "parse_peers raw namespace cluster_domain scheme port defaults =
     dict_values (dict_of_pairs (map (\<lambda>p. (peer_name p, p))
       (List.map_filter (parse_peer namespace cluster_domain scheme port) (peer_items raw defaults))))"

definition parse_port :: "string option \<Rightarrow> int" where
  "parse_port raw =
     (case raw of
        None \<Rightarrow> DEFAULT_PEER_PORT
      | Some r \<Rightarrow>
          if strip r = [] then DEFAULT_PEER_PORT
          else (case int_of_string (strip r) of None \<Rightarrow> DEFAULT_PEER_PORT | Some n \<Rightarrow> n))"

definition normalize_rpc_path :: "string option \<Rightarrow> string" where
  "normalize_rpc_path raw =
     (case raw of
        None \<Rightarrow> DEFAULT_RPC_PATH
      | Some r \<Rightarrow>
          if strip r = [] then DEFAULT_RPC_PATH
          else CHR ''/'' # strip_of (\<lambda>c. c = CHR ''/'') (strip r))"

record cluster_config =
  cc_name :: string
  cc_namespace :: string
  cc_cluster_domain :: string
  cc_peer_scheme :: string
  cc_peer_port :: int
  cc_peers :: "peer_spec list"
  cc_rpc_path :: string

definition cluster_from_env :: "env \<Rightarrow> string option \<Rightarrow> string list \<Rightarrow> cluster_config" where
  "cluster_from_env env name default_peers =
     (let resolved_name = or_else (strip (case name of Some n \<Rightarrow> n
                                          | None \<Rightarrow> env_default env ''AGENT_NAME'' DEFAULT_AGENT_NAME))
                            DEFAULT_AGENT_NAME;
          namespace = strip (env_default env ''A2A_NAMESPACE'' DEFAULT_NAMESPACE);
          cluster_domain = strip (env_default env ''A2A_CLUSTER_DOMAIN'' DEFAULT_CLUSTER_DOMAIN);
          scheme = strip (env_default env ''A2A_PEER_SCHEME'' DEFAULT_PEER_SCHEME);
          port = parse_port (dict_get env ''A2A_PEER_PORT'');
          rpc_path = normalize_rpc_path (dict_get env ''A2A_RPC_PATH'');
          peers = parse_peers (dict_get env ''A2A_PEERS'') namespace cluster_domain scheme port default_peers
      in \<lparr>cc_name = resolved_name, cc_namespace = namespace, cc_cluster_domain = cluster_domain,
          cc_peer_scheme = scheme, cc_peer_port = port, cc_peers = peers, cc_rpc_path = rpc_path\<rparr>)"

section \<open>Peers\<close>

definition peer_ok :: "peer_spec \<Rightarrow> bool" where
  "peer_ok p \<longleftrightarrow> peer_name p \<noteq> [] \<and> strip (peer_name p) = peer_name p \<and>
     CHR ''='' \<notin> set (peer_name p) \<and> rstrip_slash (peer_base_url p) = peer_base_url p"

lemma partition_on_first: "partition_on c s = (a, sep, b) \<Longrightarrow> c \<notin> set a"
  by (auto simp: partition_on_def Let_def split: list.splits dest: set_takeWhileD)

lemma parse_peer_ok: "parse_peer ns cd scheme port item = Some p \<Longrightarrow> peer_ok p"
proof -
  assume a: "parse_peer ns cd scheme port item = Some p"
  obtain name0 sep url where part: "partition_on (CHR ''='') item = (name0, sep, url)"
    by (metis surj_pair)
  have "CHR ''='' \<notin> set (strip name0)"
    using partition_on_first [OF part] set_strip_of [of is_space name0] by (auto simp: strip_def)
  then show ?thesis
    using a part by (auto simp: parse_peer_def Let_def peer_ok_def rstrip_slash_def split: if_splits)
qed

lemma foldl_dict_values:
  "\<forall>p \<in> set (map snd d) \<union> set ps. P p \<Longrightarrow>
   \<forall>p \<in> set (dict_values (foldl (\<lambda>d (k, v). dict_set d k v) d (map (\<lambda>p. (f p, p)) ps))). P p"
proof (induction ps arbitrary: d)
  case (Cons p ps)
  have "set (map snd (dict_set d (f p) p)) \<subseteq> insert p (set (map snd d))"
    by (induction d) auto
  with Cons.prems have "\<forall>q \<in> set (map snd (dict_set d (f p) p)) \<union> set ps. P q" by auto
  from Cons.IH [OF this] show ?case by simp
qed (simp add: dict_values_def)

lemma foldl_dict_keyed:
  "\<forall>(k, p) \<in> set d. k = f p \<Longrightarrow>
   \<forall>(k, p) \<in> set (foldl (\<lambda>d (k, v). dict_set d k v) d (map (\<lambda>p. (f p, p)) ps)). k = f p"
proof (induction ps arbitrary: d)
  case (Cons p ps)
  have "set (dict_set d (f p) p) \<subseteq> insert (f p, p) (set d)"
    by (induction d) auto
  with Cons.prems have "\<forall>(k, q) \<in> set (dict_set d (f p) p). k = f q" by auto
  from Cons.IH [OF this] show ?case by simp
qed simp

lemma dict_of_pairs_keyed:
  "map f (dict_values (dict_of_pairs (map (\<lambda>p. (f p, p)) ps))) = dict_keys (dict_of_pairs (map (\<lambda>p. (f p, p)) ps))"
  using foldl_dict_keyed [of "[]" f ps]
  by (auto simp: dict_of_pairs_def dict_values_def dict_keys_def)

lemma parse_peers_distinct: "distinct (map peer_name (parse_peers raw ns cd scheme port defaults))"
proof -
  have "dict_ok (dict_of_pairs (map (\<lambda>p. (peer_name p, p))
      (List.map_filter (parse_peer ns cd scheme port) (peer_items raw defaults))))" by simp
  then show ?thesis by (simp add: parse_peers_def dict_of_pairs_keyed dict_ok_def dict_keys_def)
qed

lemma parse_peers_ok: "p \<in> set (parse_peers raw ns cd scheme port defaults) \<Longrightarrow> peer_ok p"
proof -
  let ?ps = "List.map_filter (parse_peer ns cd scheme port) (peer_items raw defaults)"
  have "\<forall>p \<in> set ?ps. peer_ok p"
    by (auto simp: List.map_filter_def dest: parse_peer_ok)
  then have "\<forall>p \<in> set (dict_values (dict_of_pairs (map (\<lambda>p. (peer_name p, p)) ?ps))). peer_ok p"
    using foldl_dict_values [of "[]" ?ps peer_ok peer_name] by (simp add: dict_of_pairs_def)
  then show "p \<in> set (parse_peers raw ns cd scheme port defaults) \<Longrightarrow> peer_ok p"
    by (simp add: parse_peers_def)
qed

section \<open>Peers written with their URL are read back\<close>

definition render_peer :: "peer_spec \<Rightarrow> string" where
  "render_peer p = peer_name p @ ''='' @ peer_base_url p"

definition renderable :: "peer_spec \<Rightarrow> bool" where
  "renderable p \<longleftrightarrow> peer_ok p \<and> peer_base_url p \<noteq> [] \<and>
     strip (peer_base_url p) = peer_base_url p \<and>
     CHR '','' \<notin> set (peer_name p) \<and> CHR '','' \<notin> set (peer_base_url p)"

lemma strip_stripped: "strip s = s \<longleftrightarrow> stripped is_space s"
  by (metis strip_def strip_of_id strip_of_stripped)

lemma strip_render: "renderable p \<Longrightarrow> strip (render_peer p) = render_peer p"
  by (auto simp: renderable_def peer_ok_def render_peer_def strip_stripped stripped_def hd_append)

lemma parse_render: "renderable p \<Longrightarrow> parse_peer ns cd scheme port (render_peer p) = Some p"
  using partition_on_sep [of "CHR ''=''" "peer_name p" "peer_base_url p"]
  by (cases p) (auto simp: renderable_def peer_ok_def parse_peer_def render_peer_def Let_def)

lemma parse_peers_render:
  assumes "ps \<noteq> []" "list_all renderable ps" "distinct (map peer_name ps)"
  shows "parse_peers (Some (join '','' (map render_peer ps))) ns cd scheme port defaults = ps"
proof -
  have fresh: "\<forall>w \<in> set (map render_peer ps). CHR '','' \<notin> set w"
    using assms(2) by (auto simp: list_all_iff renderable_def render_peer_def)
  have split: "split_on (CHR '','') (join '','' (map render_peer ps)) = map render_peer ps"
    using assms(1) fresh by (intro split_on_join) auto
  obtain q qs where q: "ps = q # qs" using assms(1) by (cases ps) auto
  have "join '','' (map render_peer ps) \<noteq> []"
    using assms(2) by (cases qs) (auto simp: q render_peer_def)
  then have "peer_items (Some (join '','' (map render_peer ps))) defaults = map render_peer ps"
    using assms(2) by (auto simp: peer_items_def split strip_render list_all_iff)
  moreover have "List.map_filter (parse_peer ns cd scheme port) (map render_peer ps) = ps"
    using assms(2) by (induction ps) (auto simp: List.map_filter_simps parse_render)
  moreover have "dict_of_pairs (map (\<lambda>p. (peer_name p, p)) ps) = map (\<lambda>p. (peer_name p, p)) ps"
    using assms(3) by (intro dict_of_pairs_distinct) (simp add: comp_def)
  ultimately show ?thesis by (simp add: parse_peers_def dict_values_def comp_def)
qed

section \<open>The RPC path\<close>

lemma strip_of_ends:
  assumes "strip_of P s \<noteq> []"
  shows "\<not> P (hd (strip_of P s)) \<and> \<not> P (last (strip_of P s))"
  using strip_of_stripped [of P s] assms by (auto simp: stripped_def)

lemma normalize_rpc_path_shape:
  "\<exists>p. normalize_rpc_path raw = CHR ''/'' # p \<and> (p = [] \<or> hd p \<noteq> CHR ''/'' \<and> last p \<noteq> CHR ''/'')"
proof (cases "\<exists>r. raw = Some r \<and> strip r \<noteq> []")
  case True
  then show ?thesis
    using strip_of_ends [of "\<lambda>c. c = CHR ''/''"] by (fastforce simp: normalize_rpc_path_def)
next
  case False
  then have "normalize_rpc_path raw = DEFAULT_RPC_PATH"
    by (auto simp: normalize_rpc_path_def split: option.splits)
  then show ?thesis by (simp add: DEFAULT_RPC_PATH_def)
qed

section \<open>Peers\<close>

text \<open>C37. The peers parsed from any setting have distinct names, and each has a non-empty stripped name and URL without a trailing slash.\<close>

theorem peers_are_well_formed:
  "distinct (map peer_name (parse_peers raw ns cd scheme port defaults)) \<and>
   list_all peer_ok (parse_peers raw ns cd scheme port defaults)"
  using parse_peers_distinct parse_peers_ok by (auto simp: list_all_iff)


definition demo_peers :: "peer_spec list" where
  "demo_peers = [\<lparr>peer_name = ''math'', peer_base_url = ''http://m:81''\<rparr>,
     \<lparr>peer_name = ''research'', peer_base_url = ''https://r''\<rparr>]"


end
