(* ===== verification/Db_Config.thy ===== *)
theory Db_Config
  imports Cluster_Config
begin

text \<open>
  \<^verbatim>\<open>app/cluster/db.py\<close>: the database configuration read from the environment and the lazily built
  engine each process shares. An engine is the record of what it is created with and a number that
  identifies it; constructing the AlloyDB connector, which resolves credentials and may fail, is a
  parameter.
\<close>

section \<open>Configuration\<close>

definition NONE :: string where "NONE = ''none''"
definition ALLOYDB :: string where "ALLOYDB = ''alloydb''"
definition URL :: string where "URL = ''url''"

definition BACKENDS :: "string list" where
  "BACKENDS = [NONE, ALLOYDB, URL]"

definition DEFAULT_DB_NAME :: string where "DEFAULT_DB_NAME = ''agents''"
definition DEFAULT_IP_TYPE :: string where "DEFAULT_IP_TYPE = ''PRIVATE''"
definition DEFAULT_POOL_SIZE :: int where "DEFAULT_POOL_SIZE = 5"
definition DEFAULT_MAX_OVERFLOW :: int where "DEFAULT_MAX_OVERFLOW = 2"
definition DEFAULT_POOL_RECYCLE :: int where "DEFAULT_POOL_RECYCLE = 1800"

lemmas backend_defs = NONE_def ALLOYDB_def URL_def

definition int_env :: "string option \<Rightarrow> int \<Rightarrow> int" where
  "int_env raw dflt =
     (case raw of
        None \<Rightarrow> dflt
      | Some r \<Rightarrow>
          if strip r = [] then dflt
          else (case int_of_string (strip r) of None \<Rightarrow> dflt | Some n \<Rightarrow> n))"

record database_config =
  db_backend :: string
  db_instance_uri :: string
  db_iam_user :: string
  db_name :: string
  db_schema :: string
  db_url :: string
  db_ip_type :: string
  db_pool_size :: int
  db_max_overflow :: int
  db_pool_recycle :: int

definition config_enabled :: "database_config \<Rightarrow> bool" where
  "config_enabled c \<longleftrightarrow> db_backend c \<noteq> NONE"

definition missing_alloydb :: "string \<Rightarrow> string \<Rightarrow> string list" where
  "missing_alloydb instance_uri iam_user =
     map fst (filter (\<lambda>(n, v). v = [])
       [(''ALLOYDB_INSTANCE_URI'', instance_uri), (''ALLOYDB_IAM_USER'', iam_user)])"

definition database_from_env :: "env \<Rightarrow> string \<Rightarrow> database_config result" where
  "database_from_env env default_schema =
     (let backend = or_else (lower (strip (env_default env ''DB_BACKEND'' NONE))) NONE;
          instance_uri = strip (env_default env ''ALLOYDB_INSTANCE_URI'' []);
          iam_user = strip (env_default env ''ALLOYDB_IAM_USER'' []);
          url = strip (env_default env ''DB_URL'' []);
          missing = missing_alloydb instance_uri iam_user
      in if backend \<notin> set BACKENDS
         then Inl (ValueError (''Unknown DB_BACKEND='' @ repr backend @ ''; expected one of '' @
                join '', '' (map repr BACKENDS) @ ''.''))
         else if backend = ALLOYDB \<and> missing \<noteq> []
         then Inl (ValueError (''DB_BACKEND='' @ ALLOYDB @ '' requires '' @ join '' and '' missing @ '' to be set.''))
         else if backend = URL \<and> url = []
         then Inl (ValueError (''DB_BACKEND='' @ URL @ '' requires DB_URL to be set.''))
         else Inr
           \<lparr>db_backend = backend, db_instance_uri = instance_uri, db_iam_user = iam_user,
            db_name = or_else (strip (env_default env ''DB_NAME'' DEFAULT_DB_NAME)) DEFAULT_DB_NAME,
            db_schema = strip (env_default env ''DB_SCHEMA'' default_schema),
            db_url = url,
            db_ip_type = or_else (upper (strip (env_default env ''ALLOYDB_IP_TYPE'' DEFAULT_IP_TYPE))) DEFAULT_IP_TYPE,
            db_pool_size = int_env (dict_get env ''DB_POOL_SIZE'') DEFAULT_POOL_SIZE,
            db_max_overflow = int_env (dict_get env ''DB_MAX_OVERFLOW'') DEFAULT_MAX_OVERFLOW,
            db_pool_recycle = int_env (dict_get env ''DB_POOL_RECYCLE'') DEFAULT_POOL_RECYCLE\<rparr>)"

definition wants_search_path :: "database_config \<Rightarrow> bool" where
  "wants_search_path c \<longleftrightarrow>
     (if db_schema c = [] then False
      else if db_backend c = ALLOYDB then True
      else startswith (db_url c) ''postgresql'')"

section \<open>The engine\<close>

record pool_kwargs =
  pk_pool_size :: int
  pk_max_overflow :: int
  pk_pool_recycle :: int
  pk_pool_pre_ping :: bool

record alloydb_connect =
  al_instance_uri :: string
  al_user :: string
  al_db :: string
  al_enable_iam_auth :: bool

record engine =
  eng_id :: nat
  eng_url :: string
  eng_creator :: "alloydb_connect option"
  eng_server_settings :: env
  eng_pool :: "pool_kwargs option"

record database =
  dt_config :: database_config
  dt_engine :: "engine option"
  dt_connector :: "string option"
  dt_built :: nat

definition Database :: "database_config \<Rightarrow> database" where
  "Database config = \<lparr>dt_config = config, dt_engine = None, dt_connector = None, dt_built = 0\<rparr>"

definition pool_kwargs_of :: "database_config \<Rightarrow> pool_kwargs" where
  "pool_kwargs_of c =
     \<lparr>pk_pool_size = db_pool_size c, pk_max_overflow = db_max_overflow c,
      pk_pool_recycle = db_pool_recycle c, pk_pool_pre_ping = True\<rparr>"

definition server_settings :: "database_config \<Rightarrow> env" where
  "server_settings c = (if \<not> wants_search_path c then [] else [(''search_path'', db_schema c)])"

text \<open>\<open>_build_alloydb_engine\<close>; \<open>mk\<close> constructs the connector for an IP type.\<close>

definition build_alloydb_engine ::
  "(string \<Rightarrow> string result) \<Rightarrow> database \<Rightarrow> engine result \<times> database" where
  "build_alloydb_engine mk d =
     (let c = dt_config d
      in case mk (db_ip_type c) of
           Inl e \<Rightarrow> (Inl e, d)
         | Inr connector \<Rightarrow>
             (Inr \<lparr>eng_id = dt_built d, eng_url = ''postgresql+asyncpg://'',
                   eng_creator = Some \<lparr>al_instance_uri = db_instance_uri c, al_user = db_iam_user c,
                                       al_db = db_name c, al_enable_iam_auth = True\<rparr>,
                   eng_server_settings = server_settings c, eng_pool = Some (pool_kwargs_of c)\<rparr>,
              d\<lparr>dt_connector := Some connector, dt_built := Suc (dt_built d)\<rparr>))"

definition build_url_engine :: "database \<Rightarrow> engine result \<times> database" where
  "build_url_engine d =
     (let c = dt_config d; d' = d\<lparr>dt_built := Suc (dt_built d)\<rparr>
      in if startswith (db_url c) ''sqlite''
         then (Inr \<lparr>eng_id = dt_built d, eng_url = db_url c, eng_creator = None,
                    eng_server_settings = [], eng_pool = None\<rparr>, d')
         else (Inr \<lparr>eng_id = dt_built d, eng_url = db_url c, eng_creator = None,
                    eng_server_settings = server_settings c, eng_pool = Some (pool_kwargs_of c)\<rparr>, d'))"

text \<open>The part of \<open>engine()\<close> that runs under the lock.\<close>

definition engine_locked :: "(string \<Rightarrow> string result) \<Rightarrow> database \<Rightarrow> engine result \<times> database" where
  "engine_locked mk d =
     (case dt_engine d of
        Some e \<Rightarrow> (Inr e, d)
      | None \<Rightarrow>
          (case (if db_backend (dt_config d) = ALLOYDB then build_alloydb_engine mk d else build_url_engine d) of
             (Inl err, d') \<Rightarrow> (Inl err, d')
           | (Inr e, d') \<Rightarrow> (Inr e, d'\<lparr>dt_engine := Some e\<rparr>)))"

definition no_database :: py_error where
  "no_database = ValueError (''No database configured (DB_BACKEND='' @ NONE @
     ''). Set DB_BACKEND to '' @ repr ALLOYDB @ '' or '' @ repr URL @ '' before requesting an engine.'')"

definition get_engine :: "(string \<Rightarrow> string result) \<Rightarrow> database \<Rightarrow> engine result \<times> database" where
  "get_engine mk d =
     (if \<not> config_enabled (dt_config d) then (Inl no_database, d)
      else (case dt_engine d of
              Some e \<Rightarrow> (Inr e, d)
            | None \<Rightarrow> engine_locked mk d))"

definition aclose :: "database \<Rightarrow> database" where
  "aclose d =
     (let d1 = (if dt_engine d \<noteq> None then d\<lparr>dt_engine := None\<rparr> else d)
      in if dt_connector d1 \<noteq> None then d1\<lparr>dt_connector := None\<rparr> else d1)"

definition build_database :: "env \<Rightarrow> database result" where
  "build_database env =
     (let default_schema = or_else (strip (env_default env ''AGENT_NAME'' DEFAULT_AGENT_NAME)) DEFAULT_AGENT_NAME
      in map_sum id Database (database_from_env env default_schema))"

section \<open>What an accepted configuration satisfies\<close>

definition config_ok :: "database_config \<Rightarrow> bool" where
  "config_ok c \<longleftrightarrow> db_backend c \<in> set BACKENDS \<and>
     (db_backend c = ALLOYDB \<longrightarrow> db_instance_uri c \<noteq> [] \<and> db_iam_user c \<noteq> []) \<and>
     (db_backend c = URL \<longrightarrow> db_url c \<noteq> []) \<and> db_name c \<noteq> [] \<and> db_ip_type c \<noteq> []"

lemma or_else_nonempty: "y \<noteq> [] \<Longrightarrow> or_else x y \<noteq> []"
  by (simp add: or_else_def)

lemma database_from_env_ok: "database_from_env env sch = Inr c \<Longrightarrow> config_ok c"
  unfolding database_from_env_def Let_def guard_Inr
  by (auto simp: config_ok_def missing_alloydb_def or_else_nonempty DEFAULT_DB_NAME_def DEFAULT_IP_TYPE_def split: if_splits)

lemma database_from_env_errors:
  "database_from_env env sch = Inl e \<Longrightarrow> \<exists>m. e = ValueError m"
  by (auto simp: database_from_env_def Let_def split: if_splits)

lemma server_settings_schema:
  assumes "config_ok c" "db_backend c = ALLOYDB"
  shows "server_settings c = (if db_schema c = [] then [] else [(''search_path'', db_schema c)])"
  using assms by (simp add: server_settings_def wants_search_path_def)

section \<open>One engine per process\<close>

definition database_inv :: "database \<Rightarrow> bool" where
  "database_inv d \<longleftrightarrow> (\<forall>e. dt_engine d = Some e \<longrightarrow> eng_id e < dt_built d)"

interpretation engine_memo: memo "get_engine mk"
  "\<lambda>d. if config_enabled (dt_config d) then dt_engine d else None"
  "\<lambda>d d'. \<exists>mk'. d' = snd (get_engine mk' d)"
  by unfold_locales
    (auto simp: get_engine_def engine_locked_def build_alloydb_engine_def build_url_engine_def Let_def
      split: if_splits option.splits sum.splits)

lemma engine_locked_cases:
  assumes "engine_locked mk d = (r, d')"
  shows "dt_config d' = dt_config d \<and>
    (dt_engine d = None \<longrightarrow>
       (case r of
          Inl err \<Rightarrow> dt_engine d' = None \<and> dt_built d' = dt_built d
        | Inr e \<Rightarrow> dt_engine d' = Some e \<and> eng_id e = dt_built d \<and> dt_built d' = Suc (dt_built d))) \<and>
    (\<forall>e. dt_engine d = Some e \<longrightarrow> r = Inr e \<and> d' = d)"
  using assms
  by (auto simp: engine_locked_def build_alloydb_engine_def build_url_engine_def Let_def
      split: if_splits option.splits sum.splits)

text \<open>
  Concurrent callers: each first looks without the lock, and builds under it. A call is idle, has
  seen no engine and waits for the lock, or has returned.
\<close>

datatype engine_call = Idle | Waiting | Returned "engine result"

record engine_pool =
  ep_database :: database
  ep_calls :: "nat \<Rightarrow> engine_call"

inductive engine_step :: "(string \<Rightarrow> string result) \<Rightarrow> engine_pool \<Rightarrow> engine_pool \<Rightarrow> bool" for mk where
  look_hit: "engine_step mk p (p\<lparr>ep_calls := (ep_calls p)(i := Returned (Inr e))\<rparr>)"
    if "ep_calls p i = Idle" "dt_engine (ep_database p) = Some e" "config_enabled (dt_config (ep_database p))"
| look_miss: "engine_step mk p (p\<lparr>ep_calls := (ep_calls p)(i := Waiting)\<rparr>)"
    if "ep_calls p i = Idle" "dt_engine (ep_database p) = None" "config_enabled (dt_config (ep_database p))"
| locked: "engine_step mk p (p\<lparr>ep_database := d, ep_calls := (ep_calls p)(i := Returned r)\<rparr>)"
    if "ep_calls p i = Waiting" "engine_locked mk (ep_database p) = (r, d)"

definition pool_inv :: "engine_pool \<Rightarrow> bool" where
  "pool_inv p \<longleftrightarrow>
     (dt_engine (ep_database p) = None \<longrightarrow> dt_built (ep_database p) = 0) \<and>
     dt_built (ep_database p) \<le> 1 \<and>
     (\<forall>i e. ep_calls p i = Returned (Inr e) \<longrightarrow> dt_engine (ep_database p) = Some e)"

lemma engine_step_inv: "engine_step mk p p' \<Longrightarrow> pool_inv p \<Longrightarrow> pool_inv p'"
proof (induction rule: engine_step.induct)
  case (locked p i r d)
  note c = engine_locked_cases [OF locked(2)]
  show ?case
  proof (cases "dt_engine (ep_database p)")
    case None
    with c locked(3) show ?thesis by (cases r) (auto simp: pool_inv_def)
  next
    case (Some e)
    with c locked(3) show ?thesis by (auto simp: pool_inv_def)
  qed
qed (auto simp: pool_inv_def)

lemma engine_steps_inv: "rtranclp (engine_step mk) p p' \<Longrightarrow> pool_inv p \<Longrightarrow> pool_inv p'"
  by (induction rule: rtranclp.induct) (auto intro: engine_step_inv)

lemma pool_inv_start: "pool_inv \<lparr>ep_database = Database c, ep_calls = (\<lambda>i. Idle)\<rparr>"
  by (simp add: pool_inv_def Database_def)

lemma aclose_empty: "dt_engine (aclose d) = None \<and> dt_connector (aclose d) = None \<and> dt_config (aclose d) = dt_config d"
  by (simp add: aclose_def Let_def)

section \<open>Configuration and engine\<close>

text \<open>Reading the database configuration either gives a configuration that has everything its backend needs, or stops with a ValueError.\<close>

theorem accepted_database_config_is_complete:
  "case database_from_env env sch of
     Inr c \<Rightarrow> config_ok c
   | Inl e \<Rightarrow> (\<exists>m. e = ValueError m)"
  using database_from_env_ok database_from_env_errors by (auto split: sum.splits)

text \<open>C33. Whatever the interleaving of concurrent callers, the engine is built at most once and all callers get the same engine.\<close>

theorem one_engine_whatever_the_interleaving:
  assumes "rtranclp (engine_step mk) \<lparr>ep_database = Database c, ep_calls = (\<lambda>i. Idle)\<rparr> p"
    and "ep_calls p i = Returned (Inr e)" "ep_calls p j = Returned (Inr e')"
  shows "e = e' \<and> dt_built (ep_database p) \<le> 1"
proof -
  have "pool_inv p" using engine_steps_inv [OF assms(1)] pool_inv_start by simp
  then have "dt_engine (ep_database p) = Some e" "dt_engine (ep_database p) = Some e'"
    "dt_built (ep_database p) \<le> 1" using assms(2,3) unfolding pool_inv_def by blast+
  then show ?thesis by simp
qed

definition demo_env :: env where
  "demo_env = [(''DB_BACKEND'', ''url''), (''DB_URL'', ''sqlite+aiosqlite://''), (''SESSION_BACKEND'', ''alloydb''),
     (''TASK_STORE_BACKEND'', ''database'')]"

definition demo_config :: database_config where
  "demo_config = \<lparr>db_backend = ''url'', db_instance_uri = [], db_iam_user = [], db_name = ''agents'',
     db_schema = ''orchestrator'', db_url = ''sqlite+aiosqlite://'', db_ip_type = ''PRIVATE'',
     db_pool_size = 5, db_max_overflow = 2, db_pool_recycle = 1800\<rparr>"

lemma demo_database: "build_database demo_env = Inr (Database demo_config)"
  by code_simp

definition demo_engine :: engine where
  "demo_engine = \<lparr>eng_id = 0, eng_url = ''sqlite+aiosqlite://'', eng_creator = None,
     eng_server_settings = [], eng_pool = None\<rparr>"

definition demo_opened_db :: database where
  "demo_opened_db = (Database demo_config)\<lparr>dt_engine := Some demo_engine, dt_built := 1\<rparr>"

lemma demo_engine_locked: "engine_locked mk (Database demo_config) = (Inr demo_engine, demo_opened_db)"
  by (simp add: engine_locked_def Database_def demo_config_def build_url_engine_def demo_engine_def
      demo_opened_db_def startswith_def ALLOYDB_def Let_def)

theorem one_engine_whatever_the_interleaving_witness:
  "\<exists>p :: engine_pool. ep_calls p 0 = Returned (Inr demo_engine) \<and> ep_calls p 1 = Returned (Inr demo_engine) \<and>
     dt_built (ep_database p) \<le> 1"
proof -
  let ?mk = "\<lambda>s. Inr s"
  let ?p0 = "\<lparr>ep_database = Database demo_config, ep_calls = (\<lambda>i. Idle)\<rparr>"
  let ?p1 = "?p0\<lparr>ep_calls := (ep_calls ?p0)(0 := Waiting)\<rparr>"
  let ?p2 = "?p1\<lparr>ep_calls := (ep_calls ?p1)(1 := Waiting)\<rparr>"
  let ?p3 = "?p2\<lparr>ep_database := demo_opened_db, ep_calls := (ep_calls ?p2)(0 := Returned (Inr demo_engine))\<rparr>"
  let ?p4 = "?p3\<lparr>ep_database := demo_opened_db, ep_calls := (ep_calls ?p3)(1 := Returned (Inr demo_engine))\<rparr>"
  have en: "config_enabled demo_config" by (simp add: config_enabled_def demo_config_def NONE_def)
  have "engine_step ?mk ?p0 ?p1" by (rule look_miss) (simp_all add: Database_def en)
  moreover have "engine_step ?mk ?p1 ?p2" by (rule look_miss) (simp_all add: Database_def en)
  moreover have "engine_step ?mk ?p2 ?p3" by (rule locked) (simp_all add: demo_engine_locked)
  moreover have "engine_step ?mk ?p3 ?p4"
    by (rule locked) (simp_all add: engine_locked_def demo_opened_db_def)
  ultimately have "rtranclp (engine_step ?mk) ?p0 ?p4"
    by (meson converse_rtranclp_into_rtranclp rtranclp.rtrancl_refl)
  from one_engine_whatever_the_interleaving [OF this, of 0 demo_engine 1 demo_engine]
  have built: "dt_built (ep_database ?p4) \<le> 1" by simp
  show ?thesis by (rule exI [of _ ?p4], intro conjI, simp, simp, rule built)
qed

end
