(* ===== verification/Migrations.thy ===== *)
theory Migrations
  imports Ddl Case_Database Db_Config
begin

text \<open>
  \<^verbatim>\<open>src/app/migrations\<close>: the five revisions as the statements their \<^verbatim>\<open>upgrade\<close> and
  \<^verbatim>\<open>downgrade\<close> issue, and \<^verbatim>\<open>env.py\<close>, which decides the schema and runs them. Alembic itself,
  which picks the revisions to run, is a parameter of a run.
\<close>

definition col :: "string \<Rightarrow> col_type \<Rightarrow> column" where
  "col n t = \<lparr>co_name = n, co_type = t, co_nullable = False, co_default = None\<rparr>"

definition null_col :: "string \<Rightarrow> col_type \<Rightarrow> column" where
  "null_col n t = \<lparr>co_name = n, co_type = t, co_nullable = True, co_default = None\<rparr>"

definition dflt_col :: "string \<Rightarrow> col_type \<Rightarrow> server_default \<Rightarrow> column" where
  "dflt_col n t d = \<lparr>co_name = n, co_type = t, co_nullable = False, co_default = Some d\<rparr>"

definition plain_index :: "string \<Rightarrow> string \<Rightarrow> string list \<Rightarrow> index" where
  "plain_index n t cs = \<lparr>ix_name = n, ix_table = t, ix_columns = cs, ix_where = None\<rparr>"

section \<open>0001: the session tables\<close>

definition KEY_LEN :: nat where "KEY_LEN = 128"
definition VARCHAR_LEN :: nat where "VARCHAR_LEN = 256"
definition SCHEMA_VERSION :: string where "SCHEMA_VERSION = ''1''"

definition upgrade_0001 :: "stmt list" where
  "upgrade_0001 =
     [CreateTable \<lparr>tb_name = ''adk_internal_metadata'',
        tb_columns = [col ''key'' (VarChar KEY_LEN), col ''value'' (VarChar VARCHAR_LEN)],
        tb_constraints = [PrimaryKey [''key'']]\<rparr>,
      CreateTable \<lparr>tb_name = ''sessions'',
        tb_columns = [col ''app_name'' (VarChar KEY_LEN), col ''user_id'' (VarChar KEY_LEN),
          col ''id'' (VarChar KEY_LEN), col ''state'' Jsonb, col ''create_time'' (DateTime False),
          col ''update_time'' (DateTime False)],
        tb_constraints = [PrimaryKey [''app_name'', ''user_id'', ''id'']]\<rparr>,
      CreateTable \<lparr>tb_name = ''events'',
        tb_columns = [col ''id'' (VarChar KEY_LEN), col ''app_name'' (VarChar KEY_LEN),
          col ''user_id'' (VarChar KEY_LEN), col ''session_id'' (VarChar KEY_LEN),
          col ''invocation_id'' (VarChar VARCHAR_LEN), col ''timestamp'' (DateTime False),
          null_col ''event_data'' Jsonb],
        tb_constraints = [PrimaryKey [''id'', ''app_name'', ''user_id'', ''session_id''],
          ForeignKey [''app_name'', ''user_id'', ''session_id''] ''sessions'' [''app_name'', ''user_id'', ''id''] ''CASCADE'']\<rparr>,
      CreateIndex (plain_index ''idx_events_app_user_session_ts'' ''events''
        [''app_name'', ''user_id'', ''session_id'', ''timestamp DESC'']),
      CreateIndex (plain_index ''idx_sessions_update_time'' ''sessions'' [''update_time'']),
      CreateTable \<lparr>tb_name = ''app_states'',
        tb_columns = [col ''app_name'' (VarChar KEY_LEN), col ''state'' Jsonb, col ''update_time'' (DateTime False)],
        tb_constraints = [PrimaryKey [''app_name'']]\<rparr>,
      CreateTable \<lparr>tb_name = ''user_states'',
        tb_columns = [col ''app_name'' (VarChar KEY_LEN), col ''user_id'' (VarChar KEY_LEN), col ''state'' Jsonb,
          col ''update_time'' (DateTime False)],
        tb_constraints = [PrimaryKey [''app_name'', ''user_id'']]\<rparr>,
      Insert ''adk_internal_metadata'' [(''key'', ''schema_version''), (''value'', SCHEMA_VERSION)]]"

definition downgrade_0001 :: "stmt list" where
  "downgrade_0001 =
     [DropTable ''user_states'', DropTable ''app_states'',
      DropIndex ''idx_sessions_update_time'' ''sessions'',
      DropIndex ''idx_events_app_user_session_ts'' ''events'',
      DropTable ''events'', DropTable ''sessions'', DropTable ''adk_internal_metadata'']"

section \<open>0002: the task store\<close>

definition TOUCH_FUNCTION :: string where "TOUCH_FUNCTION = ''tasks_touch_updated_at''"

definition upgrade_0002 :: "stmt list" where
  "upgrade_0002 =
     [CreateTable \<lparr>tb_name = ''tasks'',
        tb_columns = [col ''id'' (VarChar 36), col ''context_id'' (VarChar 36), col ''kind'' (VarChar 16),
          col ''status'' Json, null_col ''artifacts'' Json, null_col ''history'' Json, null_col ''metadata'' Json,
          dflt_col ''created_at'' (DateTime True) Now, dflt_col ''updated_at'' (DateTime True) Now],
        tb_constraints = [PrimaryKey [''id'']]\<rparr>,
      CreateIndex (plain_index ''idx_tasks_context_id'' ''tasks'' [''context_id'']),
      CreateIndex (plain_index ''idx_tasks_updated_at'' ''tasks'' [''updated_at'']),
      CreateFunction TOUCH_FUNCTION,
      CreateTrigger ''tasks_set_updated_at'' ''tasks'' TOUCH_FUNCTION]"

definition downgrade_0002 :: "stmt list" where
  "downgrade_0002 =
     [DropTriggerIfExists ''tasks_set_updated_at'' ''tasks'', DropFunctionIfExists TOUCH_FUNCTION,
      DropIndex ''idx_tasks_updated_at'' ''tasks'', DropIndex ''idx_tasks_context_id'' ''tasks'',
      DropTable ''tasks'']"

section \<open>0003: the agent's role\<close>

definition AGENT_ROLE_ENV :: string where "AGENT_ROLE_ENV = ''DB_AGENT_ROLE''"

definition role_char :: "char \<Rightarrow> bool" where
  "role_char c \<longleftrightarrow> is_lower_letter c \<or> is_upper_letter c \<or> is_digit c \<or> c \<in> {CHR ''.'', CHR ''_'', CHR ''@'', CHR ''-''}"

text \<open>Text is its UTF-8 encoding, so the length in bytes is the length of the list.\<close>

definition resolve_role :: "env \<Rightarrow> string result" where
  "resolve_role env =
     (let role = strip (env_default env AGENT_ROLE_ENV [])
      in if role = [] then Inr []
         else if \<not> class_match role_char role then
           Inl (ValueError (''Refusing to grant to role '' @ repr role @ '': expected only letters, '' @
             ''digits, and the characters . _ - @''))
         else if 63 < length role then
           Inl (ValueError (''Role '' @ repr role @ '' exceeds PostgreSQL'' @ [CHR 0x27] @
             ''s 63-byte identifier limit; '' @ ''shorten the service account name.''))
         else Inr role)"

definition schema_name :: "string option \<Rightarrow> string" where
  "schema_name version_table_schema =
     (case version_table_schema of None \<Rightarrow> ''public'' | Some s \<Rightarrow> if s = [] then ''public'' else s)"

text \<open>The statements are issued in the schema of the run, on PostgreSQL only.\<close>

definition upgrade_0003 :: "env \<Rightarrow> string \<Rightarrow> stmt list result" where
  "upgrade_0003 env dialect_name =
     bind_result (resolve_role env) (\<lambda>role.
       if role = [] then Inr []
       else if dialect_name \<noteq> ''postgresql'' then Inr []
       else Inr [GrantUsage role, GrantOnAllTables role, GrantOnFutureTables role])"

definition downgrade_0003 :: "env \<Rightarrow> string \<Rightarrow> stmt list result" where
  "downgrade_0003 env dialect_name =
     bind_result (resolve_role env) (\<lambda>role.
       if role = [] then Inr []
       else if dialect_name \<noteq> ''postgresql'' then Inr []
       else Inr [RevokeOnFutureTables role, RevokeOnAllTables role, RevokeUsage role])"

section \<open>0004: the approvals table\<close>

definition OLD_TABLE :: string where "OLD_TABLE = ''hitl_approvals''"

definition OLD_STATUSES :: "string list" where
  "OLD_STATUSES = [''pending'', ''deciding'', ''approved'', ''rejected'', ''expired'']"

definition quoted_status :: "string \<Rightarrow> string" where
  "quoted_status s = [CHR 0x27] @ s @ [CHR 0x27]"

definition status_check :: "string list \<Rightarrow> string" where
  "status_check sts = ''status IN ('' @ join '', '' (map quoted_status sts) @ '')''"

definition json_type_0004 :: col_type where "json_type_0004 = WithVariant Jsonb Json ''sqlite''"

definition hitl_table :: table where
  "hitl_table = \<lparr>tb_name = OLD_TABLE,
     tb_columns =
       [col ''approval_id'' (VarChar 32), col ''app_name'' (VarChar 128), col ''user_id'' (VarChar 128),
        col ''session_id'' (VarChar 128), col ''invocation_id'' (VarChar 128), col ''function_call_id'' (VarChar 128),
        col ''call_name'' (VarChar 128), col ''kind'' (VarChar 32),
        dflt_col ''tool_name'' (VarChar 128) (Literal []), dflt_col ''author'' (VarChar 128) (Literal []),
        dflt_col ''message'' TextType (Literal []), col ''args'' json_type_0004, col ''status'' (VarChar 16),
        null_col ''decision'' json_type_0004, null_col ''decided_by'' (VarChar 256),
        dflt_col ''created_at'' (DateTime True) Now, null_col ''decided_at'' (DateTime True),
        null_col ''deciding_since'' (DateTime True), null_col ''deciding_by'' (VarChar 256),
        null_col ''resumed_at'' (DateTime True)],
     tb_constraints = [PrimaryKey [''approval_id''],
        Unique [''session_id'', ''function_call_id''] ''uq_hitl_approvals_call'',
        Check (status_check OLD_STATUSES) ''ck_hitl_approvals_status'']\<rparr>"

definition hitl_indexes :: "index list" where
  "hitl_indexes =
     [plain_index ''idx_hitl_approvals_status_created'' OLD_TABLE [''status'', ''created_at''],
      \<lparr>ix_name = ''idx_hitl_approvals_user_pending'', ix_table = OLD_TABLE, ix_columns = [''user_id'', ''created_at''],
       ix_where = Some (''status = '' @ quoted_status ''pending'')\<rparr>,
      \<lparr>ix_name = ''idx_hitl_approvals_deciding'', ix_table = OLD_TABLE, ix_columns = [''deciding_since''],
       ix_where = Some (''status = '' @ quoted_status ''deciding'')\<rparr>]"

definition upgrade_0004 :: "stmt list" where
  "upgrade_0004 = CreateTable hitl_table # map CreateIndex hitl_indexes"

definition downgrade_0004 :: "stmt list" where
  "downgrade_0004 =
     [DropIndex ''idx_hitl_approvals_deciding'' OLD_TABLE, DropIndex ''idx_hitl_approvals_user_pending'' OLD_TABLE,
      DropIndex ''idx_hitl_approvals_status_created'' OLD_TABLE, DropTable OLD_TABLE]"

section \<open>0005: the cases table\<close>

definition CASE_TABLE :: string where "CASE_TABLE = ''approval_cases''"

definition CASE_STATUSES :: "string list" where
  "CASE_STATUSES = [''pending'', ''approved'', ''rejected'', ''executed'', ''failed'']"

definition json_type_0005 :: col_type where "json_type_0005 = WithVariant Jsonb Json ''sqlite''"

definition case_columns :: "column list" where
  "case_columns =
     [col ''proposal_id'' (VarChar 32), col ''case_id'' (VarChar 128),
      dflt_col ''agent'' (VarChar 128) (Literal []), dflt_col ''action'' (VarChar 128) (Literal []),
      dflt_col ''summary'' TextType (Literal []), col ''proposal'' json_type_0005, col ''status'' (VarChar 16),
      dflt_col ''session_id'' (VarChar 128) (Literal []), dflt_col ''decided_by'' (VarChar 256) (Literal []),
      dflt_col ''note'' TextType (Literal []), null_col ''result'' json_type_0005,
      dflt_col ''created_at'' (DateTime True) Now, null_col ''decided_at'' (DateTime True),
      null_col ''executed_at'' (DateTime True)]"

definition upgrade_0005 :: "stmt list" where
  "upgrade_0005 =
     [CreateTable \<lparr>tb_name = CASE_TABLE, tb_columns = case_columns,
        tb_constraints = [PrimaryKey [''proposal_id''], Check (status_check CASE_STATUSES) ''ck_approval_cases_status'']\<rparr>,
      CreateIndex (plain_index ''idx_approval_cases_status_created'' CASE_TABLE [''status'', ''created_at'']),
      CreateIndex (plain_index ''idx_approval_cases_case'' CASE_TABLE [''case_id'', ''created_at'']),
      CreateIndex \<lparr>ix_name = ''idx_approval_cases_unexecuted'', ix_table = CASE_TABLE, ix_columns = [''decided_at''],
        ix_where = Some (''status = '' @ quoted_status ''approved'')\<rparr>,
      DropIndex ''idx_hitl_approvals_deciding'' OLD_TABLE, DropIndex ''idx_hitl_approvals_user_pending'' OLD_TABLE,
      DropIndex ''idx_hitl_approvals_status_created'' OLD_TABLE, DropTable OLD_TABLE]"

text \<open>The downgrade writes revision 0004's table and indexes out again.\<close>

definition OLD_TABLE_STATUSES :: "string list" where
  "OLD_TABLE_STATUSES = [''pending'', ''deciding'', ''approved'', ''rejected'', ''expired'']"

definition old_approvals_table :: table where
  "old_approvals_table = \<lparr>tb_name = OLD_TABLE,
     tb_columns =
       [col ''approval_id'' (VarChar 32), col ''app_name'' (VarChar 128), col ''user_id'' (VarChar 128),
        col ''session_id'' (VarChar 128), col ''invocation_id'' (VarChar 128), col ''function_call_id'' (VarChar 128),
        col ''call_name'' (VarChar 128), col ''kind'' (VarChar 32),
        dflt_col ''tool_name'' (VarChar 128) (Literal []), dflt_col ''author'' (VarChar 128) (Literal []),
        dflt_col ''message'' TextType (Literal []), col ''args'' json_type_0005, col ''status'' (VarChar 16),
        null_col ''decision'' json_type_0005, null_col ''decided_by'' (VarChar 256),
        dflt_col ''created_at'' (DateTime True) Now, null_col ''decided_at'' (DateTime True),
        null_col ''deciding_since'' (DateTime True), null_col ''deciding_by'' (VarChar 256),
        null_col ''resumed_at'' (DateTime True)],
     tb_constraints = [PrimaryKey [''approval_id''],
        Unique [''session_id'', ''function_call_id''] ''uq_hitl_approvals_call'',
        Check (status_check OLD_TABLE_STATUSES) ''ck_hitl_approvals_status'']\<rparr>"

definition old_approvals_indexes :: "index list" where
  "old_approvals_indexes =
     [plain_index ''idx_hitl_approvals_status_created'' OLD_TABLE [''status'', ''created_at''],
      \<lparr>ix_name = ''idx_hitl_approvals_user_pending'', ix_table = OLD_TABLE, ix_columns = [''user_id'', ''created_at''],
       ix_where = Some (''status = '' @ quoted_status ''pending'')\<rparr>,
      \<lparr>ix_name = ''idx_hitl_approvals_deciding'', ix_table = OLD_TABLE, ix_columns = [''deciding_since''],
       ix_where = Some (''status = '' @ quoted_status ''deciding'')\<rparr>]"

definition downgrade_0005 :: "stmt list" where
  "downgrade_0005 =
     CreateTable old_approvals_table # map CreateIndex old_approvals_indexes @
     [DropIndex ''idx_approval_cases_unexecuted'' CASE_TABLE, DropIndex ''idx_approval_cases_case'' CASE_TABLE,
      DropIndex ''idx_approval_cases_status_created'' CASE_TABLE, DropTable CASE_TABLE]"

text \<open>The table the case store writes to, as \<^verbatim>\<open>cases.py\<close> declares it.\<close>

definition json_type :: col_type where "json_type = WithVariant Jsonb Json ''sqlite''"

definition CASES_columns :: "column list" where
  "CASES_columns =
     [col ''proposal_id'' (VarChar 32), col ''case_id'' (VarChar 128), col ''agent'' (VarChar 128),
      col ''action'' (VarChar 128), col ''summary'' TextType, col ''proposal'' json_type,
      col ''status'' (VarChar 16), col ''session_id'' (VarChar 128), col ''decided_by'' (VarChar 256),
      col ''note'' TextType, null_col ''result'' json_type, col ''created_at'' (DateTime True),
      null_col ''decided_at'' (DateTime True), null_col ''executed_at'' (DateTime True)]"

section \<open>The environment of a run\<close>

text \<open>\<open>x_schema\<close> is the value of Alembic's \<^verbatim>\<open>-x schema=\<close> argument, if it was given.\<close>

definition resolve_schema :: "string option \<Rightarrow> env \<Rightarrow> string result" where
  "resolve_schema x_schema env =
     (let given = (case x_schema of None \<Rightarrow> [] | Some s \<Rightarrow> s);
          schema = strip (if given \<noteq> [] then given
                          else or_else (env_default env ''DB_SCHEMA'' []) (env_default env ''AGENT_NAME'' []))
      in if schema = [] then
           Inl (ValueError (''No target schema. Pass -x schema=<name>, or set DB_SCHEMA or '' @
             ''AGENT_NAME. Each agent owns its own schema; see app/cluster/db.py.''))
         else if \<not> identifier_match schema then
           Inl (ValueError (''Refusing to use schema '' @ repr schema @ '': expected a lowercase '' @
             ''PostgreSQL identifier matching [a-z_][a-z0-9_]*.''))
         else Inr schema)"

definition resolve_config :: "env \<Rightarrow> string \<Rightarrow> database_config result" where
  "resolve_config env schema =
     bind_result (database_from_env env schema) (\<lambda>c. Inr (c\<lparr>db_schema := schema\<rparr>))"

text \<open>The settings of \<^verbatim>\<open>_configure\<close>: the version table lives in the agent's own schema.\<close>

record migration_context =
  mc_url :: "string option"
  mc_version_table_schema :: string
  mc_include_schemas :: bool
  mc_compare_server_default :: bool
  mc_paramstyle :: string

definition configure :: "string \<Rightarrow> string \<Rightarrow> migration_context" where
  "configure schema url =
     \<lparr>mc_url = (if url = [] then None else Some url), mc_version_table_schema = schema, mc_include_schemas = True,
      mc_compare_server_default = True, mc_paramstyle = ''named''\<rparr>"

text \<open>
  The server: its schemas by name. Alembic's own part of a run, from the revision recorded in the
  schema to the last one, is the parameter \<open>alembic\<close>.
\<close>

type_synonym server = "(string, schema_state) dict"

type_synonym alembic = "migration_context \<Rightarrow> schema_state \<Rightarrow> schema_state result"

definition run_migrations :: "alembic \<Rightarrow> string \<Rightarrow> server \<Rightarrow> server result" where
  "run_migrations alembic schema V =
     (let current = (case dict_get V schema of None \<Rightarrow> empty_schema | Some s \<Rightarrow> s)
      in bind_result (alembic (configure schema []) current) (\<lambda>s. Inr (dict_set V schema s)))"

definition run_migrations_offline ::
  "(migration_context \<Rightarrow> string result) \<Rightarrow> string option \<Rightarrow> env \<Rightarrow> string result" where
  "run_migrations_offline render x_schema env =
     bind_result (resolve_schema x_schema env) (\<lambda>schema.
     bind_result (resolve_config env schema) (\<lambda>c.
       if db_backend c \<noteq> URL then
         Inl (ValueError (''Offline mode requires DB_BACKEND=url with DB_URL set; the AlloyDB '' @
           ''connector authenticates per connection and has no static URL.''))
       else render (configure schema (db_url c))))"

text \<open>Online, the engine is closed whatever happens, and a failed run changes no schema.\<close>

definition run_migrations_online ::
  "(string \<Rightarrow> string result) \<Rightarrow> alembic \<Rightarrow> string option \<Rightarrow> env \<Rightarrow> server \<Rightarrow>
   unit result \<times> server \<times> database option" where
  "run_migrations_online mk alembic x_schema env V =
     (case bind_result (resolve_schema x_schema env) (\<lambda>schema.
             bind_result (resolve_config env schema) (\<lambda>c. Inr (schema, c))) of
        Inl e \<Rightarrow> (Inl e, V, None)
      | Inr (schema, c) \<Rightarrow>
          (case get_engine mk (Database c) of
             (Inl e, d) \<Rightarrow> (Inl e, V, Some (aclose d))
           | (Inr _, d) \<Rightarrow>
               (case run_migrations alembic schema V of
                  Inl e \<Rightarrow> (Inl e, V, Some (aclose d))
                | Inr V' \<Rightarrow> (Inr (), V', Some (aclose d)))))"

text \<open>What the module does when Alembic loads it: it writes a script or migrates the database.\<close>

definition run_env ::
  "bool \<Rightarrow> (migration_context \<Rightarrow> string result) \<Rightarrow> (string \<Rightarrow> string result) \<Rightarrow> alembic \<Rightarrow> string option \<Rightarrow>
   env \<Rightarrow> server \<Rightarrow> string result \<times> server" where
  "run_env is_offline_mode render mk alembic x_schema env V =
     (if is_offline_mode then (run_migrations_offline render x_schema env, V)
      else case run_migrations_online mk alembic x_schema env V of
             (r, V', _) \<Rightarrow> (bind_result r (\<lambda>_. Inr []), V'))"

section \<open>Going up and down\<close>

text \<open>The schema a run starts from: Alembic has made its version table in it.\<close>

definition new_schema :: schema_state where
  "new_schema = empty_schema\<lparr>sc_tables := [\<lparr>tb_name = ''alembic_version'',
     tb_columns = [col ''version_num'' (VarChar 32)], tb_constraints = [PrimaryKey [''version_num'']]\<rparr>]\<rparr>"

definition at_0001 :: schema_state where "at_0001 = projr (run_stmts upgrade_0001 new_schema)"
definition at_0002 :: schema_state where "at_0002 = projr (run_stmts upgrade_0002 at_0001)"
definition at_0003 :: "string \<Rightarrow> schema_state" where
  "at_0003 role = projr (run_stmts [GrantUsage role, GrantOnAllTables role, GrantOnFutureTables role] at_0002)"
definition at_0004 :: "string \<Rightarrow> schema_state" where "at_0004 role = projr (run_stmts upgrade_0004 (at_0003 role))"
definition at_0005 :: "string \<Rightarrow> schema_state" where "at_0005 role = projr (run_stmts upgrade_0005 (at_0004 role))"

lemma up_0001: "run_stmts upgrade_0001 new_schema = Inr at_0001" by code_simp
lemma down_0001: "run_stmts downgrade_0001 at_0001 = Inr new_schema" by code_simp
lemma up_0002: "run_stmts upgrade_0002 at_0001 = Inr at_0002" by code_simp
lemma down_0002: "run_stmts downgrade_0002 at_0002 = Inr at_0001" by code_simp
lemma up_0003: "run_stmts [GrantUsage role, GrantOnAllTables role, GrantOnFutureTables role] at_0002 = Inr (at_0003 role)"
  by (simp add: at_0003_def)
lemma down_0003:
  "run_stmts [RevokeOnFutureTables role, RevokeOnAllTables role, RevokeUsage role] (at_0003 role) = Inr at_0002"
  by code_simp
lemma up_0004: "run_stmts upgrade_0004 (at_0003 role) = Inr (at_0004 role)" by code_simp
lemma down_0004: "run_stmts downgrade_0004 (at_0004 role) = Inr (at_0003 role)" by code_simp
lemma up_0005: "run_stmts upgrade_0005 (at_0004 role) = Inr (at_0005 role)" by code_simp
lemma down_0005: "run_stmts downgrade_0005 (at_0005 role) = Inr (at_0004 role)" by code_simp

text \<open>C28. Round trip: on a new schema each of the five revisions applies after the ones before it, and its downgrade gives back exactly the schema it was applied to.\<close>

theorem revisions_undo_themselves:
  assumes "resolve_role env = Inr role" "role \<noteq> []"
  shows "\<exists>s1 s2 s3 s4 s5.
    run_stmts upgrade_0001 new_schema = Inr s1 \<and> run_stmts downgrade_0001 s1 = Inr new_schema \<and>
    run_stmts upgrade_0002 s1 = Inr s2 \<and> run_stmts downgrade_0002 s2 = Inr s1 \<and>
    bind_result (upgrade_0003 env ''postgresql'') (\<lambda>q. run_stmts q s2) = Inr s3 \<and>
    bind_result (downgrade_0003 env ''postgresql'') (\<lambda>q. run_stmts q s3) = Inr s2 \<and>
    run_stmts upgrade_0004 s3 = Inr s4 \<and> run_stmts downgrade_0004 s4 = Inr s3 \<and>
    run_stmts upgrade_0005 s4 = Inr s5 \<and> run_stmts downgrade_0005 s5 = Inr s4"
proof (intro exI conjI)
  show "bind_result (upgrade_0003 env ''postgresql'') (\<lambda>q. run_stmts q at_0002) = Inr (at_0003 role)"
    using assms up_0003 [of role] by (simp add: upgrade_0003_def del: run_stmts.simps)
  show "bind_result (downgrade_0003 env ''postgresql'') (\<lambda>q. run_stmts q (at_0003 role)) = Inr at_0002"
    using assms down_0003 [of role] by (simp add: downgrade_0003_def del: run_stmts.simps)
qed (fact up_0001 down_0001 up_0002 down_0002 up_0004 down_0004 up_0005 down_0005)+

lemma demo_role: "resolve_role [(''DB_AGENT_ROLE'', ''agents@p.iam'')] = Inr ''agents@p.iam''"
  by code_simp

theorem revisions_undo_themselves_witness:
  "\<exists>s4 s5. run_stmts upgrade_0005 s4 = Inr s5 \<and> run_stmts downgrade_0005 s5 = Inr s4"
  using revisions_undo_themselves [OF demo_role] by blast

text \<open>Once revision 0003 granted the agent role, whatever statements later revisions issue (none of which revokes), the role keeps every privilege it needs on every table of the schema, those created later included.\<close>

theorem agent_role_covers_later_tables:
  assumes "resolve_role env = Inr role" "role \<noteq> []" "upgrade_0003 env ''postgresql'' = Inr grants"
    and "run_stmts (grants @ qs) S = Inr S'" "list_all keeps_privileges qs"
  shows "covered role S'"
proof -
  have g: "grants = [GrantUsage role, GrantOnAllTables role, GrantOnFutureTables role]"
    using assms(1-3) by (simp add: upgrade_0003_def)
  obtain S1 where s1: "run_stmts grants S = Inr S1" "run_stmts qs S1 = Inr S'"
    using assms(4) by (auto simp: run_stmts_append result_simps)
  have "covered role S1" using s1(1) by (auto simp: g covered_def dml_for_def)
  then show ?thesis using run_stmts_covered [OF s1(2)] assms(5) by blast
qed

theorem agent_role_covers_later_tables_witness: "covered ''agents@p.iam'' (at_0005 ''agents@p.iam'')"
proof -
  let ?r = "''agents@p.iam''" and ?env = "[(''DB_AGENT_ROLE'', ''agents@p.iam'')]"
  have u: "upgrade_0003 ?env ''postgresql'' = Inr [GrantUsage ?r, GrantOnAllTables ?r, GrantOnFutureTables ?r]"
    using demo_role by (simp add: upgrade_0003_def)
  have "run_stmts ([GrantUsage ?r, GrantOnAllTables ?r, GrantOnFutureTables ?r] @ (upgrade_0004 @ upgrade_0005)) at_0002 =
      Inr (at_0005 ?r)"
    unfolding run_stmts_append up_0003 bind_result_simps up_0004 up_0005 ..
  moreover have "list_all keeps_privileges (upgrade_0004 @ upgrade_0005)" by code_simp
  ultimately show ?thesis using agent_role_covers_later_tables [OF demo_role _ u] by blast
qed

section \<open>The store and the table\<close>

text \<open>The text columns of a row, by the name of their column.\<close>

definition row_text :: "case_row \<Rightarrow> (string \<times> string) list" where
  "row_text r =
     [(''proposal_id'', row_proposal_id r), (''case_id'', row_case_id r), (''agent'', row_agent r),
      (''action'', row_action r), (''summary'', row_summary r), (''status'', row_status r),
      (''session_id'', row_session_id r), (''decided_by'', row_decided_by r), (''note'', row_note r)]"

definition fits_column :: "column list \<Rightarrow> string \<times> string \<Rightarrow> bool" where
  "fits_column cs p =
     (case find (\<lambda>c. co_name c = fst p) cs of
        None \<Rightarrow> False
      | Some c \<Rightarrow> (case co_type c of VarChar w \<Rightarrow> py_len (snd p) \<le> w | _ \<Rightarrow> True))"

text \<open>A width binds text columns only.\<close>

lemma fits_case_columns:
  "fits_column case_columns (''proposal_id'', s) \<longleftrightarrow> py_len s \<le> 32"
  "fits_column case_columns (''case_id'', s) \<longleftrightarrow> py_len s \<le> 128"
  "fits_column case_columns (''agent'', s) \<longleftrightarrow> py_len s \<le> 128"
  "fits_column case_columns (''action'', s) \<longleftrightarrow> py_len s \<le> 128"
  "fits_column case_columns (''summary'', s)"
  "fits_column case_columns (''status'', s) \<longleftrightarrow> py_len s \<le> 16"
  "fits_column case_columns (''session_id'', s) \<longleftrightarrow> py_len s \<le> 128"
  "fits_column case_columns (''decided_by'', s) \<longleftrightarrow> py_len s \<le> 256"
  "fits_column case_columns (''note'', s)"
  by (simp_all add: fits_column_def case_columns_def col_def dflt_col_def null_col_def)

text \<open>C30. The columns and statuses revision 0005 creates are those the store's table definition declares (server defaults aside), and a row fits the columns of the store's model exactly when it fits those of the migration.\<close>

theorem store_and_migration_agree:
  "map (\<lambda>c. c\<lparr>co_default := None\<rparr>) case_columns = CASES_columns \<and>
   CASE_STATUSES = STATUSES \<and>
   row_fits PostgreSQL r = (list_all (fits_column case_columns) (row_text r) \<and> row_status r \<in> set CASE_STATUSES)"
proof (intro conjI)
  show "map (\<lambda>c. c\<lparr>co_default := None\<rparr>) case_columns = CASES_columns"
    by (simp add: case_columns_def CASES_columns_def col_def dflt_col_def null_col_def json_type_0005_def json_type_def)
  show s: "CASE_STATUSES = STATUSES"
    by (simp add: CASE_STATUSES_def STATUSES_def PENDING_def APPROVED_def REJECTED_def EXECUTED_def FAILED_def)
  show "row_fits PostgreSQL r = (list_all (fits_column case_columns) (row_text r) \<and> row_status r \<in> set CASE_STATUSES)"
    unfolding s row_fits_def row_text_def by (simp add: fits_case_columns)
qed

section \<open>Names in statements\<close>

lemma strip_last_not_newline:
  assumes "strip s \<noteq> []"
  shows "drop_final_newline (strip s) = strip s"
proof -
  have "\<not> is_space (last (strip s))"
    using strip_of_stripped [of is_space s] assms by (auto simp: strip_def stripped_def)
  then have "last (strip s) \<noteq> CHR 0x0A" by (auto simp: is_space_def)
  then show ?thesis by (simp add: drop_final_newline_def)
qed

definition safe_identifier :: "string \<Rightarrow> bool" where
  "safe_identifier s \<longleftrightarrow>
     s \<noteq> [] \<and> (is_lower_letter (hd s) \<or> hd s = CHR ''_'') \<and>
     list_all (\<lambda>x. is_lower_letter x \<or> is_digit x \<or> x = CHR ''_'') s"

text \<open>The schema and role names that are put into statements are plain identifiers and role names of bounded length; anything else stops with a ValueError.\<close>

theorem names_in_statements_are_plain:
  "(case resolve_schema x_schema env of Inr s \<Rightarrow> safe_identifier s | Inl e \<Rightarrow> \<exists>m. e = ValueError m) \<and>
   (case resolve_role env of
      Inr r \<Rightarrow> r = [] \<or> list_all role_char r \<and> length r \<le> 63
    | Inl e \<Rightarrow> \<exists>m. e = ValueError m)"
proof
  show "case resolve_schema x_schema env of Inr s \<Rightarrow> safe_identifier s | Inl e \<Rightarrow> \<exists>m. e = ValueError m"
  proof (cases "resolve_schema x_schema env")
    case (Inl e)
    then show ?thesis by (auto simp: resolve_schema_def Let_def split: if_splits)
  next
    case (Inr s)
    then obtain raw where s: "s = strip raw" "strip raw \<noteq> []" "identifier_match s"
      unfolding resolve_schema_def Let_def by (fastforce split: if_splits)
    then have "drop_final_newline s = s" using strip_last_not_newline by blast
    then have "safe_identifier s"
      using s(3) by (cases s) (auto simp: identifier_match_def safe_identifier_def)
    then show ?thesis using Inr by simp
  qed
  show "case resolve_role env of Inr r \<Rightarrow> r = [] \<or> list_all role_char r \<and> length r \<le> 63 | Inl e \<Rightarrow> \<exists>m. e = ValueError m"
  proof (cases "resolve_role env")
    case (Inl e)
    then show ?thesis by (auto simp: resolve_role_def Let_def split: if_splits)
  next
    case (Inr r)
    show ?thesis
    proof (cases "r = []")
      case False
      then have r: "r = strip (env_default env AGENT_ROLE_ENV [])" "class_match role_char r" "length r \<le> 63"
        using Inr by (auto simp: resolve_role_def Let_def split: if_splits)
      then have "drop_final_newline r = r" using False strip_last_not_newline by metis
      with r Inr show ?thesis by (simp add: class_match_def)
    qed (use Inr in simp)
  qed
qed

text \<open>A run that fails changes no schema, and the engine it opened is closed.\<close>

lemma failed_run_changes_nothing:
  assumes "run_migrations_online mk alembic x_schema env V = (Inl e, V', d)"
  shows "V' = V" "d = Some db \<Longrightarrow> dt_engine db = None"
  using assms aclose_empty by (auto simp: run_migrations_online_def split: sum.splits prod.splits)

end
