(* ===== verification/Admin.thy ===== *)
theory Admin
  imports Migrations
begin

text \<open>
  The one-shot administration steps: \<^verbatim>\<open>src/app/cluster/bootstrap.py\<close>, which creates the
  database, and \<^verbatim>\<open>src/scripts/grant_readers.py\<close>, which lets people read the agents' schemas. The
  server is the names of its databases and schemas; a step returns what it did to it together with
  the database holder it used, closed.
\<close>

section \<open>Creating the database\<close>

definition MAINTENANCE_DATABASE :: string where
  "MAINTENANCE_DATABASE = ''postgres''"

definition ensure_database ::
  "(string \<Rightarrow> string result) \<Rightarrow> env \<Rightarrow> string list \<Rightarrow> bool result \<times> string list \<times> database option" where
  "ensure_database mk env databases =
     (case build_database env of
        Inl e \<Rightarrow> (Inl e, databases, None)
      | Inr d \<Rightarrow>
          (let target = db_name (dt_config d)
           in if \<not> config_enabled (dt_config d) then
                (Inl (ValueError (''No database configured. Set DB_BACKEND=alloydb (or url) before '' @
                   ''running the bootstrap step; see app/cluster/db.py.'')), databases, None)
              else if \<not> identifier_match target then
                (Inl (ValueError (''Refusing to create database '' @ repr target @ '': expected a lowercase '' @
                   ''PostgreSQL identifier matching [a-z_][a-z0-9_]*.'')), databases, None)
              else if target = MAINTENANCE_DATABASE then (Inr False, databases, None)
              else
                (case get_engine mk (Database ((dt_config d)\<lparr>db_name := MAINTENANCE_DATABASE, db_schema := []\<rparr>)) of
                   (Inl e, admin) \<Rightarrow> (Inl e, databases, Some (aclose admin))
                 | (Inr _, admin) \<Rightarrow>
                     if target \<in> set databases then (Inr False, databases, Some (aclose admin))
                     else (Inr True, databases @ [target], Some (aclose admin)))))"

text \<open>\<open>main\<close> of both steps: the exit code.\<close>

definition exit_code :: "'a result \<Rightarrow> nat" where
  "exit_code r = (case r of Inl _ \<Rightarrow> 1 | Inr _ \<Rightarrow> 0)"

definition bootstrap_main ::
  "(string \<Rightarrow> string result) \<Rightarrow> env \<Rightarrow> string list \<Rightarrow> nat \<times> string list" where
  "bootstrap_main mk env databases =
     (case ensure_database mk env databases of (r, databases', _) \<Rightarrow> (exit_code r, databases'))"

section \<open>Granting readers\<close>

definition READERS_ENV :: string where "READERS_ENV = ''DB_READERS''"
definition SCHEMAS_ENV :: string where "SCHEMAS_ENV = ''DB_READER_SCHEMAS''"

definition principal_char :: "char \<Rightarrow> bool" where
  "principal_char c \<longleftrightarrow> is_lower_letter c \<or> is_upper_letter c \<or> is_digit c \<or>
     c \<in> {CHR ''.'', CHR ''_'', CHR ''%'', CHR ''+'', CHR ''@'', CHR ''-''}"

definition capitalize :: "string \<Rightarrow> string" where
  "capitalize s = (case s of [] \<Rightarrow> [] | c # t \<Rightarrow> upper_char c # lower t)"

definition validate_name :: "string \<Rightarrow> (string \<Rightarrow> bool) \<Rightarrow> string \<Rightarrow> string result" where
  "validate_name value pattern kind =
     (if \<not> pattern value then
        Inl (ValueError (''Refusing to use '' @ kind @ '' '' @ repr value @ '': unexpected characters.''))
      else if 63 < length value then
        Inl (ValueError (capitalize kind @ '' '' @ repr value @ '' exceeds PostgreSQL'' @ [CHR 0x27] @
          ''s 63-byte '' @ ''identifier limit.''))
      else Inr value)"

fun map_result :: "('a \<Rightarrow> 'b result) \<Rightarrow> 'a list \<Rightarrow> 'b list result" where
  "map_result f [] = Inr []"
| "map_result f (x # xs) = bind_result (f x) (\<lambda>y. bind_result (map_result f xs) (\<lambda>ys. Inr (y # ys)))"

text \<open>\<open>str.split()\<close>: the pieces between white space.\<close>

definition words :: "string \<Rightarrow> string list" where
  "words s = filter (\<lambda>w. w \<noteq> []) (split_on CHR '' '' (map (\<lambda>c. if is_space c then CHR '' '' else c) s))"

definition reader_names :: "env \<Rightarrow> string list result" where
  "reader_names env =
     map_result (\<lambda>item. validate_name (strip item) (class_match principal_char) ''principal'')
       (filter (\<lambda>item. strip item \<noteq> []) (split_on CHR '','' (env_default env READERS_ENV [])))"

definition reader_schemas :: "env \<Rightarrow> string list result" where
  "reader_schemas env =
     map_result (\<lambda>item. validate_name (strip item) identifier_match ''schema'')
       (filter (\<lambda>item. strip item \<noteq> [])
         (words (map (\<lambda>c. if c = CHR '','' then CHR '' '' else c) (env_default env SCHEMAS_ENV []))))"

text \<open>
  The three statements for a schema and a reader: \<open>USAGE\<close> on the schema, \<open>SELECT\<close> on its
  tables, and \<open>SELECT\<close> by default on tables created later.
\<close>

datatype read_grant = ReadUsage string string | ReadTables string string | ReadFuture string string

definition reader_grants :: "string list \<Rightarrow> string list \<Rightarrow> read_grant list" where
  "reader_grants schemas readers =
     concat (map (\<lambda>s. concat (map (\<lambda>r. [ReadUsage s r, ReadTables s r, ReadFuture s r]) readers)) schemas)"

definition padded :: "nat \<Rightarrow> string \<Rightarrow> string" where
  "padded w s = s @ replicate (w - length s) (CHR '' '')"

definition report_line :: "(string \<Rightarrow> string \<Rightarrow> string \<Rightarrow> bool) \<Rightarrow> string \<Rightarrow> string \<Rightarrow> string" where
  "report_line privilege reader schema =
     reader @ '' on '' @ padded 13 schema @
     '' usage='' @ bool_str (privilege reader schema ''USAGE'') @
     '' select='' @ bool_str (privilege reader (schema @ ''.sessions'') ''SELECT'') @
     '' insert='' @ bool_str (privilege reader (schema @ ''.sessions'') ''INSERT'') @
     '' create='' @ bool_str (privilege reader schema ''CREATE'')"

record grant_run =
  gr_result :: "unit result"
  gr_statements :: "read_grant list"
  gr_report :: "string list"
  gr_admin :: "database option"

definition refused :: "py_error \<Rightarrow> grant_run" where
  "refused e = \<lparr>gr_result = Inl e, gr_statements = [], gr_report = [], gr_admin = None\<rparr>"

text \<open>The statements run in one transaction: a schema that does not exist undoes them all.\<close>

definition grant_readers ::
  "(string \<Rightarrow> string result) \<Rightarrow> env \<Rightarrow> string list \<Rightarrow> (string \<Rightarrow> string \<Rightarrow> string \<Rightarrow> bool) \<Rightarrow> grant_run" where
  "grant_readers mk env existing privilege =
     (case reader_names env of
        Inl e \<Rightarrow> refused e
      | Inr readers \<Rightarrow>
          if readers = [] then \<lparr>gr_result = Inr (), gr_statements = [], gr_report = [], gr_admin = None\<rparr>
          else
            (case reader_schemas env of
               Inl e \<Rightarrow> refused e
             | Inr schemas \<Rightarrow>
                 if schemas = [] then refused (ValueError (SCHEMAS_ENV @ '' must list the agent schemas to grant on.''))
                 else
                   (case build_database env of
                      Inl e \<Rightarrow> refused e
                    | Inr d \<Rightarrow>
                        if \<not> config_enabled (dt_config d)
                        then refused (ValueError ''No database configured; set DB_BACKEND=alloydb.'')
                        else
                          (case get_engine mk (Database ((dt_config d)\<lparr>db_schema := []\<rparr>)) of
                             (Inl e, admin) \<Rightarrow> (refused e)\<lparr>gr_admin := Some (aclose admin)\<rparr>
                           | (Inr _, admin) \<Rightarrow>
                               if \<not> list_all (\<lambda>s. s \<in> set existing) schemas
                               then (refused (StorageError ''schema does not exist''))\<lparr>gr_admin := Some (aclose admin)\<rparr>
                               else
                                 \<lparr>gr_result = Inr (), gr_statements = reader_grants schemas readers,
                                  gr_report = concat (map (\<lambda>r. map (report_line privilege r) schemas) readers),
                                  gr_admin = Some (aclose admin)\<rparr>))))"

definition grant_main ::
  "(string \<Rightarrow> string result) \<Rightarrow> env \<Rightarrow> string list \<Rightarrow> (string \<Rightarrow> string \<Rightarrow> string \<Rightarrow> bool) \<Rightarrow>
   nat \<times> read_grant list" where
  "grant_main mk env existing privilege =
     (let run = grant_readers mk env existing privilege in (exit_code (gr_result run), gr_statements run))"

section \<open>What holds\<close>

text \<open>A bootstrap that ends without an error leaves the target database existing (or is about the maintenance database), creates at most that one database, only when it was absent, and run again changes nothing.\<close>

theorem bootstrap_is_idempotent:
  assumes "ensure_database mk env databases = (Inr created, databases', admin)"
  shows "\<exists>d. build_database env = Inr d \<and>
    (db_name (dt_config d) = MAINTENANCE_DATABASE \<or> db_name (dt_config d) \<in> set databases') \<and>
    databases' = (if created then databases @ [db_name (dt_config d)] else databases) \<and>
    (created \<longrightarrow> db_name (dt_config d) \<notin> set databases) \<and>
    ensure_database mk env databases' = (Inr False, databases', admin)"
proof -
  obtain d where d: "build_database env = Inr d"
    using assms unfolding ensure_database_def by (cases "build_database env") simp_all
  let ?target = "db_name (dt_config d)"
  note e = ensure_database_def [of mk env] d Let_def
  have en: "config_enabled (dt_config d)"
    using assms unfolding e sum.case by (rule_tac ccontr) simp
  have ok: "identifier_match ?target"
    using assms en unfolding e sum.case by (rule_tac ccontr) simp
  show ?thesis
  proof (cases "?target = MAINTENANCE_DATABASE")
    case True
    then show ?thesis using assms d en ok by (simp add: ensure_database_def)
  next
    case False
    obtain r a where g: "get_engine mk (Database ((dt_config d)\<lparr>db_name := MAINTENANCE_DATABASE, db_schema := []\<rparr>)) = (r, a)"
      by fastforce
    show ?thesis
    proof (cases r)
      case (Inl x)
      then show ?thesis using assms d en ok False g by (simp add: ensure_database_def)
    next
      case (Inr x)
      have eq: "ensure_database mk env X =
          (if ?target \<in> set X then (Inr False, X, Some (aclose a)) else (Inr True, X @ [?target], Some (aclose a)))" for X
        using False unfolding e sum.case g Inr prod.case by (simp add: en ok)
      show ?thesis
      proof (cases "?target \<in> set databases")
        case True
        then have "created = False" "databases' = databases" "admin = Some (aclose a)" using assms unfolding eq by simp_all
        then show ?thesis using True d unfolding eq by simp
      next
        case False
        then have "created = True" "databases' = databases @ [?target]" "admin = Some (aclose a)"
          using assms unfolding eq by simp_all
        then show ?thesis using False d unfolding eq by simp
      qed
    qed
  qed
qed

theorem bootstrap_is_idempotent_witness:
  "fst (ensure_database (\<lambda>s. Inr s) demo_env [''postgres'']) = Inr True \<and>
   fst (ensure_database (\<lambda>s. Inr s) demo_env [''postgres'', ''agents'']) = Inr False"
proof -
  let ?r = "ensure_database (\<lambda>s. Inr s) demo_env [''postgres'']"
  have f: "fst ?r = Inr True" "fst (snd ?r) = [''postgres'', ''agents'']" by code_simp+
  then have "?r = (Inr True, [''postgres'', ''agents''], snd (snd ?r))" by (metis prod.collapse)
  from bootstrap_is_idempotent [OF this]
  have "ensure_database (\<lambda>s. Inr s) demo_env [''postgres'', ''agents''] =
      (Inr False, [''postgres'', ''agents''], snd (snd ?r))" by blast
  with f(1) show ?thesis by (simp only: fst_conv)
qed

lemma map_result_set:
  "map_result f xs = Inr ys \<Longrightarrow> y \<in> set ys \<Longrightarrow> \<exists>x \<in> set xs. f x = Inr y"
  by (induction xs arbitrary: ys) (auto simp: result_simps)

lemma validate_name_Inr: "validate_name v P k = Inr x \<longleftrightarrow> x = v \<and> P v \<and> length v \<le> 63"
  by (auto simp: validate_name_def)

lemma reader_names_plain:
  assumes "reader_names env = Inr readers" "r \<in> set readers"
  shows "list_all principal_char r \<and> length r \<le> 63"
proof -
  obtain item where i: "strip item \<noteq> []" "r = strip item" "class_match principal_char r" "length r \<le> 63"
    using map_result_set [OF assms(1) [unfolded reader_names_def] assms(2)] by (auto simp: validate_name_Inr)
  then show ?thesis using strip_last_not_newline [OF i(1)] by (simp add: class_match_def)
qed

lemma reader_schemas_plain:
  assumes "reader_schemas env = Inr schemas" "s \<in> set schemas"
  shows "safe_identifier s \<and> length s \<le> 63"
proof -
  obtain item where i: "strip item \<noteq> []" "s = strip item" "identifier_match s" "length s \<le> 63"
    using map_result_set [OF assms(1) [unfolded reader_schemas_def] assms(2)] by (auto simp: validate_name_Inr)
  then have "drop_final_newline s = s" using strip_last_not_newline by blast
  with i(3,4) show ?thesis by (cases s) (auto simp: identifier_match_def safe_identifier_def)
qed

text \<open>C38. When granting readers succeeds, every reader and schema name was validated, every schema exists, and the grants issued are exactly the three read-only ones for each reader on each schema; with no readers configured nothing is granted.\<close>

theorem reader_grants_are_exact:
  assumes "gr_result (grant_readers mk env existing privilege) = Inr ()"
  shows "\<exists>readers. reader_names env = Inr readers \<and> list_all (\<lambda>r. list_all principal_char r \<and> length r \<le> 63) readers \<and>
    (if readers = [] then gr_statements (grant_readers mk env existing privilege) = []
     else \<exists>schemas. reader_schemas env = Inr schemas \<and> schemas \<noteq> [] \<and>
       list_all (\<lambda>s. safe_identifier s \<and> length s \<le> 63 \<and> s \<in> set existing) schemas \<and>
       set (gr_statements (grant_readers mk env existing privilege)) =
         (\<Union>s \<in> set schemas. \<Union>r \<in> set readers. {ReadUsage s r, ReadTables s r, ReadFuture s r}))"
proof -
  obtain readers where r: "reader_names env = Inr readers"
    using assms by (auto simp: grant_readers_def refused_def split: sum.splits)
  show ?thesis
  proof (cases "readers = []")
    case True
    with r show ?thesis by (simp add: grant_readers_def)
  next
    case False
    obtain schemas where s: "reader_schemas env = Inr schemas" "schemas \<noteq> []" "list_all (\<lambda>s. s \<in> set existing) schemas"
      "gr_statements (grant_readers mk env existing privilege) = reader_grants schemas readers"
      using assms r False
      by (auto simp: grant_readers_def refused_def split: sum.splits if_splits prod.splits)
    have "list_all (\<lambda>s. safe_identifier s \<and> length s \<le> 63 \<and> s \<in> set existing) schemas"
      using reader_schemas_plain [OF s(1)] s(3) by (auto simp: list_all_iff)
    moreover have "list_all (\<lambda>r. list_all principal_char r \<and> length r \<le> 63) readers"
      using reader_names_plain [OF r] by (auto simp: list_all_iff)
    ultimately show ?thesis using r s False by (auto simp: reader_grants_def)
  qed
qed

definition reader_env :: env where
  "reader_env = demo_env @ [(''DB_READERS'', ''ann@x.org, bob@x.org''), (''DB_READER_SCHEMAS'', ''math research'')]"

theorem reader_grants_are_exact_witness:
  "gr_statements (grant_readers (\<lambda>s. Inr s) reader_env [''math'', ''research''] (\<lambda>r s p. p \<noteq> ''CREATE'')) \<noteq> [] \<and>
   (\<exists>readers. reader_names reader_env = Inr readers \<and> list_all (\<lambda>r. list_all principal_char r \<and> length r \<le> 63) readers)"
proof -
  have "gr_result (grant_readers (\<lambda>s. Inr s) reader_env [''math'', ''research''] (\<lambda>r s p. p \<noteq> ''CREATE'')) = Inr ()"
    "gr_statements (grant_readers (\<lambda>s. Inr s) reader_env [''math'', ''research''] (\<lambda>r s p. p \<noteq> ''CREATE'')) \<noteq> []"
    by code_simp+
  with reader_grants_are_exact [OF this(1)] show ?thesis by blast
qed

end
