(* ===== verification/Revisions.thy ===== *)
theory Revisions
  imports Migrations
begin

text \<open>
  The version chain of \<^verbatim>\<open>src/app/migrations/versions\<close>: each file's \<^verbatim>\<open>revision\<close>, \<^verbatim>\<open>down_revision\<close>,
  \<^verbatim>\<open>upgrade\<close> and \<^verbatim>\<open>downgrade\<close>, and the step relation of a schema that Alembic moves along them, one
  revision up or down at a time, each time with the environment of that run. The tables, indexes,
  functions, triggers and rows of a schema follow from its revision alone, whatever way it came.
\<close>


section \<open>The chain\<close>

text \<open>The operations of a revision may read the environment; the database is PostgreSQL.\<close>

record revision =
  rv_revision :: string
  rv_down_revision :: "string option"
  rv_upgrade :: "env \<Rightarrow> stmt list result"
  rv_downgrade :: "env \<Rightarrow> stmt list result"

definition revision_0001 :: revision where
  "revision_0001 = \<lparr>rv_revision = ''0001'', rv_down_revision = None,
     rv_upgrade = (\<lambda>env. Inr upgrade_0001), rv_downgrade = (\<lambda>env. Inr downgrade_0001)\<rparr>"

definition revision_0002 :: revision where
  "revision_0002 = \<lparr>rv_revision = ''0002'', rv_down_revision = Some ''0001'',
     rv_upgrade = (\<lambda>env. Inr upgrade_0002), rv_downgrade = (\<lambda>env. Inr downgrade_0002)\<rparr>"

definition revision_0003 :: revision where
  "revision_0003 = \<lparr>rv_revision = ''0003'', rv_down_revision = Some ''0002'',
     rv_upgrade = (\<lambda>env. upgrade_0003 env ''postgresql''), rv_downgrade = (\<lambda>env. downgrade_0003 env ''postgresql'')\<rparr>"

definition revision_0004 :: revision where
  "revision_0004 = \<lparr>rv_revision = ''0004'', rv_down_revision = Some ''0003'',
     rv_upgrade = (\<lambda>env. Inr upgrade_0004), rv_downgrade = (\<lambda>env. Inr downgrade_0004)\<rparr>"

definition revision_0005 :: revision where
  "revision_0005 = \<lparr>rv_revision = ''0005'', rv_down_revision = Some ''0004'',
     rv_upgrade = (\<lambda>env. Inr upgrade_0005), rv_downgrade = (\<lambda>env. Inr downgrade_0005)\<rparr>"

definition VERSIONS :: "revision list" where
  "VERSIONS = [revision_0001, revision_0002, revision_0003, revision_0004, revision_0005]"

definition HEAD :: string where "HEAD = ''0005''"

lemmas revision_defs = revision_0001_def revision_0002_def revision_0003_def revision_0004_def revision_0005_def

text \<open>The recorded revision of a schema, if any, and the schema.\<close>

type_synonym versioned = "string option \<times> schema_state"

inductive migration_step :: "env \<Rightarrow> versioned \<Rightarrow> versioned \<Rightarrow> bool" where
  step_up: "migration_step env (rv_down_revision rv, S) (Some (rv_revision rv), S')"
    if "rv \<in> set VERSIONS" "rv_upgrade rv env = Inr stmts" "run_stmts stmts S = Inr S'"
| step_down: "migration_step env (Some (rv_revision rv), S) (rv_down_revision rv, S')"
    if "rv \<in> set VERSIONS" "rv_downgrade rv env = Inr stmts" "run_stmts stmts S = Inr S'"

inductive_cases migration_stepE: "migration_step env (v, S) (v', S')"

text \<open>The schemas that come out of runs whose environments are in \<open>E\<close>.\<close>

inductive migrated :: "env set \<Rightarrow> string option \<Rightarrow> schema_state \<Rightarrow> bool" for E where
  migrated_new: "migrated E None new_schema"
| migrated_step: "migrated E v S \<Longrightarrow> env \<in> E \<Longrightarrow> migration_step env (v, S) (v', S') \<Longrightarrow> migrated E v' S'"

section \<open>A schema without its privileges\<close>

definition layout :: "schema_state \<Rightarrow> schema_state" where
  "layout S = S\<lparr>sc_usage := [], sc_dml := [], sc_default_dml := []\<rparr>"

lemma find_table_cong: "sc_tables S = sc_tables T \<Longrightarrow> find_table S = find_table T"
  by (simp add: find_table_def fun_eq_iff)

lemma table_sound_cong: "sc_tables S = sc_tables T \<Longrightarrow> table_sound S = table_sound T"
  unfolding table_sound_def by (drule find_table_cong) (rule ext, rule arg_cong [of "find_table S" "find_table T"])

lemma layout_simps [simp]:
  "sc_tables (layout S) = sc_tables S" "sc_indexes (layout S) = sc_indexes S"
  "sc_functions (layout S) = sc_functions S" "sc_triggers (layout S) = sc_triggers S"
  "sc_rows (layout S) = sc_rows S"
  by (simp_all add: layout_def)

lemma layout_eq_iff:
  "layout S = layout T \<longleftrightarrow> sc_tables S = sc_tables T \<and> sc_indexes S = sc_indexes T \<and>
     sc_functions S = sc_functions T \<and> sc_triggers S = sc_triggers T \<and> sc_rows S = sc_rows T"
  by (cases S; cases T) (auto simp: layout_def)

definition privilege_stmt :: "stmt \<Rightarrow> bool" where
  "privilege_stmt q \<longleftrightarrow>
     (case q of GrantUsage _ \<Rightarrow> True | GrantOnAllTables _ \<Rightarrow> True | GrantOnFutureTables _ \<Rightarrow> True
      | RevokeOnFutureTables _ \<Rightarrow> True | RevokeOnAllTables _ \<Rightarrow> True | RevokeUsage _ \<Rightarrow> True | _ \<Rightarrow> False)"

lemma exec_layout:
  assumes "layout S = layout T"
  shows "map_sum id layout (exec q S) = map_sum id layout (exec q T)"
  using assms find_table_cong [of S T] table_sound_cong [of S T]
  by (cases q) (auto simp: layout_eq_iff split: option.splits)

lemma run_stmts_layout:
  "layout S = layout T \<Longrightarrow> map_sum id layout (run_stmts qs S) = map_sum id layout (run_stmts qs T)"
proof (induction qs arbitrary: S T)
  case (Cons q qs)
  note e = exec_layout [OF Cons.prems, of q]
  show ?case
  proof (cases "exec q S")
    case (Inl a)
    with e show ?thesis by (cases "exec q T") auto
  next
    case (Inr S1)
    with e obtain T1 where "exec q T = Inr T1" "layout S1 = layout T1" by (cases "exec q T") auto
    with Inr Cons.IH [of S1 T1] show ?thesis by simp
  qed
qed simp

lemma privileges_keep_layout:
  "list_all privilege_stmt qs \<Longrightarrow> run_stmts qs S = Inr S' \<Longrightarrow> layout S' = layout S"
proof (induction qs arbitrary: S)
  case (Cons q qs)
  then obtain S1 where s: "exec q S = Inr S1" "run_stmts qs S1 = Inr S'" by (auto simp: result_simps)
  then have "layout S1 = layout S"
    using Cons.prems(1) by (cases q) (auto simp: privilege_stmt_def layout_eq_iff)
  with s Cons show ?case by auto
qed simp

lemma privileges_run: "list_all privilege_stmt qs \<Longrightarrow> \<exists>S'. run_stmts qs S = Inr S'"
proof (induction qs arbitrary: S)
  case (Cons q qs)
  then obtain S1 where "exec q S = Inr S1" by (cases q) (auto simp: privilege_stmt_def)
  with Cons show ?case by simp
qed simp

lemma grants_are_privileges:
  "upgrade_0003 env d = Inr qs \<Longrightarrow> list_all privilege_stmt qs"
  "downgrade_0003 env d = Inr qs \<Longrightarrow> list_all privilege_stmt qs"
  by (auto simp: upgrade_0003_def downgrade_0003_def privilege_stmt_def result_simps split: if_splits)


definition layout_at :: "string option \<Rightarrow> schema_state" where
  "layout_at v =
     (if v = None then new_schema else if v = Some ''0001'' then at_0001
      else if v = Some ''0002'' \<or> v = Some ''0003'' then at_0002
      else if v = Some ''0004'' then at_0004 [] else at_0005 [])"

lemma run_from_layout:
  assumes "layout S = layout T" "run_stmts qs T = Inr T'"
  shows "\<exists>S'. run_stmts qs S = Inr S' \<and> layout S' = layout T'"
  using run_stmts_layout [OF assms(1), of qs] assms(2) by (cases "run_stmts qs S") auto

lemma layout_0003: "layout (at_0003 role) = layout at_0002"
  by (rule privileges_keep_layout [OF _ up_0003]) (simp add: privilege_stmt_def)

lemma run_grants:
  "list_all privilege_stmt qs \<Longrightarrow> layout S = layout T \<Longrightarrow> \<exists>S'. run_stmts qs S = Inr S' \<and> layout S' = layout T"
  using privileges_run privileges_keep_layout by metis

lemmas up_down =
  up_0001 down_0001 up_0002 down_0002 up_0004 [of "[]"] down_0004 [of "[]"] up_0005 [of "[]"] down_0005 [of "[]"]

lemma upgrade_runs:
  assumes "rv \<in> set VERSIONS" "rv_upgrade rv env = Inr qs" "layout S = layout (layout_at (rv_down_revision rv))"
  shows "\<exists>S'. run_stmts qs S = Inr S' \<and> layout S' = layout (layout_at (Some (rv_revision rv)))"
proof -
  consider "rv = revision_0003" | "rv \<in> {revision_0001, revision_0002, revision_0004, revision_0005}"
    using assms(1) by (auto simp: VERSIONS_def)
  then show ?thesis
  proof cases
    case 1
    with assms show ?thesis
      using run_grants [OF grants_are_privileges(1)] by (simp add: revision_0003_def layout_at_def)
  next
    case 2
    with assms show ?thesis
      using run_from_layout [OF _ up_down(1)] run_from_layout [OF _ up_down(3)]
        run_from_layout [OF _ up_down(5)] run_from_layout [OF _ up_down(7)]
      by (auto simp: revision_defs layout_at_def layout_0003)
  qed
qed

lemma downgrade_runs:
  assumes "rv \<in> set VERSIONS" "rv_downgrade rv env = Inr qs" "layout S = layout (layout_at (Some (rv_revision rv)))"
  shows "\<exists>S'. run_stmts qs S = Inr S' \<and> layout S' = layout (layout_at (rv_down_revision rv))"
proof -
  consider "rv = revision_0003" | "rv \<in> {revision_0001, revision_0002, revision_0004, revision_0005}"
    using assms(1) by (auto simp: VERSIONS_def)
  then show ?thesis
  proof cases
    case 1
    with assms show ?thesis
      using run_grants [OF grants_are_privileges(2)] by (simp add: revision_0003_def layout_at_def)
  next
    case 2
    with assms show ?thesis
      using run_from_layout [OF _ up_down(2)] run_from_layout [OF _ up_down(4)]
        run_from_layout [OF _ up_down(6)] run_from_layout [OF _ up_down(8)]
      by (auto simp: revision_defs layout_at_def layout_0003)
  qed
qed

lemma migrated_layout: "migrated E v S \<Longrightarrow> layout S = layout (layout_at v)"
proof (induction rule: migrated.induct)
  case (migrated_step v S env v' S')
  from migrated_step.hyps(3) show ?case
  proof (cases rule: migration_stepE [consumes 1, case_names up down])
    case (up rv stmts)
    with upgrade_runs [of rv env stmts S] migrated_step.IH show ?thesis by auto
  next
    case (down rv stmts)
    with downgrade_runs [of rv env stmts S] migrated_step.IH show ?thesis by auto
  qed
qed (simp add: layout_at_def)

section \<open>Every way leads to the same schema\<close>

lemma migrated_version: "migrated E v S \<Longrightarrow> v = None \<or> v \<in> (Some \<circ> rv_revision) ` set VERSIONS"
proof (induction rule: migrated.induct)
  case (migrated_step v S env v' S')
  have "rv_down_revision rv = None \<or> rv_down_revision rv \<in> (Some \<circ> rv_revision) ` set VERSIONS"
    if "rv \<in> set VERSIONS" for rv
    using that by (auto simp: VERSIONS_def revision_defs)
  with migrated_step.hyps(3) show ?case by (auto elim!: migration_stepE)
qed simp

definition HEAD_TABLES :: "string list" where
  "HEAD_TABLES = [''alembic_version'', ''adk_internal_metadata'', ''sessions'', ''events'', ''app_states'',
     ''user_states'', ''tasks'', CASE_TABLE]"

text \<open>The straight way up, whatever the role.\<close>

lemma straight_up:
  assumes "env \<in> E" "resolve_role env = Inr role" "role \<noteq> []"
  shows "migrated E (Some ''0004'') (at_0004 role)" "migrated E (Some HEAD) (at_0005 role)"
proof -
  have g: "upgrade_0003 env ''postgresql'' = Inr [GrantUsage role, GrantOnAllTables role, GrantOnFutureTables role]"
    using assms(2,3) by (simp add: upgrade_0003_def)
  have v: "revision_0001 \<in> set VERSIONS" "revision_0002 \<in> set VERSIONS" "revision_0003 \<in> set VERSIONS"
    "revision_0004 \<in> set VERSIONS" "revision_0005 \<in> set VERSIONS" by (simp_all add: VERSIONS_def)
  have 1: "migration_step env (None, new_schema) (Some ''0001'', at_0001)"
    using step_up [OF v(1), of env, OF _ up_0001] by (simp add: revision_0001_def)
  have 2: "migration_step env (Some ''0001'', at_0001) (Some ''0002'', at_0002)"
    using step_up [OF v(2), of env, OF _ up_0002] by (simp add: revision_0002_def)
  have 3: "migration_step env (Some ''0002'', at_0002) (Some ''0003'', at_0003 role)"
    using step_up [OF v(3), of env, OF _ up_0003] g by (simp add: revision_0003_def)
  have 4: "migration_step env (Some ''0003'', at_0003 role) (Some ''0004'', at_0004 role)"
    using step_up [OF v(4), of env, OF _ up_0004] by (simp add: revision_0004_def)
  have 5: "migration_step env (Some ''0004'', at_0004 role) (Some HEAD, at_0005 role)"
    using step_up [OF v(5), of env, OF _ up_0005] by (simp add: revision_0005_def HEAD_def)
  note next_one = migrated_step [OF _ assms(1)]
  show m4: "migrated E (Some ''0004'') (at_0004 role)"
    by (rule next_one [OF next_one [OF next_one [OF next_one [OF migrated_new 1] 2] 3] 4])
  show "migrated E (Some HEAD) (at_0005 role)" by (rule next_one [OF m4 5])
qed

lemma head_tables:
  "map tb_name (sc_tables (at_0005 role)) = HEAD_TABLES"
  "map_option tb_columns (find_table (at_0005 role) CASE_TABLE) = Some case_columns"
  by code_simp+

text \<open>C26. Whatever upgrades and downgrades a schema went through, under whatever environments, its tables, indexes, functions, triggers and rows follow from the revision it is at; at the last one the tables are the eight the program uses, and the cases table has the columns of revision 0005.\<close>

theorem schema_follows_the_revision:
  assumes "migrated E v S" "migrated E' v S'"
  shows "sc_tables S = sc_tables S' \<and> sc_indexes S = sc_indexes S' \<and> sc_functions S = sc_functions S' \<and>
    sc_triggers S = sc_triggers S' \<and> sc_rows S = sc_rows S' \<and>
    (v = Some HEAD \<longrightarrow> map tb_name (sc_tables S) = HEAD_TABLES \<and>
       map_option tb_columns (find_table S CASE_TABLE) = Some case_columns)"
proof -
  have l: "layout S = layout (layout_at v)" "layout S' = layout (layout_at v)"
    using assms migrated_layout by blast+
  moreover have "map tb_name (sc_tables S) = HEAD_TABLES"
    "map_option tb_columns (find_table S CASE_TABLE) = Some case_columns" if "v = Some HEAD"
    using l(1) that head_tables [of "[]"] by (simp_all add: layout_eq_iff layout_at_def HEAD_def find_table_def)
  ultimately show ?thesis by (simp add: layout_eq_iff)
qed

theorem schema_follows_the_revision_witness:
  "sc_tables (at_0005 ''agents@p.iam'') = sc_tables (at_0005 ''other@p.iam'') \<and>
   map tb_name (sc_tables (at_0005 ''other@p.iam'')) = HEAD_TABLES"
proof -
  have r: "resolve_role [(''DB_AGENT_ROLE'', ''other@p.iam'')] = Inr ''other@p.iam''" by code_simp
  have "migrated UNIV (Some HEAD) (at_0005 ''agents@p.iam'')" "migrated UNIV (Some HEAD) (at_0005 ''other@p.iam'')"
    using straight_up(2) [OF _ demo_role] straight_up(2) [OF _ r] by simp_all
  from schema_follows_the_revision [OF this] show ?thesis by auto
qed

text \<open>What is left to run from a version up to the last revision, and down to none.\<close>

fun ascends :: "string option \<Rightarrow> revision list \<Rightarrow> bool" where
  "ascends v [] = (v = Some HEAD)"
| "ascends v (rv # rvs) = (rv \<in> set VERSIONS \<and> rv_down_revision rv = v \<and> ascends (Some (rv_revision rv)) rvs)"

fun descends :: "string option \<Rightarrow> revision list \<Rightarrow> bool" where
  "descends v [] = (v = None)"
| "descends v (rv # rvs) = (rv \<in> set VERSIONS \<and> v = Some (rv_revision rv) \<and> descends (rv_down_revision rv) rvs)"

lemma role_resolves:
  assumes "resolve_role env = Inr role"
  shows "\<exists>qs. rv \<in> set VERSIONS \<longrightarrow> rv_upgrade rv env = Inr qs" "\<exists>qs. rv \<in> set VERSIONS \<longrightarrow> rv_downgrade rv env = Inr qs"
  using assms by (auto simp: VERSIONS_def revision_defs upgrade_0003_def downgrade_0003_def)

lemma ascend:
  assumes "resolve_role env = Inr role"
  shows "ascends v rvs \<Longrightarrow> layout S = layout (layout_at v) \<Longrightarrow>
    \<exists>S'. rtranclp (migration_step env) (v, S) (Some HEAD, S')"
proof (induction rvs arbitrary: v S)
  case (Cons rv rvs)
  obtain qs where q: "rv_upgrade rv env = Inr qs" using role_resolves(1) [OF assms] Cons.prems(1) by auto
  obtain S1 where s: "run_stmts qs S = Inr S1" "layout S1 = layout (layout_at (Some (rv_revision rv)))"
    using upgrade_runs [of rv env qs S] q Cons.prems by auto
  have "migration_step env (v, S) (Some (rv_revision rv), S1)"
    using step_up [of rv env qs S S1] q s(1) Cons.prems(1) by auto
  then show ?case using Cons.IH [OF _ s(2)] Cons.prems(1) by (auto intro: converse_rtranclp_into_rtranclp)
qed auto

lemma descend:
  assumes "resolve_role env = Inr role"
  shows "descends v rvs \<Longrightarrow> layout S = layout (layout_at v) \<Longrightarrow>
    \<exists>S'. rtranclp (migration_step env) (v, S) (None, S') \<and> layout S' = layout new_schema"
proof (induction rvs arbitrary: v S)
  case (Cons rv rvs)
  obtain qs where q: "rv_downgrade rv env = Inr qs" using role_resolves(2) [OF assms] Cons.prems(1) by auto
  obtain S1 where s: "run_stmts qs S = Inr S1" "layout S1 = layout (layout_at (rv_down_revision rv))"
    using downgrade_runs [of rv env qs S] q Cons.prems by auto
  have "migration_step env (v, S) (rv_down_revision rv, S1)"
    using step_down [of rv env qs S S1] q s(1) Cons.prems(1) by auto
  then show ?case using Cons.IH [OF _ s(2)] Cons.prems(1) by (auto intro: converse_rtranclp_into_rtranclp)
qed (auto simp: layout_at_def)

lemma ways:
  assumes "v = None \<or> v \<in> (Some \<circ> rv_revision) ` set VERSIONS"
  shows "\<exists>rvs. ascends v rvs" "\<exists>rvs. descends v rvs"
proof -
  have up: "ascends None VERSIONS" "ascends (Some ''0001'') (drop 1 VERSIONS)" "ascends (Some ''0002'') (drop 2 VERSIONS)"
    "ascends (Some ''0003'') (drop 3 VERSIONS)" "ascends (Some ''0004'') (drop 4 VERSIONS)" "ascends (Some ''0005'') []"
    by (simp_all add: VERSIONS_def revision_defs HEAD_def)
  have down: "descends None []" "descends (Some ''0001'') (rev (take 1 VERSIONS))" "descends (Some ''0002'') (rev (take 2 VERSIONS))"
    "descends (Some ''0003'') (rev (take 3 VERSIONS))" "descends (Some ''0004'') (rev (take 4 VERSIONS))"
    "descends (Some ''0005'') (rev VERSIONS)"
    by (simp_all add: VERSIONS_def revision_defs)
  have "v \<in> {None, Some ''0001'', Some ''0002'', Some ''0003'', Some ''0004'', Some ''0005''}"
    using assms by (auto simp: VERSIONS_def revision_defs)
  with up show "\<exists>rvs. ascends v rvs" by blast
  from \<open>v \<in> _\<close> down show "\<exists>rvs. descends v rvs" by blast
qed



section \<open>The role's privileges follow the revision\<close>

definition state_at :: "string \<Rightarrow> string option \<Rightarrow> schema_state" where
  "state_at role v =
     (if v = None then new_schema else if v = Some ''0001'' then at_0001 else if v = Some ''0002'' then at_0002
      else if v = Some ''0003'' then at_0003 role else if v = Some ''0004'' then at_0004 role else at_0005 role)"

lemma migrated_state:
  assumes "resolve_role env = Inr role" "role \<noteq> []"
  shows "migrated {env} v S \<Longrightarrow> S = state_at role v"
proof (induction rule: migrated.induct)
  case (migrated_step v S env' v' S')
  note exact = up_0001 down_0001 up_0002 down_0002 up_0003 [of role] down_0003 [of role] up_0004 [of role]
    down_0004 [of role] up_0005 [of role] down_0005 [of role]
  from migrated_step.hyps(2,3) migrated_step.IH assms show ?case
    by (auto elim!: migration_stepE simp: VERSIONS_def revision_defs state_at_def exact upgrade_0003_def downgrade_0003_def
        simp del: run_stmts.simps)
qed (simp add: state_at_def)

lemma no_privileges:
  "sc_usage at_0002 = []" "sc_dml at_0002 = []" "sc_default_dml at_0002 = []"
  "sc_usage at_0001 = []" "sc_dml at_0001 = []" "sc_default_dml at_0001 = []"
  by code_simp+

lemma grants_cover:
  "run_stmts [GrantUsage role, GrantOnAllTables role, GrantOnFutureTables role] S = Inr S' \<Longrightarrow> covered role S'"
  by (auto simp: covered_def dml_for_def)

lemma covered_since_0003: "covered role (at_0003 role)" "covered role (at_0004 role)" "covered role (at_0005 role)"
proof -
  show 3: "covered role (at_0003 role)"
    by (rule grants_cover [OF up_0003])
  show 4: "covered role (at_0004 role)" by (rule run_stmts_covered [OF up_0004 3]) code_simp
  show "covered role (at_0005 role)" by (rule run_stmts_covered [OF up_0005 4]) code_simp
qed

text \<open>C29. With one accepted role setting, whatever the sequence of upgrades and downgrades: before revision 0003 nobody holds a privilege, and from it on the role has USAGE, DML on every table, and DML on the tables created later.\<close>

theorem privileges_follow_the_revision:
  assumes "migrated {env} v S" "resolve_role env = Inr role" "role \<noteq> []"
  shows "if v \<in> {None, Some ''0001'', Some ''0002''}
    then sc_usage S = [] \<and> sc_dml S = [] \<and> sc_default_dml S = [] else covered role S"
proof -
  have "v \<in> {None, Some ''0001'', Some ''0002'', Some ''0003'', Some ''0004'', Some ''0005''}"
    using migrated_version [OF assms(1)] by (auto simp: VERSIONS_def revision_defs)
  with migrated_state [OF assms(2,3,1)] show ?thesis
    using no_privileges covered_since_0003
    by (auto simp: state_at_def new_schema_def empty_schema_def)
qed

theorem privileges_follow_the_revision_witness: "covered ''agents@p.iam'' (at_0004 ''agents@p.iam'')"
  using privileges_follow_the_revision [OF straight_up(1) [OF singletonI demo_role] demo_role] by simp

end
