(* ===== verification/Agents.thy ===== *)
theory Agents
  imports Cluster_Config Agent_Prose
begin

text \<open>
  The agents and how they reach each other: the request contracts (\<^verbatim>\<open>app/agents/contracts.py\<close>), the
  resolver (\<^verbatim>\<open>app/cluster/resolver.py\<close>), the typed peer tool (\<^verbatim>\<open>app/cluster/peer_tool.py\<close>), the
  agent specs and their builder (\<^verbatim>\<open>app/agents/base.py\<close>, the four \<^verbatim>\<open>agent.py\<close> and the registry),
  and the selection of this process's agent (\<^verbatim>\<open>app/cluster/di.py\<close>, \<^verbatim>\<open>app/agent.py\<close>). Pydantic's
  validation, ADK's \<open>AgentTool.run_async\<close> and its well-known card path are parameters. The
  prose of the specs is in \<^verbatim>\<open>Agent_Prose\<close>.
\<close>

section \<open>Contracts\<close>

datatype field_kind = FStr | FStrList

record field_spec =
  fs_name :: string
  fs_kind :: field_kind
  fs_default :: "json option"

record payload_schema =
  ps_name :: string
  ps_fields :: "field_spec list"

definition required_str :: "string \<Rightarrow> field_spec" where
  "required_str n = \<lparr>fs_name = n, fs_kind = FStr, fs_default = None\<rparr>"

definition optional_str :: "string \<Rightarrow> field_spec" where
  "optional_str n = \<lparr>fs_name = n, fs_kind = FStr, fs_default = Some (JStr [])\<rparr>"

definition PeerRequest_fields :: "field_spec list" where
  "PeerRequest_fields =
     [required_str ''case_id'',
      \<lparr>fs_name = ''document_refs'', fs_kind = FStrList, fs_default = Some (JArr [])\<rparr>]"

definition ResearchRequest :: payload_schema where
  "ResearchRequest = \<lparr>ps_name = ''ResearchRequest'', ps_fields = PeerRequest_fields @
     [required_str ''question'', optional_str ''constraints'']\<rparr>"

definition MathRequest :: payload_schema where
  "MathRequest = \<lparr>ps_name = ''MathRequest'', ps_fields = PeerRequest_fields @
     [required_str ''expression'', optional_str ''publish_as'', optional_str ''approved_by'',
      optional_str ''decision_note'']\<rparr>"

definition PlannerRequest :: payload_schema where
  "PlannerRequest = \<lparr>ps_name = ''PlannerRequest'', ps_fields = PeerRequest_fields @
     [required_str ''objective'', optional_str ''constraints'']\<rparr>"

definition UnknownPeerRequest :: payload_schema where
  "UnknownPeerRequest = \<lparr>ps_name = ''UnknownPeerRequest'', ps_fields =
     [required_str ''case_id'', required_str ''task'']\<rparr>"

type_synonym payload_map = "(string, payload_schema) dict"

definition PAYLOADS :: payload_map where
  "PAYLOADS = [(''research'', ResearchRequest), (''math'', MathRequest), (''planner'', PlannerRequest)]"

section \<open>Resolver and peer tools\<close>

record remote_agent =
  ra_name :: string
  ra_card :: string
  ra_description :: string

record peer_tool =
  pt_agent :: remote_agent
  pt_schema :: payload_schema
  pt_description :: string

text \<open>\<open>AgentTool.__init__\<close> takes the description of the wrapped agent; a non-empty one replaces it.\<close>

definition PeerTool :: "remote_agent \<Rightarrow> payload_schema \<Rightarrow> string \<Rightarrow> peer_tool" where
  "PeerTool agent schema description =
     \<lparr>pt_agent = agent, pt_schema = schema,
      pt_description = (if description \<noteq> [] then description else ra_description agent)\<rparr>"

record resolver =
  rs_config :: cluster_config
  rs_payloads :: payload_map
  rs_card_path :: string

definition card_url :: "resolver \<Rightarrow> peer_spec \<Rightarrow> string" where
  "card_url r peer = peer_base_url peer @ cc_rpc_path (rs_config r) @ rs_card_path r"

definition schema_for :: "resolver \<Rightarrow> string \<Rightarrow> payload_schema" where
  "schema_for r name = (case dict_get (rs_payloads r) name of None \<Rightarrow> UnknownPeerRequest | Some s \<Rightarrow> s)"

definition quoted :: "string \<Rightarrow> string" where
  "quoted s = [CHR 0x27] @ s @ [CHR 0x27]"

text \<open>The dash of the second description is U+2014, three bytes of UTF-8.\<close>

definition resolve_peer :: "resolver \<Rightarrow> peer_spec \<Rightarrow> peer_tool" where
  "resolve_peer r peer =
     (let remote = \<lparr>ra_name = peer_name peer, ra_card = card_url r peer,
                    ra_description = ''Remote specialist agent '' @ quoted (peer_name peer) @
                      '' reachable over A2A at '' @ peer_base_url peer @ ''.''\<rparr>
      in PeerTool remote (schema_for r (peer_name peer))
           (''Delegate a self-contained task to the '' @ quoted (peer_name peer) @
            '' specialist agent over A2A. It receives ONLY the fields below '' @
            [CHR 0xE2, CHR 0x80, CHR 0x94] @ '' it cannot see this conversation '' @
            [CHR 0xE2, CHR 0x80, CHR 0x94] @ '' so state everything it needs.''))"

definition resolve :: "resolver \<Rightarrow> string \<Rightarrow> peer_tool result" where
  "resolve r name =
     (case find (\<lambda>p. peer_name p = name) (cc_peers (rs_config r)) of
        Some p \<Rightarrow> Inr (resolve_peer r p)
      | None \<Rightarrow> Inl (KeyError (''No peer named '' @ repr name @ '' in cluster configuration'')))"

definition resolve_all :: "resolver \<Rightarrow> peer_tool list" where
  "resolve_all r = map (resolve_peer r) (cc_peers (rs_config r))"

text \<open>The declaration shown to the calling model; \<open>model_json_schema\<close> is pydantic's.\<close>

record function_declaration =
  fd_name :: string
  fd_description :: string
  fd_parameters_json_schema :: json

definition get_declaration :: "(payload_schema \<Rightarrow> json) \<Rightarrow> peer_tool \<Rightarrow> function_declaration" where
  "get_declaration model_json_schema t =
     \<lparr>fd_name = ra_name (pt_agent t), fd_description = pt_description t,
      fd_parameters_json_schema = model_json_schema (pt_schema t)\<rparr>"

text \<open>
  \<open>run_async\<close>: \<open>validate\<close> is \<open>model_validate\<close> followed by \<open>model_dump\<close> (\<open>Inl\<close> the text of the
  exception), \<open>call\<close> the delegation over A2A.
\<close>

definition run_async ::
  "(payload_schema \<Rightarrow> json_dict \<Rightarrow> string + json_dict) \<Rightarrow>
   (remote_agent \<Rightarrow> json_dict \<Rightarrow> 'w \<Rightarrow> json result \<times> 'w) \<Rightarrow>
   peer_tool \<Rightarrow> json_dict \<Rightarrow> 'w \<Rightarrow> json result \<times> 'w" where
  "run_async validate call tool args w =
     (case validate (pt_schema tool) args of
        Inl e \<Rightarrow> (Inl (ValueError (''Invalid payload for peer '' @ repr (ra_name (pt_agent tool)) @ '': '' @ e)), w)
      | Inr payload \<Rightarrow> call (pt_agent tool) payload w)"

section \<open>Specs and the builder\<close>

definition TIERS :: "string list" where
  "TIERS = [''fast'', ''balanced'', ''capable'']"

record agent_spec =
  sp_name :: string
  sp_description :: string
  sp_instruction :: string
  sp_tier :: string
  sp_tools :: "string list"
  sp_peers :: "string list"

definition ORCHESTRATOR :: agent_spec where
  "ORCHESTRATOR =
     \<lparr>sp_name = ''orchestrator'', sp_description = ORCHESTRATOR_description, sp_instruction = ORCHESTRATOR_instruction,
      sp_tier = ''balanced'', sp_tools = [], sp_peers = [''research'', ''math'', ''planner'']\<rparr>"

definition RESEARCH :: agent_spec where
  "RESEARCH =
     \<lparr>sp_name = ''research'', sp_description = RESEARCH_description, sp_instruction = RESEARCH_instruction,
      sp_tier = ''balanced'', sp_tools = [''web_search'', ''read_document''], sp_peers = []\<rparr>"

definition MATH :: agent_spec where
  "MATH =
     \<lparr>sp_name = ''math'', sp_description = MATH_description, sp_instruction = MATH_instruction,
      sp_tier = ''balanced'', sp_tools = [''calculate'', ''publish_result''], sp_peers = []\<rparr>"

definition PLANNER :: agent_spec where
  "PLANNER =
     \<lparr>sp_name = ''planner'', sp_description = PLANNER_description, sp_instruction = PLANNER_instruction,
      sp_tier = ''balanced'', sp_tools = [], sp_peers = []\<rparr>"

definition AGENTS :: "(string, agent_spec) dict" where
  "AGENTS = dict_of_pairs (map (\<lambda>s. (sp_name s, s)) [ORCHESTRATOR, RESEARCH, MATH, PLANNER])"

definition DEFAULT_AGENT :: "string" where
  "DEFAULT_AGENT = sp_name ORCHESTRATOR"

record 'm models =
  md_fast :: 'm
  md_balanced :: 'm
  md_capable :: 'm

datatype tool = Function string | Peer peer_tool

record 'm llm_agent =
  la_name :: string
  la_model :: 'm
  la_description :: string
  la_instruction :: string
  la_tools :: "tool list"
  la_after_agent_callback :: string

definition repr_tuple :: "string list \<Rightarrow> string" where
  "repr_tuple ss = ''('' @ join '', '' (map repr ss) @ '')''"

definition build_agent :: "agent_spec \<Rightarrow> 'm models \<Rightarrow> resolver \<Rightarrow> 'm llm_agent result" where
  "build_agent spec ms r =
     (if sp_tier spec \<notin> set TIERS
      then Inl (ValueError (''Agent '' @ repr (sp_name spec) @ '' has unknown tier '' @
             repr (sp_tier spec) @ ''; expected one of '' @ repr_tuple TIERS @ ''.''))
      else
        let model = the (dict_get [(''fast'', md_fast ms), (''balanced'', md_balanced ms),
                                   (''capable'', md_capable ms)] (sp_tier spec))
        in Inr \<lparr>la_name = sp_name spec, la_model = model, la_description = sp_description spec,
                la_instruction = sp_instruction spec,
                la_tools = map Function (sp_tools spec) @ map Peer (resolve_all r),
                la_after_agent_callback = ''restate_structured_results''\<rparr>)"

section \<open>This process's agent\<close>

definition provide_config :: "env \<Rightarrow> cluster_config" where
  "provide_config env =
     (let name = or_else (strip (env_default env ''AGENT_NAME'' DEFAULT_AGENT)) DEFAULT_AGENT;
          default_peers = (case dict_get AGENTS name of Some spec \<Rightarrow> sp_peers spec | None \<Rightarrow> [])
      in cluster_from_env env (Some name) default_peers)"

definition provide_resolver :: "string \<Rightarrow> cluster_config \<Rightarrow> resolver" where
  "provide_resolver card_path config =
     \<lparr>rs_config = config, rs_payloads = PAYLOADS, rs_card_path = card_path\<rparr>"

definition repr_list_of :: "string list \<Rightarrow> string" where
  "repr_list_of ss = ''['' @ join '', '' (map repr ss) @ '']''"

definition root_agent :: "string \<Rightarrow> 'm models \<Rightarrow> env \<Rightarrow> 'm llm_agent result" where
  "root_agent card_path ms env =
     (let r = provide_resolver card_path (provide_config env);
          name = cc_name (rs_config r)
      in case dict_get AGENTS name of
           None \<Rightarrow> Inl (KeyError (''Unknown AGENT_NAME '' @ repr name @ ''; registered: '' @
                    repr_list_of (sort (dict_keys AGENTS))))
         | Some spec \<Rightarrow> build_agent spec ms r)"

section \<open>Facts about the registry and the tools\<close>

lemmas spec_defs = ORCHESTRATOR_def RESEARCH_def MATH_def PLANNER_def Let_def

lemma AGENTS_eq:
  "AGENTS = [(''orchestrator'', ORCHESTRATOR), (''research'', RESEARCH),
                (''math'', MATH), (''planner'', PLANNER)]"
  by (simp add: AGENTS_def dict_of_pairs_def spec_defs)

lemma DEFAULT_AGENT_eq: "DEFAULT_AGENT = DEFAULT_AGENT_NAME"
  by (simp add: DEFAULT_AGENT_def DEFAULT_AGENT_NAME_def spec_defs)

lemma AGENTS_spec:
  "dict_get AGENTS n = Some spec \<Longrightarrow>
   sp_name spec = n \<and> sp_tier spec \<in> set TIERS \<and>
   (\<forall>q \<in> set (sp_peers spec). \<exists>s. dict_get AGENTS q = Some s \<and> dict_get PAYLOADS q \<noteq> None \<and> sp_peers s = [])"
  by (auto simp: AGENTS_eq PAYLOADS_def TIERS_def spec_defs split: if_splits)

lemma cc_name_provide_config:
  "cc_name (provide_config env) = or_else (strip (env_default env ''AGENT_NAME'' DEFAULT_AGENT_NAME)) DEFAULT_AGENT_NAME"
proof -
  have "strip DEFAULT_AGENT_NAME = DEFAULT_AGENT_NAME" by (simp add: DEFAULT_AGENT_NAME_def strip_def strip_of_def lstrip_of_def rstrip_of_def is_space_def)
  then have "strip (or_else (strip s) DEFAULT_AGENT_NAME) = or_else (strip s) DEFAULT_AGENT_NAME" for s
    by (simp add: or_else_def)
  moreover have "or_else (or_else x DEFAULT_AGENT_NAME) DEFAULT_AGENT_NAME = or_else x DEFAULT_AGENT_NAME" for x
    by (simp add: or_else_def)
  ultimately show ?thesis
    unfolding provide_config_def cluster_from_env_def Let_def DEFAULT_AGENT_eq by simp
qed

lemma build_agent_tools:
  "build_agent spec ms r = Inr a \<Longrightarrow>
   la_name a = sp_name spec \<and> la_tools a = map Function (sp_tools spec) @ map Peer (resolve_all r)"
  by (auto simp: build_agent_def Let_def split: if_splits)

lemma build_agent_Inl_iff: "(\<exists>e. build_agent spec ms r = Inl e) \<longleftrightarrow> sp_tier spec \<notin> set TIERS"
  by (auto simp: build_agent_def Let_def)

lemma resolve_all_names: "map (ra_name \<circ> pt_agent) (resolve_all r) = map peer_name (cc_peers (rs_config r))"
  by (simp add: resolve_all_def resolve_peer_def PeerTool_def Let_def)

lemma resolve_peer_simps [simp]:
  "ra_name (pt_agent (resolve_peer r p)) = peer_name p"
  "ra_card (pt_agent (resolve_peer r p)) = card_url r p"
  "pt_schema (resolve_peer r p) = schema_for r (peer_name p)"
  by (simp_all add: resolve_peer_def PeerTool_def Let_def)

lemma find_peer_iff:
  "distinct (map peer_name ps) \<Longrightarrow>
   find (\<lambda>p. peer_name p = name) ps = Some p \<longleftrightarrow> p \<in> set ps \<and> peer_name p = name"
  by (induction ps) (auto simp: image_iff)

text \<open>A name is resolved to the tool it has in \<open>resolve_all\<close>, whenever it is configured.\<close>

lemma resolve_Inr_iff:
  assumes "distinct (map peer_name (cc_peers (rs_config r)))"
  shows "resolve r name = Inr t \<longleftrightarrow> t \<in> set (resolve_all r) \<and> ra_name (pt_agent t) = name"
proof (cases "find (\<lambda>p. peer_name p = name) (cc_peers (rs_config r))")
  case None
  then have "\<forall>p \<in> set (cc_peers (rs_config r)). peer_name p \<noteq> name" by (auto simp: find_None_iff)
  with None show ?thesis by (auto simp: resolve_def resolve_all_def)
next
  case (Some p)
  then have p: "p \<in> set (cc_peers (rs_config r))" "peer_name p = name"
    using find_peer_iff [OF assms, of name p] by auto
  have uniq: "q = p" if "q \<in> set (cc_peers (rs_config r))" "peer_name q = name" for q
    using find_peer_iff [OF assms, of name q] Some that by simp
  have "resolve r name = Inr (resolve_peer r p)" using Some by (simp add: resolve_def)
  moreover have "t \<in> set (resolve_all r) \<and> ra_name (pt_agent t) = name \<longleftrightarrow> t = resolve_peer r p"
    using p uniq unfolding resolve_all_def by fastforce
  ultimately show ?thesis by auto
qed

section \<open>Topology\<close>

lemma root_agent_fails_iff:
  "isl (root_agent card_path ms env) =
   (dict_get AGENTS (or_else (strip (env_default env ''AGENT_NAME'' DEFAULT_AGENT_NAME)) DEFAULT_AGENT_NAME) = None)"
proof (cases "dict_get AGENTS (cc_name (provide_config env))")
  case None
  then show ?thesis
    unfolding cc_name_provide_config [symmetric, of env]
    by (simp add: root_agent_def Let_def provide_resolver_def)
next
  case (Some spec)
  then have "sp_tier spec \<in> set TIERS" using AGENTS_spec by blast
  with Some show ?thesis
    unfolding cc_name_provide_config [symmetric, of env]
    using build_agent_Inl_iff [of spec ms "provide_resolver card_path (provide_config env)"]
    by (cases "build_agent spec ms (provide_resolver card_path (provide_config env))")
      (auto simp: root_agent_def Let_def provide_resolver_def)
qed

text \<open>Building the root agent fails exactly when the configured name is not in the agent catalog.\<close>

theorem startup_fails_iff_agent_unknown:
  "isl (root_agent card_path ms env) =
   (dict_get AGENTS (or_else (strip (env_default env ''AGENT_NAME'' DEFAULT_AGENT_NAME)) DEFAULT_AGENT_NAME) = None)"
  by (rule root_agent_fails_iff)

lemma default_peers_named:
  assumes "list_all (\<lambda>n. n \<noteq> [] \<and> strip n = n \<and> CHR ''='' \<notin> set n) names" "distinct names"
  shows "map peer_name (parse_peers None ns cd scheme port names) = names"
proof -
  let ?mk = "\<lambda>n. \<lparr>peer_name = n, peer_base_url = rstrip_slash (service_dns_url n ns cd scheme port)\<rparr>"
  have one: "parse_peer ns cd scheme port n = Some (?mk n)"
    if "n \<noteq> []" "strip n = n" "CHR ''='' \<notin> set n" for n
    using that partition_on_fresh [OF that(3)] by (simp add: parse_peer_def Let_def)
  have "List.map_filter (parse_peer ns cd scheme port) names = map ?mk names"
    using assms(1) by (induction names) (simp_all add: List.map_filter_simps one)
  moreover have "dict_of_pairs (map (\<lambda>p. (peer_name p, p)) (map ?mk names)) = map (\<lambda>p. (peer_name p, p)) (map ?mk names)"
    using assms(2) by (intro dict_of_pairs_distinct) (simp add: comp_def)
  ultimately show ?thesis by (simp add: parse_peers_def peer_items_def dict_values_def comp_def)
qed

lemma AGENTS_peers_clean:
  "dict_get AGENTS n = Some spec \<Longrightarrow>
   list_all (\<lambda>n. n \<noteq> [] \<and> strip n = n \<and> CHR ''='' \<notin> set n) (sp_peers spec) \<and> distinct (sp_peers spec)"
  by (auto simp: AGENTS_eq spec_defs strip_def strip_of_def lstrip_of_def rstrip_of_def is_space_def split: if_splits)

text \<open>With no \<^verbatim>\<open>A2A_PEERS\<close> set, an agent's peers are those of its catalog entry, in order, and each of them is an agent of the catalog with its own payload schema.\<close>

theorem default_topology_is_closed:
  assumes "dict_get AGENTS (cc_name (provide_config env)) = Some spec" "dict_get env ''A2A_PEERS'' = None"
  shows "map peer_name (cc_peers (provide_config env)) = sp_peers spec \<and>
    list_all (\<lambda>p. dict_get AGENTS (peer_name p) \<noteq> None \<and>
       dict_get PAYLOADS (peer_name p) = Some (schema_for (provide_resolver card_path (provide_config env)) (peer_name p)))
      (cc_peers (provide_config env))"
proof -
  have name: "cc_name (provide_config env) = or_else (strip (env_default env ''AGENT_NAME'' DEFAULT_AGENT)) DEFAULT_AGENT"
    unfolding DEFAULT_AGENT_eq by (rule cc_name_provide_config)
  obtain ns cd scheme port where peers: "cc_peers (provide_config env) = parse_peers None ns cd scheme port (sp_peers spec)"
    using assms name by (simp add: provide_config_def cluster_from_env_def Let_def)
  have names: "map peer_name (cc_peers (provide_config env)) = sp_peers spec"
    unfolding peers using AGENTS_peers_clean [OF assms(1)] by (intro default_peers_named) auto
  have "dict_get AGENTS q \<noteq> None \<and> dict_get PAYLOADS q \<noteq> None" if "q \<in> set (sp_peers spec)" for q
    using AGENTS_spec [OF assms(1)] that by fastforce
  moreover have "peer_name p \<in> set (sp_peers spec)" if "p \<in> set (cc_peers (provide_config env))" for p
    using that names by (metis image_eqI list.set_map)
  ultimately show ?thesis
    using names by (auto simp: list_all_iff schema_for_def provide_resolver_def split: option.splits)
qed

theorem default_topology_is_closed_witness:
  "map peer_name (cc_peers (provide_config [])) = [''research'', ''math'', ''planner'']"
proof -
  have "cc_name (provide_config []) = ''orchestrator''"
    unfolding cc_name_provide_config by (simp add: or_else_def DEFAULT_AGENT_NAME_def strip_def strip_of_def
        lstrip_of_def rstrip_of_def is_space_def)
  then have "dict_get AGENTS (cc_name (provide_config [])) = Some ORCHESTRATOR"
    by (simp add: AGENTS_eq)
  from default_topology_is_closed [OF this, of "[]"] show ?thesis by (simp add: spec_defs)
qed

lemma root_agent_built:
  assumes "root_agent card_path ms env = Inr a"
  obtains spec where "dict_get AGENTS (la_name a) = Some spec"
    "build_agent spec ms (provide_resolver card_path (provide_config env)) = Inr a"
    "la_name a = cc_name (provide_config env)"
proof -
  let ?r = "provide_resolver card_path (provide_config env)"
  obtain spec where s: "dict_get AGENTS (cc_name (rs_config ?r)) = Some spec" "build_agent spec ms ?r = Inr a"
    using assms by (auto simp: root_agent_def Let_def split: option.splits)
  then have "la_name a = cc_name (rs_config ?r)" using build_agent_tools [OF s(2)] AGENTS_spec [OF s(1)] by simp
  with s that show thesis by (simp add: provide_resolver_def)
qed

text \<open>The agent that is built has the tools of its catalog entry followed by one remote tool for each configured peer, with distinct names.\<close>

theorem tools_are_own_then_peers:
  assumes "root_agent card_path ms env = Inr a"
  shows "\<exists>spec. dict_get AGENTS (la_name a) = Some spec \<and>
    la_tools a = map Function (sp_tools spec) @
      map (\<lambda>p. Peer (resolve_peer (provide_resolver card_path (provide_config env)) p))
        (cc_peers (provide_config env)) \<and>
    distinct (map peer_name (cc_peers (provide_config env)))"
proof -
  from assms obtain spec where s: "dict_get AGENTS (la_name a) = Some spec"
    "build_agent spec ms (provide_resolver card_path (provide_config env)) = Inr a" by (rule root_agent_built)
  have "distinct (map peer_name (cc_peers (provide_config env)))"
    by (simp add: provide_config_def cluster_from_env_def Let_def parse_peers_distinct)
  then show ?thesis
    using s build_agent_tools [OF s(2)] by (auto simp: resolve_all_def provide_resolver_def)
qed

theorem tools_are_own_then_peers_witness:
  "\<exists>a spec. root_agent ''/card'' \<lparr>md_fast = (0::nat), md_balanced = 1, md_capable = 2\<rparr> [] = Inr a \<and>
     dict_get AGENTS (la_name a) = Some spec"
proof -
  let ?ms = "\<lparr>md_fast = (0::nat), md_balanced = 1, md_capable = 2\<rparr>"
  have "or_else (strip (env_default [] ''AGENT_NAME'' DEFAULT_AGENT_NAME)) DEFAULT_AGENT_NAME = ''orchestrator''"
    by (simp add: or_else_def DEFAULT_AGENT_NAME_def strip_def strip_of_def lstrip_of_def rstrip_of_def is_space_def)
  then have "\<not> isl (root_agent ''/card'' ?ms [])"
    using root_agent_fails_iff [of "''/card''" ?ms "[]"] by (simp add: AGENTS_eq)
  then obtain a where a: "root_agent ''/card'' ?ms [] = Inr a" by (cases "root_agent ''/card'' ?ms []") auto
  from tools_are_own_then_peers [OF a] a show ?thesis by blast
qed

end
