(* ===== verification/Dbcheck.thy ===== *)
theory Dbcheck
  imports Admin Revisions Agents "HOL-Library.Multiset"
begin

text \<open>
  \<^verbatim>\<open>src/scripts/dbcheck.py\<close>, which prints what the agents' schemas hold. The server it reads is a
  snapshot: the names of its schemas and the rows of the tables the script asks for; a table that is
  not there makes the query fail. A value the server renders (the text of a JSON state, the number of
  messages of a task) is a column of the snapshot.
\<close>

section \<open>What the server holds\<close>

record session_row =
  sr_app_name :: string
  sr_user_id :: string
  sr_id :: string
  sr_state :: string
  sr_update_time :: int

record event_row =
  er_app_name :: string
  er_user_id :: string
  er_session_id :: string

record task_row =
  tr_id :: string
  tr_context_id :: string
  tr_state :: "string option"
  tr_msgs :: "nat option"
  tr_created_at :: int
  tr_updated_at :: int

record schema_data =
  sd_alembic :: "string list option"
  sd_metadata :: "(string, string) dict option"
  sd_sessions :: "session_row list option"
  sd_events :: "event_row list option"
  sd_tasks :: "task_row list option"

record snapshot =
  sn_namespaces :: "string list"
  sn_data :: "string \<Rightarrow> schema_data"

section \<open>The queries\<close>

definition query :: "string \<Rightarrow> 'a option \<Rightarrow> 'a result" where
  "query table rows =
     (case rows of None \<Rightarrow> Inl (StorageError (''relation '' @ table @ '' does not exist'')) | Some r \<Rightarrow> Inr r)"

text \<open>The first value of a result, \<open>None\<close> when it has no row.\<close>

definition scalar_of :: "'a list \<Rightarrow> 'a option" where
  "scalar_of rows = (case rows of [] \<Rightarrow> None | v # _ \<Rightarrow> Some v)"

text \<open>\<^verbatim>\<open>LIKE 'pg_%'\<close>: the underscore stands for any one character.\<close>

definition like_pg :: "string \<Rightarrow> bool" where
  "like_pg s \<longleftrightarrow> startswith s ''pg'' \<and> 2 < length s"

definition listed_schemas :: "string list \<Rightarrow> string list" where
  "listed_schemas names =
     sort (filter (\<lambda>n. \<not> like_pg n \<and> n \<notin> {''information_schema'', ''public''}) names)"

text \<open>\<^verbatim>\<open>ORDER BY ... DESC LIMIT 3\<close>.\<close>

definition latest_rows :: "('a \<Rightarrow> int) \<Rightarrow> 'a list \<Rightarrow> 'a list" where
  "latest_rows at rows = take 3 (sort_key (\<lambda>r. - at r) rows)"

definition events_of :: "string \<Rightarrow> event_row list \<Rightarrow> nat" where
  "events_of sid events = length (filter (\<lambda>e. er_session_id e = sid) events)"

section \<open>The report\<close>

definition none_or :: "string option \<Rightarrow> string" where
  "none_or v = (case v of None \<Rightarrow> ''None'' | Some s \<Rightarrow> s)"

definition ellipsis :: string where
  "ellipsis = [CHR 0xE2, CHR 0x80, CHR 0xA6]"

definition session_line :: "event_row list \<Rightarrow> session_row \<Rightarrow> string" where
  "session_line events row =
     ''    session '' @ py_take 18 (sr_id row) @ ellipsis @ '' user='' @ sr_user_id row @ '' events='' @
     nat_str (events_of (sr_id row) events) @ '' state='' @ sr_state row"

definition task_line :: "task_row \<Rightarrow> string" where
  "task_line row =
     (let touched = tr_updated_at row > tr_created_at row
      in ''    task '' @ py_take 18 (tr_id row) @ ellipsis @ '' state='' @ none_or (tr_state row) @ '' msgs='' @
         none_or (map_option nat_str (tr_msgs row)) @ '' ctx='' @ py_take 12 (tr_context_id row) @ ellipsis @
         '' updated_at>created_at='' @ bool_str touched)"

definition count_line :: "string \<Rightarrow> nat \<Rightarrow> string" where
  "count_line table n = ''  '' @ padded 9 table @ '' rows='' @ nat_str n"

text \<open>What is printed until a step fails.\<close>

fun printed :: "string list result list \<Rightarrow> string list \<times> unit result" where
  "printed [] = ([], Inr ())"
| "printed (Inl e # steps) = ([], Inl e)"
| "printed (Inr ls # steps) = (case printed steps of (out, r) \<Rightarrow> (ls @ out, r))"

definition check_schema :: "string \<Rightarrow> schema_data \<Rightarrow> string list result list" where
  "check_schema schema D =
     [Inr [''=== '' @ schema @ '' ===''],
      bind_result (query ''alembic_version'' (sd_alembic D)) (\<lambda>versions.
      bind_result (query ''adk_internal_metadata'' (sd_metadata D)) (\<lambda>meta.
        Inr [''  alembic='' @ none_or (scalar_of versions) @ ''  adk_schema_version='' @
             none_or (dict_get meta ''schema_version'')])),
      bind_result (query ''sessions'' (sd_sessions D)) (\<lambda>rows. Inr [count_line ''sessions'' (length rows)]),
      bind_result (query ''events'' (sd_events D)) (\<lambda>rows. Inr [count_line ''events'' (length rows)]),
      bind_result (query ''tasks'' (sd_tasks D)) (\<lambda>rows. Inr [count_line ''tasks'' (length rows)]),
      bind_result (query ''sessions'' (sd_sessions D)) (\<lambda>rows.
      bind_result (query ''events'' (sd_events D)) (\<lambda>events.
        Inr (map (session_line events) (latest_rows sr_update_time rows)))),
      bind_result (query ''tasks'' (sd_tasks D)) (\<lambda>rows. Inr (map task_line (latest_rows tr_updated_at rows))),
      Inr [[]]]"

definition CHECK_SCHEMAS :: "env \<Rightarrow> string list" where
  "CHECK_SCHEMAS env = words (env_default env ''CHECK_SCHEMAS'' ''orchestrator research math'')"

definition dbcheck ::
  "(string \<Rightarrow> string result) \<Rightarrow> env \<Rightarrow> snapshot \<Rightarrow> (string list \<times> unit result) \<times> database option" where
  "dbcheck mk env N =
     (case database_from_env env [] of
        Inl e \<Rightarrow> (([], Inl e), None)
      | Inr c \<Rightarrow>
          (case get_engine mk (Database c) of
             (Inl e, d) \<Rightarrow> (([], Inl e), Some d)
           | (Inr _, d) \<Rightarrow>
               (printed (Inr [''schemas: '' @ repr_list_of (listed_schemas (sn_namespaces N)), []] #
                  concat (map (\<lambda>s. check_schema s (sn_data N s)) (CHECK_SCHEMAS env))),
                Some (aclose d))))"

section \<open>What it shows\<close>

lemma printed_result: "\<not> isl (snd (printed steps)) \<longleftrightarrow> list_all (\<lambda>s. \<not> isl s) steps"
  by (induction steps rule: printed.induct) (auto split: prod.splits)

text \<open>The tables of the snapshot are those of the schema's definition.\<close>

definition snapshot_of :: "schema_state \<Rightarrow> schema_data \<Rightarrow> bool" where
  "snapshot_of S D \<longleftrightarrow>
     (sd_alembic D = None \<longleftrightarrow> find_table S ''alembic_version'' = None) \<and>
     (sd_metadata D = None \<longleftrightarrow> find_table S ''adk_internal_metadata'' = None) \<and>
     (sd_sessions D = None \<longleftrightarrow> find_table S ''sessions'' = None) \<and>
     (sd_events D = None \<longleftrightarrow> find_table S ''events'' = None) \<and>
     (sd_tasks D = None \<longleftrightarrow> find_table S ''tasks'' = None)"

lemma find_table_None: "find_table S n = None \<longleftrightarrow> n \<notin> set (map tb_name (sc_tables S))"
  by (auto simp: find_table_def find_None_iff)

lemma check_schema_total:
  "list_all (\<lambda>s. \<not> isl s) (check_schema schema D) \<longleftrightarrow>
   sd_alembic D \<noteq> None \<and> sd_metadata D \<noteq> None \<and> sd_sessions D \<noteq> None \<and> sd_events D \<noteq> None \<and> sd_tasks D \<noteq> None"
  by (cases "sd_alembic D"; cases "sd_metadata D"; cases "sd_sessions D"; cases "sd_events D"; cases "sd_tasks D")
    (simp_all add: check_schema_def query_def)

definition CHECKED :: "string list" where
  "CHECKED = [''alembic_version'', ''adk_internal_metadata'', ''sessions'', ''events'', ''tasks'']"

lemma checked_tables:
  "list_all (\<lambda>n. n \<in> set (map tb_name (sc_tables at_0002))) CHECKED"
  "list_all (\<lambda>n. n \<in> set (map tb_name (sc_tables (at_0004 [])))) CHECKED"
  "list_all (\<lambda>n. n \<in> set (map tb_name (sc_tables (at_0005 [])))) CHECKED"
  "''tasks'' \<notin> set (map tb_name (sc_tables at_0001))"
  "''tasks'' \<notin> set (map tb_name (sc_tables new_schema))"
  by code_simp+

lemma checked_iff_revision:
  assumes "migrated E v S" "snapshot_of S D"
  shows "list_all (\<lambda>s. \<not> isl s) (check_schema schema D) \<longleftrightarrow> v \<notin> {None, Some ''0001''}"
proof -
  have "v \<in> {None, Some ''0001'', Some ''0002'', Some ''0003'', Some ''0004'', Some ''0005''}"
    using migrated_version [OF assms(1)] by (auto simp: VERSIONS_def revision_defs)
  moreover have "sc_tables S = sc_tables (layout_at v)"
    using migrated_layout [OF assms(1)] by (simp add: layout_eq_iff)
  ultimately have "list_all (\<lambda>n. n \<in> set (map tb_name (sc_tables S))) CHECKED \<longleftrightarrow> v \<notin> {None, Some ''0001''}"
    using checked_tables by (auto simp: layout_at_def CHECKED_def)
  then show ?thesis
    using assms(2) unfolding check_schema_total snapshot_of_def find_table_None by (simp add: CHECKED_def)
qed


definition check_env :: env where
  "check_env = demo_env @ [(''CHECK_SCHEMAS'', '' math  research'')]"

definition full_data :: schema_data where
  "full_data = \<lparr>sd_alembic = Some [HEAD], sd_metadata = Some [(''schema_version'', ''1'')], sd_sessions = Some [],
     sd_events = Some [], sd_tasks = Some []\<rparr>"

lemma full_snapshot: "snapshot_of (at_0005 role) full_data"
  unfolding snapshot_of_def find_table_None head_tables by (simp add: full_data_def HEAD_TABLES_def)


text \<open>The rows that are listed: at most three, and none that is left out was updated later.\<close>

lemma latest_spec:
  "length (latest_rows at rows) = min 3 (length rows)"
  "\<exists>rest. mset rows = mset (latest_rows at rows) + mset rest \<and> (\<forall>r \<in> set (latest_rows at rows). \<forall>q \<in> set rest. at q \<le> at r)"
proof -
  let ?s = "sort_key (\<lambda>r. - at r) rows"
  have "sorted (map (\<lambda>r. - at r) (take 3 ?s @ drop 3 ?s))" by simp
  then have "\<forall>r \<in> set (take 3 ?s). \<forall>q \<in> set (drop 3 ?s). at q \<le> at r"
    unfolding map_append sorted_append by auto
  moreover have "mset rows = mset (take 3 ?s) + mset (drop 3 ?s)"
    by (metis append_take_drop_id mset_append mset_sort)
  ultimately show "\<exists>rest. mset rows = mset (latest_rows at rows) + mset rest \<and>
      (\<forall>r \<in> set (latest_rows at rows). \<forall>q \<in> set rest. at q \<le> at r)" unfolding latest_rows_def by blast
qed (simp add: latest_rows_def min.commute)

text \<open>
  A session is identified by application, user and id. The script counts the events of every session
  with that id: whose they are changes nothing.
\<close>

theorem events_are_counted_across_users:
  "events_of sid (map (\<lambda>e. e\<lparr>er_app_name := app, er_user_id := user\<rparr>) events) = events_of sid events"
  by (induction events) (simp_all add: events_of_def)

text \<open>An agent schema whose name starts with \<^verbatim>\<open>pg\<close> is left out of the list, as if it were the server's own.\<close>

theorem pg_names_are_hidden: "listed_schemas [''pgagent'', ''math''] = [''math'']"
  by (simp add: listed_schemas_def like_pg_def startswith_def)

end
