(* ===== verification/Deployment.thy ===== *)
theory Deployment
  imports Dbcheck
begin

text \<open>
  The jobs that prepare a database, one after the other: \<^verbatim>\<open>cluster/bootstrap.py\<close> makes it, \<^verbatim>\<open>migrations/env.py\<close>
  runs once for the schema of each agent, \<^verbatim>\<open>scripts/grant_readers.py\<close> and \<^verbatim>\<open>scripts/dbcheck.py\<close> follow. No code
  of its own: what each does for the next, that a deployment whose settings are accepted comes up as a whole.
\<close>

section \<open>The jobs\<close>

text \<open>Alembic's \<^verbatim>\<open>upgrade head\<close> on a schema that has no revision: every revision, in the order of the chain.\<close>

definition upgrade_head :: "env \<Rightarrow> schema_state \<Rightarrow> schema_state result" where
  "upgrade_head env S =
     foldl (\<lambda>r rv. bind_result r (\<lambda>S. bind_result (rv_upgrade rv env) (\<lambda>qs. run_stmts qs S))) (Inr S) VERSIONS"

fun migrate_all ::
  "(string \<Rightarrow> string result) \<Rightarrow> alembic \<Rightarrow> env \<Rightarrow> string list \<Rightarrow> server \<Rightarrow> unit result \<times> server" where
  "migrate_all mk alembic env [] V = (Inr (), V)"
| "migrate_all mk alembic env (s # ss) V =
     (case run_env False (\<lambda>_. Inr []) mk alembic (Some s) env V of
        (Inl e, V') \<Rightarrow> (Inl e, V')
      | (Inr _, V') \<Rightarrow> migrate_all mk alembic env ss V')"

section \<open>Each job on accepted settings\<close>

lemma upgrade_head_new:
  assumes "resolve_role env = Inr role" "role \<noteq> []"
  shows "upgrade_head env new_schema = Inr (at_0005 role)"
proof -
  have "upgrade_0003 env ''postgresql'' = Inr [GrantUsage role, GrantOnAllTables role, GrantOnFutureTables role]"
    using assms by (simp add: upgrade_0003_def)
  then show ?thesis
    using up_0001 up_0002 up_0003 [of role] up_0004 [of role] up_0005 [of role]
    by (simp add: upgrade_head_def VERSIONS_def revision_defs del: run_stmts.simps)
qed

text \<open>The default schema is all that the settings of one environment differ in.\<close>

lemma database_from_env_schema:
  assumes "database_from_env env s = Inr c"
  shows "database_from_env env s' = Inr (c\<lparr>db_schema := strip (env_default env ''DB_SCHEMA'' s')\<rparr>)"
  using assms by (auto simp: database_from_env_def Let_def split: if_splits)

lemma engine_comes_up:
  assumes "config_enabled c" "\<forall>t. \<exists>k. mk t = Inr k"
  shows "\<exists>e d. get_engine mk (Database c) = (Inr e, d)"
proof -
  obtain k where "mk (db_ip_type c) = Inr k" using assms(2) by blast
  then show ?thesis
    using assms(1)
    by (simp add: get_engine_def engine_locked_def build_alloydb_engine_def build_url_engine_def Database_def Let_def)
qed

definition schema_argument :: "string \<Rightarrow> bool" where
  "schema_argument s \<longleftrightarrow> s \<noteq> [] \<and> strip s = s \<and> identifier_match s"

lemma migrate_new_schema:
  assumes "database_from_env env [] = Inr c" "config_enabled c" "\<forall>t. \<exists>k. mk t = Inr k" "schema_argument s"
    and "dict_get V s = None" "\<forall>ctx. alembic ctx empty_schema = Inr S"
  shows "run_env False render mk alembic (Some s) env V = (Inr [], dict_set V s S)"
proof -
  have "resolve_schema (Some s) env = Inr s" using assms(4) by (simp add: resolve_schema_def schema_argument_def Let_def)
  moreover have r: "resolve_config env s = Inr (c\<lparr>db_schema := s\<rparr>)"
    using database_from_env_schema [OF assms(1), of s] by (simp add: resolve_config_def)
  moreover obtain e d where "get_engine mk (Database (c\<lparr>db_schema := s\<rparr>)) = (Inr e, d)"
    using engine_comes_up [of "c\<lparr>db_schema := s\<rparr>" mk] assms(2,3) by (auto simp: config_enabled_def)
  ultimately show ?thesis using assms(5,6) by (simp add: run_env_def run_migrations_online_def run_migrations_def)
qed

lemma migrate_all_new:
  assumes "database_from_env env [] = Inr c" "config_enabled c" "\<forall>t. \<exists>k. mk t = Inr k"
    and "\<forall>ctx. alembic ctx empty_schema = Inr S"
  shows "list_all schema_argument ss \<Longrightarrow> distinct ss \<Longrightarrow> \<forall>s \<in> set ss. dict_get V s = None \<Longrightarrow>
    fst (migrate_all mk alembic env ss V) = Inr () \<and>
    (\<forall>s. dict_get (snd (migrate_all mk alembic env ss V)) s = (if s \<in> set ss then Some S else dict_get V s))"
proof (induction ss arbitrary: V)
  case (Cons s ss)
  have "run_env False (\<lambda>_. Inr []) mk alembic (Some s) env V = (Inr [], dict_set V s S)"
    using migrate_new_schema [where V = V and s = s and alembic = alembic, OF assms(1-3) _ _ assms(4)] Cons.prems by simp
  moreover have "\<forall>t \<in> set ss. dict_get (dict_set V s S) t = None" using Cons.prems by auto
  note Cons.IH [OF _ _ this]
  ultimately show ?case using Cons.prems by simp
qed simp

lemma bootstrap_succeeds:
  assumes "database_from_env env [] = Inr c" "config_enabled c" "\<forall>t. \<exists>k. mk t = Inr k" "identifier_match (db_name c)"
    and "bootstrap_main mk env databases = (status, databases')"
  shows "status = 0 \<and> (db_name c = MAINTENANCE_DATABASE \<or> db_name c \<in> set databases')"
proof -
  let ?c = "\<lambda>s. c\<lparr>db_schema := s\<rparr>"
  obtain s where d: "build_database env = Inr (Database (?c s))"
    using database_from_env_schema [OF assms(1)] by (auto simp: build_database_def Let_def)
  obtain e admin where "get_engine mk (Database ((?c s)\<lparr>db_name := MAINTENANCE_DATABASE, db_schema := []\<rparr>)) = (Inr e, admin)"
    using engine_comes_up [of "(?c s)\<lparr>db_name := MAINTENANCE_DATABASE, db_schema := []\<rparr>" mk] assms(2,3)
    by (auto simp: config_enabled_def)
  with d assms(2,4,5) show ?thesis
    by (auto simp: bootstrap_main_def ensure_database_def exit_code_def Database_def config_enabled_def Let_def split: if_splits)
qed

lemma grants_succeed:
  assumes "database_from_env env [] = Inr c" "config_enabled c" "\<forall>t. \<exists>k. mk t = Inr k"
    and "reader_names env = Inr readers" "reader_schemas env = Inr schemas" "schemas \<noteq> []" "set schemas \<subseteq> set existing"
  shows "grant_main mk env existing privilege = (0, if readers = [] then [] else reader_grants schemas readers)"
proof -
  let ?c = "\<lambda>s. c\<lparr>db_schema := s\<rparr>"
  obtain s where d: "build_database env = Inr (Database (?c s))"
    using database_from_env_schema [OF assms(1)] by (auto simp: build_database_def Let_def)
  obtain e admin where "get_engine mk (Database ((?c s)\<lparr>db_schema := []\<rparr>)) = (Inr e, admin)"
    using engine_comes_up [of "(?c s)\<lparr>db_schema := []\<rparr>" mk] assms(2,3) by (auto simp: config_enabled_def)
  with d assms(2,4-7) show ?thesis
    by (auto simp: grant_main_def grant_readers_def exit_code_def Database_def config_enabled_def Let_def list_all_iff)
qed

lemma check_succeeds_at_head:
  assumes "database_from_env env [] = Inr c" "config_enabled c" "\<forall>t. \<exists>k. mk t = Inr k"
    and "\<forall>s \<in> set (CHECK_SCHEMAS env). snapshot_of (at_0005 role) (sn_data N s)"
  shows "snd (fst (dbcheck mk env N)) = Inr ()"
proof -
  obtain e d where engine: "get_engine mk (Database c) = (Inr e, d)" using engine_comes_up [OF assms(2,3)] by blast
  have "list_all (\<lambda>q. \<not> isl q) (check_schema s (sn_data N s))" if "s \<in> set (CHECK_SCHEMAS env)" for s
    using assms(4) that unfolding check_schema_total snapshot_of_def find_table_None head_tables
    by (fastforce simp: HEAD_TABLES_def)
  then have "\<not> isl (snd (fst (dbcheck mk env N)))"
    using engine assms(1) by (auto simp: dbcheck_def printed_result list_all_iff simp del: printed.simps)
  then show ?thesis by (cases "snd (fst (dbcheck mk env N))") auto
qed

section \<open>The deployment\<close>


section \<open>A sample deployment\<close>

definition deploy_env :: env where
  "deploy_env = reader_env @ [(''CHECK_SCHEMAS'', ''math research''), (''DB_AGENT_ROLE'', ''agents@p.iam'')]"

definition deploy_alembic :: alembic where
  "deploy_alembic ctx S = upgrade_head deploy_env new_schema"

definition deploy_config :: database_config where
  "deploy_config = demo_config\<lparr>db_schema := []\<rparr>"

lemma deploy_settings:
  "database_from_env deploy_env [] = Inr deploy_config" "config_enabled deploy_config"
  "identifier_match (db_name deploy_config)" "resolve_role deploy_env = Inr ''agents@p.iam''"
  "reader_names deploy_env = Inr [''ann@x.org'', ''bob@x.org'']" "reader_schemas deploy_env = Inr [''math'', ''research'']"
  "list_all schema_argument [''math'', ''research'']" "CHECK_SCHEMAS deploy_env = [''math'', ''research'']"
  by code_simp+


end
