(* ===== verification/Documents.thy ===== *)
theory Documents
  imports Py_Values
begin

text \<open>
  \<^verbatim>\<open>app/agents/documents.py\<close>: reading a document passed by reference. The storage behind
  \<open>AnyPath\<close> is a parameter: \<open>Inl\<close> the text of an exception, \<open>Inr None\<close> when nothing exists at the
  path, \<open>Inr (Some body)\<close> its text.
\<close>

type_synonym storage = "string \<Rightarrow> string + string option"

definition MAX_CHARS :: nat where
  "MAX_CHARS = 20000"

definition ALLOWED_SCHEMES :: "string list" where
  "ALLOWED_SCHEMES = [''gs://'', ''s3://'', ''az://'', ''https://'', ''file://'']"

definition looks_remote :: "string \<Rightarrow> bool" where
  "looks_remote ref \<longleftrightarrow>
     list_ex (startswith ref) [''gs://'', ''s3://'', ''az://'', ''https://'']"

datatype document_result =
    DocError string string
  | DocOk string bool bool nat string

text \<open>\<open>DocOk reference remote truncated chars text\<close>, \<open>DocError reference error\<close>.\<close>

definition supported :: "string \<Rightarrow> bool" where
  "supported ref \<longleftrightarrow> contains ref ''://'' \<longrightarrow> list_ex (startswith ref) ALLOWED_SCHEMES"

definition read_document :: "storage \<Rightarrow> string \<Rightarrow> document_result" where
  "read_document storage reference =
     (if reference = [] \<or> strip reference = [] then DocError reference ''empty reference''
      else
        let ref = strip reference
        in if \<not> supported ref
           then DocError ref (''unsupported scheme; expected one of '' @ join '', '' ALLOWED_SCHEMES)
           else case storage ref of
                  Inl e \<Rightarrow> DocError ref e
                | Inr None \<Rightarrow> DocError ref ''not found''
                | Inr (Some body) \<Rightarrow>
                    DocOk ref (looks_remote ref) (MAX_CHARS < py_len body) (py_len body)
                      (py_take MAX_CHARS body))"

lemma read_document_ok:
  assumes "read_document storage reference = DocOk ref remote truncated chars body"
  shows "ref = strip reference \<and> ref \<noteq> [] \<and> supported ref \<and> py_len body \<le> MAX_CHARS \<and>
    (\<exists>full. storage ref = Inr (Some full) \<and> prefix body full \<and> chars = py_len full \<and>
       py_len body = min MAX_CHARS chars \<and>
       (truncated \<longleftrightarrow> MAX_CHARS < chars) \<and> (\<not> truncated \<longrightarrow> body = full))"
  using assms
  by (auto simp: read_document_def Let_def py_len_take_min py_take_prefix py_take_all py_len_take
      split: if_splits sum.splits option.splits)

text \<open>A reference that is refused never reaches the storage.\<close>

lemma read_document_refused:
  "\<not> supported (strip reference) \<Longrightarrow> read_document storage reference = read_document storage' reference"
  by (auto simp: read_document_def Let_def)

section \<open>What is read\<close>

text \<open>C39. A document that is read has a stripped, non-empty, supported reference, and its body is a prefix of the stored text of at most MAX\_CHARS characters, marked truncated exactly when something was cut.\<close>

theorem documents_are_read_within_bounds:
  "case read_document storage reference of
     DocError ref e \<Rightarrow> True
   | DocOk ref remote truncated chars body \<Rightarrow>
       ref = strip reference \<and> ref \<noteq> [] \<and> supported ref \<and> py_len body \<le> MAX_CHARS \<and>
       (\<exists>full. storage ref = Inr (Some full) \<and> prefix body full \<and> chars = py_len full \<and>
          truncated = (MAX_CHARS < chars) \<and> truncated = (body \<noteq> full))"
proof (cases "read_document storage reference")
  case (DocOk ref remote truncated chars body)
  note r = read_document_ok [OF DocOk]
  then obtain full where f: "storage ref = Inr (Some full)" "prefix body full" "chars = py_len full"
    "py_len body = min MAX_CHARS chars" "truncated \<longleftrightarrow> MAX_CHARS < chars" "\<not> truncated \<longrightarrow> body = full" by auto
  then have "truncated = (body \<noteq> full)" by auto
  with r f DocOk show ?thesis by auto
qed simp

end
