(* ===== verification/Model_Selection.thy ===== *)
theory Model_Selection
  imports Cluster_Config "HOL-Library.Product_Lexorder"
begin

text \<open>
  Which models back the agents: the parsing of model ids and the choice of the latest
  (\<^verbatim>\<open>app/shared/model_selection.py\<close>), the catalog fetched once (\<^verbatim>\<open>model_catalog.py\<close>), the models
  built for one client (\<^verbatim>\<open>model_factory.py\<close>, \<^verbatim>\<open>config.py\<close>). Keys are compared as Python compares
  tuples: lexicographically. Listing the catalog is a parameter and may fail.
\<close>

section \<open>Parsing model ids\<close>

definition FLASH_LITE_FAMILY :: string where "FLASH_LITE_FAMILY = ''flash-lite''"
definition FLASH_FAMILY :: string where "FLASH_FAMILY = ''flash''"
definition PRO_FAMILY :: string where "PRO_FAMILY = ''pro''"

definition EMBEDDING_FAMILIES :: "string list" where
  "EMBEDDING_FAMILIES = [''gemini-embedding'', ''text-embedding'', ''text-multilingual-embedding'', ''embeddinggemma'']"

definition PREVIEW_MARKERS :: "string list" where
  "PREVIEW_MARKERS = [''preview'', ''exp'']"

text \<open>
  \<^verbatim>\<open>^gemini-(\d+(?:\.\d+)?)-(.+)$\<close>: the version and the remainder. A dot does not match a newline,
  and the dollar also matches before a final one.
\<close>

definition model_id_match :: "string \<Rightarrow> (nat list \<times> string) option" where
  "model_id_match s =
     (if \<not> startswith s ''gemini-'' then None
      else
        let t = drop (length ''gemini-'') s;
            d1 = takeWhile is_digit t;
            t1 = dropWhile is_digit t;
            (d2, t2) = (case t1 of
                          c # u \<Rightarrow> if c = CHR ''.'' \<and> takeWhile is_digit u \<noteq> []
                                    then (takeWhile is_digit u, dropWhile is_digit u) else ([], t1)
                        | [] \<Rightarrow> ([], t1))
        in if d1 = [] then None
           else (case t2 of
                   c # rest \<Rightarrow>
                     let body = drop_final_newline rest
                     in if c = CHR ''-'' \<and> body \<noteq> [] \<and> CHR 0x0A \<notin> set body
                        then Some (if d2 = [] then [nat_of_digits d1] else [nat_of_digits d1, nat_of_digits d2], body)
                        else None
                 | [] \<Rightarrow> None))"

definition family_tokens :: "string list \<Rightarrow> (string \<times> string list) option" where
  "family_tokens tokens =
     (if take 2 tokens = [''flash'', ''lite''] then Some (FLASH_LITE_FAMILY, drop 2 tokens)
      else if hd tokens = ''flash'' then Some (FLASH_FAMILY, tl tokens)
      else if hd tokens = ''pro'' then Some (PRO_FAMILY, tl tokens)
      else None)"

record classified =
  cl_version :: "nat list"
  cl_family :: string
  cl_is_preview :: bool
  cl_is_plain :: bool
  cl_suffix :: "nat list"

definition suffix_numbers :: "string list \<Rightarrow> nat list" where
  "suffix_numbers tokens = map nat_of_digits (filter isdigit tokens)"

definition classify_model :: "string \<Rightarrow> classified option" where
  "classify_model model_id =
     (case model_id_match model_id of
        None \<Rightarrow> None
      | Some (version, rest) \<Rightarrow>
          (case family_tokens (split_on (CHR ''-'') rest) of
             None \<Rightarrow> None
           | Some (family, extra) \<Rightarrow>
               if extra \<noteq> [] \<and> \<not> (isdigit (hd extra) \<or> hd extra \<in> set PREVIEW_MARKERS) then None
               else Some \<lparr>cl_version = version, cl_family = family,
                          cl_is_preview = (extra \<noteq> [] \<and> hd extra \<in> set PREVIEW_MARKERS),
                          cl_is_plain = (extra = []), cl_suffix = suffix_numbers extra\<rparr>))"

section \<open>The best id by key\<close>

text \<open>The loop of both selectors: a strictly greater key replaces the best so far.\<close>

fun pick_best :: "('a \<Rightarrow> 'k::linorder option) \<Rightarrow> 'a list \<Rightarrow> ('k \<times> 'a) option \<Rightarrow> ('k \<times> 'a) option" where
  "pick_best key [] best = best"
| "pick_best key (x # xs) best =
     pick_best key xs
       (case key x of
          None \<Rightarrow> best
        | Some k \<Rightarrow>
            (case best of
               None \<Rightarrow> Some (k, x)
             | Some (k0, x0) \<Rightarrow> if k0 < k then Some (k, x) else best))"

type_synonym model_key = "nat list \<times> nat \<times> nat \<times> nat list"

definition model_key :: "string \<Rightarrow> string \<Rightarrow> model_key option" where
  "model_key family model_id =
     (case classify_model model_id of
        None \<Rightarrow> None
      | Some c \<Rightarrow>
          if cl_family c \<noteq> family then None
          else Some (cl_version c, if cl_is_preview c then 0 else 1, if cl_is_plain c then 1 else 0, cl_suffix c))"

definition select_latest_model :: "string list \<Rightarrow> string \<Rightarrow> string result" where
  "select_latest_model model_ids family =
     (case pick_best (model_key family) model_ids None of
        None \<Rightarrow> Inl (ValueError (''No Gemini model found for family '' @ [CHR 0x27] @ family @ [CHR 0x27] @
                  '' in the Vertex AI catalog. Set the corresponding GEMINI_*_MODEL env var to pin one.''))
      | Some (k, x) \<Rightarrow> Inr x)"

type_synonym embedding_key = "nat \<times> bool \<times> nat list"

text \<open>The body of the loop of \<open>_classify_embedding_model\<close> for one family.\<close>

definition embedding_key_in :: "string \<Rightarrow> nat \<Rightarrow> string \<Rightarrow> embedding_key option" where
  "embedding_key_in model_id rank family =
     (if model_id \<noteq> family \<and> \<not> startswith model_id (family @ ''-'') then None
      else
        let remainder = lstrip_of (\<lambda>c. c = CHR ''-'') (drop (length family) model_id);
            tokens = (if remainder \<noteq> [] then split_on (CHR ''-'') remainder else [])
        in Some (length EMBEDDING_FAMILIES - rank, tokens = [] \<or> isdigit (hd tokens), suffix_numbers tokens))"

fun embedding_key_from :: "string \<Rightarrow> nat \<Rightarrow> string list \<Rightarrow> embedding_key option" where
  "embedding_key_from model_id rank [] = None"
| "embedding_key_from model_id rank (f # fs) =
     (case embedding_key_in model_id rank f of
        Some k \<Rightarrow> Some k
      | None \<Rightarrow> embedding_key_from model_id (Suc rank) fs)"

definition classify_embedding_model :: "string \<Rightarrow> embedding_key option" where
  "classify_embedding_model model_id = embedding_key_from model_id 0 EMBEDDING_FAMILIES"

definition select_embedding_model :: "string list \<Rightarrow> string result" where
  "select_embedding_model model_ids =
     (case pick_best classify_embedding_model model_ids None of
        None \<Rightarrow> Inl (ValueError (''No supported embedding model found in the Vertex AI catalog. Set '' @
                  ''GEMINI_EMBEDDING_MODEL to pin one.''))
      | Some (k, x) \<Rightarrow> Inr x)"

section \<open>The catalog\<close>

definition MODEL_NAME_PREFIX :: string where
  "MODEL_NAME_PREFIX = ''publishers/google/models/''"

text \<open>
  \<open>client\<close> is what the next listing returns: the names of the models, which may be absent. The
  cached property keeps the ids once a listing succeeded.
\<close>

record catalog =
  ct_cache :: "string list option"
  ct_listings :: nat

definition ModelCatalog :: catalog where
  "ModelCatalog = \<lparr>ct_cache = None, ct_listings = 0\<rparr>"

definition listed_ids :: "string option list \<Rightarrow> string list" where
  "listed_ids names =
     map (\<lambda>n. removeprefix n MODEL_NAME_PREFIX)
       (filter (\<lambda>n. n \<noteq> []) (List.map_filter (\<lambda>n. n) names))"

definition model_ids :: "(nat \<Rightarrow> string option list result) \<Rightarrow> catalog \<Rightarrow> string list result \<times> catalog" where
  "model_ids client c =
     (case ct_cache c of
        Some ids \<Rightarrow> (Inr ids, c)
      | None \<Rightarrow>
          (let c' = c\<lparr>ct_listings := Suc (ct_listings c)\<rparr>
           in case client (ct_listings c) of
                Inl e \<Rightarrow> (Inl e, c')
              | Inr names \<Rightarrow> (Inr (listed_ids names), c'\<lparr>ct_cache := Some (listed_ids names)\<rparr>)))"

definition latest :: "(nat \<Rightarrow> string option list result) \<Rightarrow> string \<Rightarrow> catalog \<Rightarrow> string result \<times> catalog" where
  "latest client family c =
     (case model_ids client c of (r, c') \<Rightarrow> (bind_result r (\<lambda>ids. select_latest_model ids family), c'))"

definition latest_embedding :: "(nat \<Rightarrow> string option list result) \<Rightarrow> catalog \<Rightarrow> string result \<times> catalog" where
  "latest_embedding client c =
     (case model_ids client c of (r, c') \<Rightarrow> (bind_result r select_embedding_model, c'))"

section \<open>The module\<close>

record model_module =
  mm_project :: "string option"
  mm_location :: "string option"
  mm_fast :: "string option"
  mm_balanced :: "string option"
  mm_capable :: "string option"
  mm_embedding :: "string option"

text \<open>\<open>a or b\<close> where either may be \<open>None\<close>.\<close>

definition or_opt :: "string option \<Rightarrow> string option \<Rightarrow> string option" where
  "or_opt a b = (case a of Some x \<Rightarrow> if x \<noteq> [] then Some x else b | None \<Rightarrow> b)"

definition truthy_opt :: "string option \<Rightarrow> string option" where
  "truthy_opt a = or_opt a None"

definition provide_project :: "model_module \<Rightarrow> env \<Rightarrow> string" where
  "provide_project m env =
     (case or_opt (mm_project m) (truthy_opt (dict_get env ''GOOGLE_CLOUD_PROJECT'')) of None \<Rightarrow> [] | Some p \<Rightarrow> p)"

definition DEFAULT_LOCATION :: string where "DEFAULT_LOCATION = ''global''"

definition provide_location :: "model_module \<Rightarrow> env \<Rightarrow> string" where
  "provide_location m env =
     (case or_opt (mm_location m) (truthy_opt (dict_get env ''GOOGLE_CLOUD_LOCATION'')) of
        None \<Rightarrow> DEFAULT_LOCATION | Some l \<Rightarrow> l)"

record genai_client =
  gc_vertexai :: bool
  gc_project :: "string option"
  gc_location :: string

definition provide_genai_client :: "string \<Rightarrow> string \<Rightarrow> genai_client" where
  "provide_genai_client project location =
     \<lparr>gc_vertexai = True, gc_project = (if project \<noteq> [] then Some project else None), gc_location = location\<rparr>"

record gemini =
  gm_model :: string
  gm_attempts :: nat
  gm_client :: "genai_client option"

definition build_model :: "string \<Rightarrow> genai_client option \<Rightarrow> gemini" where
  "build_model model client = \<lparr>gm_model = model, gm_attempts = 3, gm_client = client\<rparr>"

definition resolve_model_id ::
  "(nat \<Rightarrow> string option list result) \<Rightarrow> string option \<Rightarrow> env \<Rightarrow> string \<Rightarrow> string \<Rightarrow> catalog \<Rightarrow>
   string result \<times> catalog" where
  "resolve_model_id client override env env_var family c =
     (case or_opt override (truthy_opt (dict_get env env_var)) of
        Some m \<Rightarrow> (Inr m, c)
      | None \<Rightarrow> latest client family c)"

definition provide_embedding_model ::
  "(nat \<Rightarrow> string option list result) \<Rightarrow> model_module \<Rightarrow> env \<Rightarrow> catalog \<Rightarrow> string result \<times> catalog" where
  "provide_embedding_model client m env c =
     (case or_opt (mm_embedding m) (truthy_opt (dict_get env ''GEMINI_EMBEDDING_MODEL'')) of
        Some x \<Rightarrow> (Inr x, c)
      | None \<Rightarrow> latest_embedding client c)"

text \<open>One generative tier: \<open>provide_fast_model\<close>, \<open>provide_balanced_model\<close>, \<open>provide_capable_model\<close>.\<close>

definition provide_tier ::
  "(nat \<Rightarrow> string option list result) \<Rightarrow> genai_client \<Rightarrow> string option \<Rightarrow> env \<Rightarrow> string \<Rightarrow> string \<Rightarrow>
   catalog \<Rightarrow> gemini result \<times> catalog" where
  "provide_tier client gc override env env_var family c =
     (case resolve_model_id client override env env_var family c of
        (r, c') \<Rightarrow> (map_sum id (\<lambda>m. build_model m (Some gc)) r, c'))"

definition provide_fast_model where
  "provide_fast_model client gc m env = provide_tier client gc (mm_fast m) env ''GEMINI_FAST_MODEL'' FLASH_LITE_FAMILY"

definition provide_balanced_model where
  "provide_balanced_model client gc m env =
     provide_tier client gc (mm_balanced m) env ''GEMINI_BALANCED_MODEL'' FLASH_FAMILY"

definition provide_capable_model where
  "provide_capable_model client gc m env =
     provide_tier client gc (mm_capable m) env ''GEMINI_CAPABLE_MODEL'' PRO_FAMILY"

text \<open>The bundle \<open>Models\<close>, its three models resolved in the order of the constructor.\<close>

definition provide_models ::
  "(nat \<Rightarrow> string option list result) \<Rightarrow> model_module \<Rightarrow> env \<Rightarrow> catalog \<Rightarrow>
   (gemini \<times> gemini \<times> gemini) result \<times> catalog" where
  "provide_models client m env c0 =
     (let gc = provide_genai_client (provide_project m env) (provide_location m env)
      in case provide_fast_model client gc m env c0 of
           (Inl e, c1) \<Rightarrow> (Inl e, c1)
         | (Inr fast, c1) \<Rightarrow>
             (case provide_balanced_model client gc m env c1 of
                (Inl e, c2) \<Rightarrow> (Inl e, c2)
              | (Inr balanced, c2) \<Rightarrow>
                  (case provide_capable_model client gc m env c2 of
                     (Inl e, c3) \<Rightarrow> (Inl e, c3)
                   | (Inr capable, c3) \<Rightarrow> (Inr (fast, balanced, capable), c3))))"

section \<open>What the selectors choose\<close>

lemma pick_best_None:
  "pick_best key xs best = None \<longleftrightarrow> best = None \<and> (\<forall>x \<in> set xs. key x = None)"
  by (induction xs arbitrary: best) (auto split: option.splits)

lemma pick_best_Some:
  "pick_best key xs best = Some (k, x) \<Longrightarrow>
   (best = Some (k, x) \<or> x \<in> set xs \<and> key x = Some k) \<and>
   (\<forall>y \<in> set xs. \<forall>ky. key y = Some ky \<longrightarrow> ky \<le> k) \<and>
   (\<forall>k0 x0. best = Some (k0, x0) \<longrightarrow> k0 \<le> k)"
proof (induction xs arbitrary: best)
  case Nil
  then show ?case by auto
next
  case (Cons y ys)
  define best' where "best' = (case key y of
          None \<Rightarrow> best
        | Some ky \<Rightarrow> (case best of
               None \<Rightarrow> Some (ky, y)
             | Some (k0, x0) \<Rightarrow> if k0 < ky then Some (ky, y) else best))"
  have "pick_best key ys best' = Some (k, x)" using Cons.prems by (simp add: best'_def)
  note ih = Cons.IH [OF this]
  have src: "best' = Some (k, x) \<Longrightarrow> best = Some (k, x) \<or> x = y \<and> key y = Some k"
    by (auto simp: best'_def split: option.splits prod.splits if_splits)
  have ge: "\<exists>k1 x1. best' = Some (k1, x1) \<and> ky \<le> k1" if "key y = Some ky" for ky
    using that by (auto simp: best'_def split: option.splits prod.splits)
  have mono: "\<exists>k1 x1. best' = Some (k1, x1) \<and> k0 \<le> k1" if "best = Some (k0, x0)" for k0 x0
    using that by (auto simp: best'_def split: option.splits)
  show ?case
  proof (intro conjI ballI allI impI)
    show "best = Some (k, x) \<or> x \<in> set (y # ys) \<and> key x = Some k" using ih src by auto
  next
    fix z kz assume "z \<in> set (y # ys)" "key z = Some kz"
    then show "kz \<le> k" using ih ge by (auto intro: order_trans)
  next
    fix k0 x0 assume "best = Some (k0, x0)"
    then obtain k1 x1 where "best' = Some (k1, x1)" "k0 \<le> k1" using mono by blast
    moreover have "k1 \<le> k" using ih \<open>best' = Some (k1, x1)\<close> by blast
    ultimately show "k0 \<le> k" by simp
  qed
qed

locale keyed_selection =
  fixes key :: "string \<Rightarrow> 'k::linorder option"
    and select :: "string list \<Rightarrow> string result"
    and failure :: py_error
  assumes select_eq: "select xs =
    (case pick_best key xs None of None \<Rightarrow> Inl failure | Some (k, x) \<Rightarrow> Inr x)"
begin

lemma select_best:
  assumes "select xs = Inr x"
  shows "x \<in> set xs \<and> (\<exists>k. key x = Some k \<and> (\<forall>y \<in> set xs. \<forall>ky. key y = Some ky \<longrightarrow> ky \<le> k))"
proof -
  obtain k where "pick_best key xs None = Some (k, x)"
    using assms by (auto simp: select_eq split: option.splits)
  from pick_best_Some [OF this] show ?thesis by auto
qed

lemma select_fails_iff: "select xs = Inl e \<longleftrightarrow> e = failure \<and> (\<forall>x \<in> set xs. key x = None)"
proof (cases "pick_best key xs None")
  case None
  then have "\<forall>x \<in> set xs. key x = None" by (simp add: pick_best_None)
  then show ?thesis unfolding select_eq None by auto
next
  case (Some kx)
  then have "\<not> (\<forall>x \<in> set xs. key x = None)" using pick_best_None [of key xs None] by auto
  with Some show ?thesis by (auto simp: select_eq split: prod.splits)
qed

text \<open>Only the keys matter: a listing with the same keyed ids selects an id with the same key.\<close>

lemma select_set:
  assumes "set xs = set ys" "select xs = Inr x" "select ys = Inr y"
  shows "key x = key y"
  using select_best [OF assms(2)] select_best [OF assms(3)] assms(1) by (metis order_antisym)

end

definition no_model :: "string \<Rightarrow> py_error" where
  "no_model family = ValueError (''No Gemini model found for family '' @ [CHR 0x27] @ family @ [CHR 0x27] @
     '' in the Vertex AI catalog. Set the corresponding GEMINI_*_MODEL env var to pin one.'')"

definition no_embedding :: py_error where
  "no_embedding = ValueError (''No supported embedding model found in the Vertex AI catalog. Set '' @
     ''GEMINI_EMBEDDING_MODEL to pin one.'')"

interpretation gemini: keyed_selection "model_key family" "\<lambda>ids. select_latest_model ids family" "no_model family"
  for family
  by unfold_locales (unfold select_latest_model_def no_model_def, rule refl)

interpretation embedding: keyed_selection classify_embedding_model select_embedding_model no_embedding
  by unfold_locales (unfold select_embedding_model_def no_embedding_def, rule refl)

lemma model_key_Some:
  "model_key family x = Some k \<Longrightarrow> \<exists>c. classify_model x = Some c \<and> cl_family c = family \<and> fst k = cl_version c"
  by (auto simp: model_key_def split: option.splits if_splits)

lemma lex_fst_le: "(a, b) \<le> (c, d) \<Longrightarrow> a \<le> c" for a c :: "'a::linorder" and b d :: "'b::linorder"
  by (auto simp: less_eq_prod_def)

section \<open>The catalog is listed at most once\<close>

interpretation catalog_memo: memo "model_ids client" ct_cache "\<lambda>c c'. \<exists>client'. c' = snd (model_ids client' c)"
  by unfold_locales (auto simp: model_ids_def Let_def split: option.splits sum.splits)

text \<open>Once a family's model was chosen, it stays the choice, whatever the provider lists later.\<close>

lemma choice_is_stable:
  assumes "latest client family c = (Inr m, c1)" "(\<lambda>c c'. \<exists>client'. c' = snd (model_ids client' c))\<^sup>*\<^sup>* c1 c2"
  shows "latest client' family c2 = (Inr m, c2)"
proof -
  obtain ids where ids: "model_ids client c = (Inr ids, c1)" "select_latest_model ids family = Inr m"
    using assms(1) by (auto simp: latest_def bind_result_Inr_iff split: prod.splits)
  have "model_ids client' c1 = (Inr ids, c1)"
    using catalog_memo.fill [OF ids(1)] by (rule catalog_memo.hit)
  from catalog_memo.stable [OF this assms(2)] ids(2) show ?thesis by (simp add: latest_def)
qed

lemma latest_listings:
  assumes "latest client family c = (r, c')"
  shows "(ct_cache c \<noteq> None \<longrightarrow> c' = c) \<and> ct_listings c' \<le> Suc (ct_listings c) \<and>
    ((\<exists>x. r = Inr x) \<longrightarrow> ct_cache c' \<noteq> None) \<and> (c' = c \<or> ct_cache c = None \<and> ct_listings c' = Suc (ct_listings c))"
  using assms
  by (auto simp: latest_def model_ids_def Let_def split: option.splits sum.splits prod.splits)

lemma provide_tier_listings:
  assumes "provide_tier client gc ov env v fam c = (r, c')"
  shows "(ct_cache c \<noteq> None \<longrightarrow> c' = c) \<and>
    (c' = c \<or> ct_cache c = None \<and> ct_listings c' = Suc (ct_listings c) \<and> ((\<exists>x. r = Inr x) \<longrightarrow> ct_cache c' \<noteq> None))"
proof -
  obtain s where "resolve_model_id client ov env v fam c = (s, c')" "r = map_sum id (\<lambda>m. build_model m (Some gc)) s"
    using assms by (auto simp: provide_tier_def split: prod.splits)
  then show ?thesis
    using latest_listings [of client fam c s c']
    by (cases s) (auto simp: resolve_model_id_def split: option.splits)
qed

lemma provide_models_listings:
  assumes "provide_models client m env c = (r, c')"
  shows "ct_listings c' \<le> Suc (ct_listings c)"
proof -
  let ?gc = "provide_genai_client (provide_project m env) (provide_location m env)"
  obtain r1 c1 where f: "provide_fast_model client ?gc m env c = (r1, c1)" by fastforce
  note f1 = provide_tier_listings [OF f [unfolded provide_fast_model_def]]
  show ?thesis
  proof (cases r1)
    case (Inl e)
    with assms f f1 show ?thesis by (auto simp: provide_models_def Let_def)
  next
    case i1: (Inr x1)
    obtain r2 c2 where b: "provide_balanced_model client ?gc m env c1 = (r2, c2)" by fastforce
    note b1 = provide_tier_listings [OF b [unfolded provide_balanced_model_def]]
    show ?thesis
    proof (cases r2)
      case (Inl e)
      with assms f b i1 f1 b1 show ?thesis by (auto simp: provide_models_def Let_def)
    next
      case i2: (Inr x2)
      obtain r3 c3 where k: "provide_capable_model client ?gc m env c2 = (r3, c3)" by fastforce
      note k1 = provide_tier_listings [OF k [unfolded provide_capable_model_def]]
      have "c' = c3" using assms f b k i1 i2 by (cases r3) (auto simp: provide_models_def Let_def)
      with f1 b1 k1 i1 i2 show ?thesis by auto
    qed
  qed
qed

section \<open>The chosen models\<close>

text \<open>The model chosen for a family is in the catalog, is of that family, and no catalogued model of the family has a higher version.\<close>

theorem latest_model_is_maximal:
  assumes "select_latest_model ids family = Inr x"
  shows "x \<in> set ids \<and> (\<exists>c. classify_model x = Some c \<and> cl_family c = family \<and>
    (\<forall>y \<in> set ids. \<forall>c'. classify_model y = Some c' \<and> cl_family c' = family \<longrightarrow> cl_version c' \<le> cl_version c))"
proof -
  from gemini.select_best [OF assms] obtain k where k: "x \<in> set ids" "model_key family x = Some k"
    "\<And>y ky. y \<in> set ids \<Longrightarrow> model_key family y = Some ky \<Longrightarrow> ky \<le> k" by blast
  then obtain c where c: "classify_model x = Some c" "cl_family c = family" "fst k = cl_version c"
    using model_key_Some by blast
  have "cl_version c' \<le> cl_version c"
    if "y \<in> set ids" "classify_model y = Some c'" "cl_family c' = family" for y c'
  proof -
    from that have "model_key family y = Some (cl_version c', snd (the (model_key family y)))"
      by (simp add: model_key_def)
    with k(3) [OF that(1)] have "(cl_version c', snd (the (model_key family y))) \<le> k" by blast
    then show ?thesis using c(3) lex_fst_le by (metis prod.collapse)
  qed
  with k c show ?thesis by blast
qed

definition demo_ids :: "string list" where
  "demo_ids = [''gemini-2.5-flash-001'', ''gemini-2.5-flash'', ''gemini-3-pro'', ''gemini-2.5-flash-lite'', ''text-embedding-005'']"

lemma demo_select: "select_latest_model demo_ids ''flash'' = Inr ''gemini-2.5-flash''"
  by code_simp

theorem latest_model_is_maximal_witness:
  "\<exists>c. classify_model ''gemini-2.5-flash'' = Some c \<and> cl_family c = ''flash'' \<and>
    (\<forall>y \<in> set demo_ids. \<forall>c'. classify_model y = Some c' \<and> cl_family c' = ''flash'' \<longrightarrow> cl_version c' \<le> cl_version c)"
  using latest_model_is_maximal [OF demo_select] by blast

text \<open>The embedding model chosen is in the catalog and no catalogued embedding model has a higher version.\<close>

theorem embedding_model_is_maximal:
  assumes "select_embedding_model ids = Inr x"
  shows "x \<in> set ids \<and> (\<exists>k. classify_embedding_model x = Some k \<and>
    (\<forall>y \<in> set ids. \<forall>ky. classify_embedding_model y = Some ky \<longrightarrow> fst ky \<le> fst k))"
proof -
  from embedding.select_best [OF assms] obtain k where k: "x \<in> set ids" "classify_embedding_model x = Some k"
    "\<And>y ky. y \<in> set ids \<Longrightarrow> classify_embedding_model y = Some ky \<Longrightarrow> ky \<le> k" by blast
  have "fst ky \<le> fst k" if "ky \<le> k" for ky :: embedding_key
    using that lex_fst_le by (metis prod.collapse)
  with k show ?thesis by blast
qed

lemma demo_embedding: "select_embedding_model demo_ids = Inr ''text-embedding-005''"
  by code_simp

theorem embedding_model_is_maximal_witness: "''text-embedding-005'' \<in> set demo_ids"
  using embedding_model_is_maximal [OF demo_embedding] by blast

text \<open>Choosing the models of all tiers lists the provider's catalog at most once.\<close>

theorem catalog_is_listed_at_most_once:
  "ct_listings (snd (provide_models client m env c)) \<le> Suc (ct_listings c)"
  using provide_models_listings by (metis prod.collapse)

text \<open>Of two previews dated month-year, the later one is not the one chosen.\<close>

theorem later_preview_is_not_chosen:
  "select_latest_model [''gemini-2.5-flash-preview-12-2025'', ''gemini-2.5-flash-preview-01-2026''] ''flash''
   = Inr ''gemini-2.5-flash-preview-12-2025''"
  by code_simp

end
