(* ===== verification/Base64.thy ===== *)
theory Base64
  imports Interfaces
begin

text \<open>
  Base64 as \<open>base64.b64encode\<close> and \<open>b64decode\<close> compute it, on the encodings the former produces:
  groups of four characters, the last one padded. Other input, of which \<open>b64decode\<close> discards the
  characters outside the alphabet, is \<open>None\<close> here.
\<close>

definition b64_char :: "nat \<Rightarrow> char" where
  "b64_char n =
     (if n < 26 then char_of (65 + n)
      else if n < 52 then char_of (97 + (n - 26))
      else if n < 62 then char_of (48 + (n - 52))
      else if n = 62 then CHR ''+'' else CHR ''/'')"

definition b64_val :: "char \<Rightarrow> nat option" where
  "b64_val c =
     (if is_upper_letter c then Some (code c - 65)
      else if is_lower_letter c then Some (code c - 97 + 26)
      else if is_digit c then Some (code c - 48 + 52)
      else if c = CHR ''+'' then Some 62
      else if c = CHR ''/'' then Some 63
      else None)"

fun b64_encode :: "string \<Rightarrow> string" where
  "b64_encode [] = []"
| "b64_encode [a] =
     [b64_char (code a div 4), b64_char (code a mod 4 * 16), CHR ''='', CHR ''='']"
| "b64_encode [a, b] =
     [b64_char (code a div 4), b64_char (code a mod 4 * 16 + code b div 16),
      b64_char (code b mod 16 * 4), CHR ''='']"
| "b64_encode (a # b # c # s) =
     b64_char (code a div 4) # b64_char (code a mod 4 * 16 + code b div 16) #
     b64_char (code b mod 16 * 4 + code c div 64) # b64_char (code c mod 64) # b64_encode s"

fun b64_decode :: "string \<Rightarrow> string option" where
  "b64_decode [] = Some []"
| "b64_decode (w # x # y # z # s) =
     (case (b64_val w, b64_val x) of
        (Some p, Some q) \<Rightarrow>
          (if y = CHR ''='' \<and> z = CHR ''='' \<and> s = []
           then Some [char_of (p * 4 + q div 16)]
           else (case b64_val y of
                   None \<Rightarrow> None
                 | Some r \<Rightarrow>
                     if z = CHR ''='' \<and> s = []
                     then Some [char_of (p * 4 + q div 16), char_of (q mod 16 * 16 + r div 4)]
                     else (case b64_val z of
                             None \<Rightarrow> None
                           | Some t \<Rightarrow>
                               map_option (\<lambda>rest. char_of (p * 4 + q div 16) # char_of (q mod 16 * 16 + r div 4) #
                                                   char_of (r mod 4 * 64 + t) # rest)
                                 (b64_decode s))))
      | _ \<Rightarrow> None)"
| "b64_decode _ = None"

lemma code_b64_char: "n < 64 \<Longrightarrow> code (b64_char n) =
   (if n < 26 then 65 + n else if n < 52 then 71 + n else if n < 62 then n - 4 else if n = 62 then 43 else 47)"
  by (auto simp: b64_char_def)

lemma b64_val_char: "n < 64 \<Longrightarrow> b64_val (b64_char n) = Some n"
  unfolding b64_val_def is_upper_letter_def is_lower_letter_def is_digit_def eq_char_code
  by (auto simp: code_b64_char)

lemma b64_char_not_pad: "n < 64 \<Longrightarrow> b64_char n \<noteq> CHR ''=''"
  unfolding eq_char_code by (auto simp: code_b64_char)

lemma code_less: "code c < 256"
  by (simp add: of_char_of)

text \<open>The groups of six bits put together again.\<close>

lemma six_bits:
  fixes a b c :: nat
  assumes "a < 256" "b < 256" "c < 256"
  shows "a div 4 < 64" "a mod 4 * 16 + b div 16 < 64" "b mod 16 * 4 + c div 64 < 64" "c mod 64 < 64"
    "a mod 4 * 16 < 64" "b mod 16 * 4 < 64"
    "a div 4 * 4 + (a mod 4 * 16 + b div 16) div 16 = a"
    "(a mod 4 * 16 + b div 16) mod 16 * 16 + (b mod 16 * 4 + c div 64) div 4 = b"
    "(b mod 16 * 4 + c div 64) mod 4 * 64 + c mod 64 = c"
    "a div 4 * 4 + a mod 4 * 16 div 16 = a"
    "(a mod 4 * 16 + b div 16) mod 16 * 16 + b mod 16 * 4 div 4 = b"
proof -
  obtain p q where a: "a = 4 * p + q" "q < 4" by (metis mult.commute div_mult_mod_eq mod_less_divisor zero_less_numeral)
  obtain r s where b: "b = 16 * r + s" "s < 16" by (metis mult.commute div_mult_mod_eq mod_less_divisor zero_less_numeral)
  obtain t u where c: "c = 64 * t + u" "u < 64" by (metis mult.commute div_mult_mod_eq mod_less_divisor zero_less_numeral)
  have ad: "a div 4 = p" "a mod 4 = q" using a by auto
  have bd: "b div 16 = r" "b mod 16 = s" using b by auto
  have cd: "c div 64 = t" "c mod 64 = u" using c by auto
  have r: "r < 16" and t: "t < 4" and p: "p < 64" using assms a b c by auto
  have qr: "(q * 16 + r) div 16 = q" "(q * 16 + r) mod 16 = r" using r by auto
  have st: "(s * 4 + t) div 4 = s" "(s * 4 + t) mod 4 = t" using t by auto
  show "a div 4 < 64" "a mod 4 * 16 + b div 16 < 64" "b mod 16 * 4 + c div 64 < 64" "c mod 64 < 64"
    "a mod 4 * 16 < 64" "b mod 16 * 4 < 64"
    "a div 4 * 4 + (a mod 4 * 16 + b div 16) div 16 = a"
    "(a mod 4 * 16 + b div 16) mod 16 * 16 + (b mod 16 * 4 + c div 64) div 4 = b"
    "(b mod 16 * 4 + c div 64) mod 4 * 64 + c mod 64 = c"
    "a div 4 * 4 + a mod 4 * 16 div 16 = a"
    "(a mod 4 * 16 + b div 16) mod 16 * 16 + b mod 16 * 4 div 4 = b"
    unfolding ad bd cd qr st using a b c r t p by auto
qed

lemma b64_decode_encode: "b64_decode (b64_encode s) = Some s"
proof (induction s rule: b64_encode.induct)
  case 1
  then show ?case by simp
next
  case (2 a)
  note six = six_bits [OF code_less [of a] code_less [of a] code_less [of a]]
  show ?case using six by (simp add: b64_val_char)
next
  case (3 a b)
  note six = six_bits [OF code_less [of a] code_less [of b] code_less [of b]]
  show ?case using six by (simp add: b64_val_char b64_char_not_pad)
next
  case (4 a b c s)
  note six = six_bits [OF code_less [of a] code_less [of b] code_less [of c]]
  show ?case using six 4 by (simp add: b64_val_char b64_char_not_pad)
qed

interpretation b64: codec b64_encode b64_decode Some "\<lambda>s. True"
  by unfold_locales (simp_all add: b64_decode_encode)

end
