(* ===== verification/Artifacts.thy ===== *)
theory Artifacts
  imports Base64 Py_Values
begin

text \<open>
  \<^verbatim>\<open>src/app/shared/artifacts.py\<close>: the versioned artifact store, on a local directory. A path is the
  list of its parts, as \<^verbatim>\<open>pathlib\<close> gives it; the file system holds the text of each file and
  the directories that exist. Every storage operation the code calls (\<^verbatim>\<open>exists\<close>, \<^verbatim>\<open>iterdir\<close>,
  \<^verbatim>\<open>rglob\<close>, \<^verbatim>\<open>mkdir\<close>, \<^verbatim>\<open>read_text\<close>, \<^verbatim>\<open>write_text\<close>, \<^verbatim>\<open>unlink\<close>) is defined with the errors it
  raises. Parts named \<open>..\<close> are resolved by the operating system and are not interpreted here.

  The functions of ADK the code calls (segment validation, \<^verbatim>\<open>artifact://\<close> references,
  \<^verbatim>\<open>ensure_part\<close>) are a parameter. The recursion over references runs on Python's stack: its
  depth is an argument, and running out of it is the \<open>RecursionError\<close> Python raises.
\<close>

section \<open>Paths\<close>

type_synonym path = "string list"

definition path_root :: "string \<Rightarrow> path" where
  "path_root s =
     (if startswith s ''//'' \<and> \<not> startswith s ''///'' then [''//'']
      else if startswith s ''/'' then [''/''] else [])"

definition path_parts :: "string \<Rightarrow> path" where
  "path_parts s = path_root s @ filter (\<lambda>x. x \<noteq> [] \<and> x \<noteq> ''.'') (split_on CHR ''/'' s)"

text \<open>\<open>p / s\<close>: an absolute \<open>s\<close> replaces \<open>p\<close>.\<close>

definition path_join :: "path \<Rightarrow> string \<Rightarrow> path" where
  "path_join p s = (if path_root s \<noteq> [] then path_parts s else p @ path_parts s)"

definition path_str :: "path \<Rightarrow> string" where
  "path_str p =
     (case p of
        [] \<Rightarrow> ''.''
      | r # rest \<Rightarrow> if r = ''/'' \<or> r = ''//'' then r @ join ''/'' rest else join ''/'' p)"

section \<open>The file system\<close>

record fs =
  fs_files :: "(path, string) dict"
  fs_dirs :: "path list"

definition is_file :: "fs \<Rightarrow> path \<Rightarrow> bool" where
  "is_file F p \<longleftrightarrow> dict_get (fs_files F) p \<noteq> None"

definition is_dir :: "fs \<Rightarrow> path \<Rightarrow> bool" where
  "is_dir F p \<longleftrightarrow> p = [] \<or> p \<in> set (fs_dirs F)"

definition path_exists :: "fs \<Rightarrow> path \<Rightarrow> bool" where
  "path_exists F p \<longleftrightarrow> is_file F p \<or> is_dir F p"

definition iterdir :: "fs \<Rightarrow> path \<Rightarrow> string list result" where
  "iterdir F p =
     (if is_dir F p
      then Inr (map last (filter (\<lambda>q. q \<noteq> [] \<and> butlast q = p) (map fst (fs_files F) @ fs_dirs F)))
      else Inl (OSError ''Not a directory''))"

definition files_below :: "fs \<Rightarrow> path \<Rightarrow> path list" where
  "files_below F p = filter (\<lambda>q. take (length p) q = p \<and> length p < length q) (map fst (fs_files F))"

definition mkdirs :: "fs \<Rightarrow> path \<Rightarrow> fs result" where
  "mkdirs F p =
     (if is_dir F p then Inr F
      else if is_file F p then Inl (OSError ''File exists'')
      else if list_ex (\<lambda>n. is_file F (take n p)) [0..<length p] then Inl (OSError ''Not a directory'')
      else Inr (F\<lparr>fs_dirs := fs_dirs F @ filter (\<lambda>q. \<not> is_dir F q) (map (\<lambda>n. take n p) [1..<Suc (length p)])\<rparr>))"

definition write_text :: "fs \<Rightarrow> path \<Rightarrow> string \<Rightarrow> fs result" where
  "write_text F p txt =
     (if is_dir F p then Inl (OSError ''Is a directory'')
      else if \<not> is_dir F (butlast p) then Inl (OSError ''No such file or directory'')
      else Inr (F\<lparr>fs_files := dict_set (fs_files F) p txt\<rparr>))"

definition read_text :: "fs \<Rightarrow> path \<Rightarrow> string result" where
  "read_text F p =
     (if is_dir F p then Inl (OSError ''Is a directory'')
      else case dict_get (fs_files F) p of
             None \<Rightarrow> Inl (OSError ''No such file or directory'')
           | Some txt \<Rightarrow> Inr txt)"

definition unlink :: "fs \<Rightarrow> path \<Rightarrow> fs result" where
  "unlink F p =
     (if is_dir F p then Inl (OSError ''Is a directory'')
      else if is_file F p then Inr (F\<lparr>fs_files := AList.delete p (fs_files F)\<rparr>)
      else Inl (OSError ''No such file or directory''))"

section \<open>Parts and ADK's helpers\<close>

record blob =
  bl_mime :: "string option"
  bl_data :: "string option"
  bl_display :: "string option"

record file_data =
  fd_uri :: "string option"
  fd_mime :: "string option"

record part =
  pt_text :: "string option"
  pt_inline :: "blob option"
  pt_file :: "file_data option"

record artifact_ref =
  ref_app :: string
  ref_user :: string
  ref_session :: "string option"
  ref_filename :: string
  ref_version :: "int option"

record 'a adk =
  ensure_part :: "'a \<Rightarrow> part result"
  validate_path_segment :: "string \<Rightarrow> string \<Rightarrow> unit result"
  is_artifact_ref :: "part \<Rightarrow> bool"
  parse_artifact_uri :: "string \<Rightarrow> artifact_ref option"
  validate_reference_scope :: "string \<Rightarrow> string \<Rightarrow> string option \<Rightarrow> artifact_ref \<Rightarrow> unit result"

definition DEFAULT_MIME_TYPE :: string where
  "DEFAULT_MIME_TYPE = ''application/octet-stream''"

definition USER_NAMESPACE_PREFIX :: string where
  "USER_NAMESPACE_PREFIX = ''user:''"

record service =
  svc_root :: path
  svc_is_cloud :: bool

section \<open>Where a version is stored\<close>

definition file_has_user_namespace :: "string \<Rightarrow> bool" where
  "file_has_user_namespace filename \<longleftrightarrow> startswith filename USER_NAMESPACE_PREFIX"

definition artifact_dir ::
  "'a adk \<Rightarrow> service \<Rightarrow> string \<Rightarrow> string \<Rightarrow> string \<Rightarrow> string option \<Rightarrow> path result" where
  "artifact_dir U S app_name user_id filename session_id =
     bind_result (validate_path_segment U app_name ''app_name'') (\<lambda>_.
     bind_result (validate_path_segment U user_id ''user_id'') (\<lambda>_.
       if file_has_user_namespace filename
       then Inr (path_join (path_join (path_join (path_join (svc_root S) app_name) user_id) ''user'') filename)
       else case session_id of
              None \<Rightarrow> Inl (InputValidationError ''Session ID must be provided for session-scoped artifacts.'')
            | Some sid \<Rightarrow>
                bind_result (validate_path_segment U sid ''session_id'') (\<lambda>_.
                  Inr (path_join (path_join (path_join (path_join (svc_root S) app_name) user_id) sid) filename))))"

definition version_path ::
  "'a adk \<Rightarrow> service \<Rightarrow> string \<Rightarrow> string \<Rightarrow> string \<Rightarrow> int \<Rightarrow> string option \<Rightarrow> path result" where
  "version_path U S app_name user_id filename version session_id =
     bind_result (artifact_dir U S app_name user_id filename session_id)
       (\<lambda>directory. Inr (path_join directory (int_str version)))"

definition ensure_parent :: "service \<Rightarrow> fs \<Rightarrow> path \<Rightarrow> fs result" where
  "ensure_parent S F p = (if svc_is_cloud S then Inr F else mkdirs F (butlast p))"

definition write_envelope :: "service \<Rightarrow> fs \<Rightarrow> path \<Rightarrow> json_dict \<Rightarrow> unit result \<times> fs" where
  "write_envelope S F p envelope =
     (case ensure_parent S F p of
        Inl e \<Rightarrow> (Inl e, F)
      | Inr F1 \<Rightarrow>
          (case write_text F1 p (dumps (JObj envelope)) of
             Inl e \<Rightarrow> (Inl e, F1)
           | Inr F2 \<Rightarrow> (Inr (), F2)))"

section \<open>Envelopes\<close>

definition opt_str :: "string option \<Rightarrow> json" where
  "opt_str x = (case x of None \<Rightarrow> JNull | Some s \<Rightarrow> JStr s)"

definition check_reference ::
  "'a adk \<Rightarrow> string \<Rightarrow> string \<Rightarrow> string option \<Rightarrow> string \<Rightarrow> artifact_ref result" where
  "check_reference U app_name user_id session_id file_uri =
     (case parse_artifact_uri U file_uri of
        None \<Rightarrow> Inl (InputValidationError (''Invalid artifact reference URI: '' @ file_uri))
      | Some parsed \<Rightarrow>
          bind_result (validate_reference_scope U app_name user_id session_id parsed) (\<lambda>_. Inr parsed))"

definition build_envelope ::
  "'a adk \<Rightarrow> pyfloat \<Rightarrow> int \<Rightarrow> part \<Rightarrow> json_dict option \<Rightarrow> string \<Rightarrow> string \<Rightarrow> string option \<Rightarrow>
   json_dict result" where
  "build_envelope U now version artifact custom_metadata app_name user_id session_id =
     (let envelope = [(''version'', JInt version), (''create_time'', JFloat now),
            (''custom_metadata'', JObj (case custom_metadata of None \<Rightarrow> [] | Some d \<Rightarrow> d))]
      in case pt_inline artifact of
           Some b \<Rightarrow>
             Inr (envelope @
               [(''kind'', JStr ''inline''), (''mime_type'', opt_str (bl_mime b)),
                (''data'', JStr (b64_encode (case bl_data b of None \<Rightarrow> [] | Some bytes \<Rightarrow> bytes)))] @
               (case bl_display b of
                  None \<Rightarrow> []
                | Some name \<Rightarrow> if name = [] then [] else [(''display_name'', JStr name)]))
         | None \<Rightarrow>
             (case pt_text artifact of
                Some txt \<Rightarrow>
                  Inr (envelope @ [(''kind'', JStr ''text''), (''mime_type'', JStr ''text/plain''), (''text'', JStr txt)])
              | None \<Rightarrow>
                  (case pt_file artifact of
                     None \<Rightarrow> Inl (InputValidationError ''Artifact must have either inline_data or text.'')
                   | Some f \<Rightarrow>
                       (case fd_uri f of
                          None \<Rightarrow> Inl (InputValidationError ''Artifact file_data must have a file_uri.'')
                        | Some file_uri \<Rightarrow>
                            if file_uri = [] then Inl (InputValidationError ''Artifact file_data must have a file_uri.'')
                            else bind_result
                              (if is_artifact_ref U artifact
                               then bind_result (check_reference U app_name user_id session_id file_uri) (\<lambda>_. Inr ())
                               else Inr ())
                              (\<lambda>_. Inr (envelope @
                                 [(''kind'', JStr ''file''), (''file_uri'', JStr file_uri),
                                  (''mime_type'', opt_str (fd_mime f))]))))))"

text \<open>
  A field of an envelope that a \<^verbatim>\<open>types\<close> constructor takes as text: a value of another
  type is pydantic's validation error, a \<open>ValueError\<close>.
\<close>

definition str_or_none :: "json option \<Rightarrow> string option result" where
  "str_or_none x =
     (case x of
        None \<Rightarrow> Inr None
      | Some JNull \<Rightarrow> Inr None
      | Some (JStr s) \<Rightarrow> Inr (Some s)
      | Some _ \<Rightarrow> Inl (ValueError ''Input should be a valid string''))"

definition env_field :: "json_dict \<Rightarrow> string \<Rightarrow> json result" where
  "env_field envelope key = (case dict_get envelope key of None \<Rightarrow> Inl (KeyError key) | Some v \<Rightarrow> Inr v)"

definition text_part :: "json_dict \<Rightarrow> part result" where
  "text_part envelope =
     bind_result (env_field envelope ''text'') (\<lambda>v.
     bind_result (str_or_none (Some v)) (\<lambda>txt. Inr \<lparr>pt_text = txt, pt_inline = None, pt_file = None\<rparr>))"

definition b64_field :: "json \<Rightarrow> string result" where
  "b64_field v =
     (case v of
        JStr s \<Rightarrow> (case b64_decode s of None \<Rightarrow> Inl (ValueError ''Incorrect padding'') | Some bytes \<Rightarrow> Inr bytes)
      | _ \<Rightarrow> Inl (TypeError ''argument should be a bytes-like object or ASCII string''))"

definition inline_part :: "json_dict \<Rightarrow> part result" where
  "inline_part envelope =
     bind_result (env_field envelope ''data'') (\<lambda>v.
     bind_result (b64_field v) (\<lambda>bytes.
     bind_result
       (case dict_get envelope ''mime_type'' of
          None \<Rightarrow> Inr (Some DEFAULT_MIME_TYPE)
        | Some m \<Rightarrow> if truthy m then str_or_none (Some m) else Inr (Some DEFAULT_MIME_TYPE)) (\<lambda>mime_type.
     bind_result
       (case dict_get envelope ''display_name'' of
          None \<Rightarrow> Inr None
        | Some n \<Rightarrow> if truthy n then str_or_none (Some n) else Inr None) (\<lambda>display_name.
       Inr \<lparr>pt_text = None,
            pt_inline = Some \<lparr>bl_mime = mime_type, bl_data = Some bytes, bl_display = display_name\<rparr>,
            pt_file = None\<rparr>))))"

definition file_part ::
  "'a adk \<Rightarrow> json_dict \<Rightarrow> string \<Rightarrow> string \<Rightarrow> string option \<Rightarrow> (artifact_ref \<Rightarrow> part option result) \<Rightarrow>
   part option result" where
  "file_part U envelope app_name user_id session_id load =
     bind_result (env_field envelope ''file_uri'') (\<lambda>v.
       case v of
         JStr file_uri \<Rightarrow>
           if startswith file_uri ''artifact://''
           then bind_result (check_reference U app_name user_id session_id file_uri) load
           else bind_result (str_or_none (dict_get envelope ''mime_type'')) (\<lambda>mime.
                  Inr (Some \<lparr>pt_text = None, pt_inline = None,
                             pt_file = Some \<lparr>fd_uri = Some file_uri, fd_mime = mime\<rparr>\<rparr>))
       | _ \<Rightarrow> Inl (AttributeError ''startswith''))"

definition part_from_envelope ::
  "'a adk \<Rightarrow> json_dict \<Rightarrow> string \<Rightarrow> string \<Rightarrow> string option \<Rightarrow> (artifact_ref \<Rightarrow> part option result) \<Rightarrow>
   part option result" where
  "part_from_envelope U envelope app_name user_id session_id load =
     (if dict_get envelope ''kind'' = Some (JStr ''text'')
      then bind_result (text_part envelope) (\<lambda>p. Inr (Some p))
      else if dict_get envelope ''kind'' = Some (JStr ''file'')
      then file_part U envelope app_name user_id session_id load
      else bind_result (inline_part envelope) (\<lambda>p. Inr (Some p)))"

definition read_envelope :: "fs \<Rightarrow> path \<Rightarrow> json_dict result" where
  "read_envelope F p =
     bind_result (read_text F p) (\<lambda>txt.
     bind_result (loads txt) (\<lambda>v. case v of JObj d \<Rightarrow> Inr d | _ \<Rightarrow> Inl (AttributeError ''get'')))"

section \<open>The operations\<close>

definition list_versions_core ::
  "'a adk \<Rightarrow> service \<Rightarrow> fs \<Rightarrow> string \<Rightarrow> string \<Rightarrow> string option \<Rightarrow> string \<Rightarrow> int list result" where
  "list_versions_core U S F app_name user_id session_id filename =
     bind_result (artifact_dir U S app_name user_id filename session_id) (\<lambda>directory.
       if \<not> path_exists F directory then Inr []
       else bind_result (iterdir F directory) (\<lambda>names.
              Inr (map (\<lambda>n. int (nat_of_digits n)) (filter isdigit names))))"

text \<open>
  Saving reads the directory, then writes. The two halves are separate definitions because each
  save runs in a thread of its own, and another save may come between them.
\<close>

definition next_version :: "int list \<Rightarrow> int" where
  "next_version versions = (if versions = [] then 0 else Max (set versions) + 1)"

definition save_plan ::
  "'a adk \<Rightarrow> service \<Rightarrow> fs \<Rightarrow> pyfloat \<Rightarrow> string \<Rightarrow> string \<Rightarrow> string option \<Rightarrow> string \<Rightarrow> 'a \<Rightarrow>
   json_dict option \<Rightarrow> (int \<times> json_dict \<times> path) result" where
  "save_plan U S F now app_name user_id session_id filename artifact custom_metadata =
     bind_result (ensure_part U artifact) (\<lambda>p.
     bind_result (list_versions_core U S F app_name user_id session_id filename) (\<lambda>versions.
     let version = next_version versions in
     bind_result (build_envelope U now version p custom_metadata app_name user_id session_id) (\<lambda>envelope.
     bind_result (version_path U S app_name user_id filename version session_id) (\<lambda>p.
       Inr (version, envelope, p)))))"

definition save_commit :: "service \<Rightarrow> fs \<Rightarrow> int \<times> json_dict \<times> path \<Rightarrow> int result \<times> fs" where
  "save_commit S F plan =
     (case plan of (version, envelope, p) \<Rightarrow>
        (case write_envelope S F p envelope of
           (Inl e, F') \<Rightarrow> (Inl e, F')
         | (Inr _, F') \<Rightarrow> (Inr version, F')))"

definition save_artifact_core ::
  "'a adk \<Rightarrow> service \<Rightarrow> fs \<Rightarrow> pyfloat \<Rightarrow> string \<Rightarrow> string \<Rightarrow> string option \<Rightarrow> string \<Rightarrow> 'a \<Rightarrow>
   json_dict option \<Rightarrow> int result \<times> fs" where
  "save_artifact_core U S F now app_name user_id session_id filename artifact custom_metadata =
     (case save_plan U S F now app_name user_id session_id filename artifact custom_metadata of
        Inl e \<Rightarrow> (Inl e, F)
      | Inr plan \<Rightarrow> save_commit S F plan)"

definition version_or_latest ::
  "'a adk \<Rightarrow> service \<Rightarrow> fs \<Rightarrow> string \<Rightarrow> string \<Rightarrow> string option \<Rightarrow> string \<Rightarrow> int option \<Rightarrow> int option result" where
  "version_or_latest U S F app_name user_id session_id filename version =
     (case version of
        Some v \<Rightarrow> Inr (Some v)
      | None \<Rightarrow>
          bind_result (list_versions_core U S F app_name user_id session_id filename) (\<lambda>versions.
            Inr (if versions = [] then None else Some (Max (set versions)))))"

text \<open>The envelope a request reads, if there is one, and then the part made of it.\<close>

definition stored_envelope ::
  "'a adk \<Rightarrow> service \<Rightarrow> fs \<Rightarrow> string \<Rightarrow> string \<Rightarrow> string option \<Rightarrow> string \<Rightarrow> int option \<Rightarrow>
   json_dict option result" where
  "stored_envelope U S F app_name user_id session_id filename version =
     bind_result (version_or_latest U S F app_name user_id session_id filename version) (\<lambda>found.
       case found of
         None \<Rightarrow> Inr None
       | Some v \<Rightarrow>
           bind_result (version_path U S app_name user_id filename v session_id) (\<lambda>p.
             if \<not> path_exists F p then Inr None
             else bind_result (read_envelope F p) (\<lambda>envelope. Inr (Some envelope))))"

fun load_artifact_core ::
  "nat \<Rightarrow> 'a adk \<Rightarrow> service \<Rightarrow> fs \<Rightarrow> string \<Rightarrow> string \<Rightarrow> string option \<Rightarrow> string \<Rightarrow> int option \<Rightarrow>
   part option result" where
  "load_artifact_core 0 U S F app_name user_id session_id filename version =
     Inl (RecursionError ''maximum recursion depth exceeded'')"
| "load_artifact_core (Suc depth) U S F app_name user_id session_id filename version =
     bind_result (stored_envelope U S F app_name user_id session_id filename version) (\<lambda>found.
       case found of
         None \<Rightarrow> Inr None
       | Some envelope \<Rightarrow>
           part_from_envelope U envelope app_name user_id session_id
             (\<lambda>r. load_artifact_core depth U S F (ref_app r) (ref_user r) (ref_session r)
                    (ref_filename r) (ref_version r)))"

definition filenames_under :: "fs \<Rightarrow> path \<Rightarrow> string list" where
  "filenames_under F scope_dir =
     (if \<not> path_exists F scope_dir then []
      else map (\<lambda>q. join ''/'' (butlast (drop (length scope_dir) q)))
             (filter (\<lambda>q. 2 \<le> length (drop (length scope_dir) q) \<and> isdigit (last q)) (files_below F scope_dir)))"

definition list_artifact_keys_core ::
  "'a adk \<Rightarrow> service \<Rightarrow> fs \<Rightarrow> string \<Rightarrow> string \<Rightarrow> string option \<Rightarrow> string list result" where
  "list_artifact_keys_core U S F app_name user_id session_id =
     bind_result (validate_path_segment U app_name ''app_name'') (\<lambda>_.
     bind_result (validate_path_segment U user_id ''user_id'') (\<lambda>_.
     bind_result
       (case session_id of
          None \<Rightarrow> Inr []
        | Some sid \<Rightarrow>
            bind_result (validate_path_segment U sid ''session_id'') (\<lambda>_.
              Inr (filenames_under F (path_join (path_join (path_join (svc_root S) app_name) user_id) sid))))
       (\<lambda>in_session.
          Inr (sort (remdups (in_session @
            filenames_under F (path_join (path_join (path_join (svc_root S) app_name) user_id) ''user'')))))))"

fun delete_versions ::
  "'a adk \<Rightarrow> service \<Rightarrow> fs \<Rightarrow> string \<Rightarrow> string \<Rightarrow> string option \<Rightarrow> string \<Rightarrow> int list \<Rightarrow> unit result \<times> fs" where
  "delete_versions U S F app_name user_id session_id filename [] = (Inr (), F)"
| "delete_versions U S F app_name user_id session_id filename (v # vs) =
     (case version_path U S app_name user_id filename v session_id of
        Inl e \<Rightarrow> (Inl e, F)
      | Inr p \<Rightarrow>
          if \<not> path_exists F p then delete_versions U S F app_name user_id session_id filename vs
          else case unlink F p of
                 Inl e \<Rightarrow> (Inl e, F)
               | Inr F' \<Rightarrow> delete_versions U S F' app_name user_id session_id filename vs)"

definition delete_artifact_core ::
  "'a adk \<Rightarrow> service \<Rightarrow> fs \<Rightarrow> string \<Rightarrow> string \<Rightarrow> string option \<Rightarrow> string \<Rightarrow> unit result \<times> fs" where
  "delete_artifact_core U S F app_name user_id session_id filename =
     (case list_versions_core U S F app_name user_id session_id filename of
        Inl e \<Rightarrow> (Inl e, F)
      | Inr versions \<Rightarrow> delete_versions U S F app_name user_id session_id filename versions)"

section \<open>Version metadata\<close>

text \<open>The fields of \<^verbatim>\<open>ArtifactVersion\<close> as the envelope has them; pydantic's conversions are not modelled.\<close>

record artifact_version =
  av_version :: int
  av_canonical_uri :: string
  av_create_time :: json
  av_mime_type :: json
  av_custom_metadata :: json

definition artifact_version_meta ::
  "'a adk \<Rightarrow> service \<Rightarrow> fs \<Rightarrow> pyfloat \<Rightarrow> string \<Rightarrow> string \<Rightarrow> string option \<Rightarrow> string \<Rightarrow> int \<Rightarrow>
   artifact_version option result" where
  "artifact_version_meta U S F now app_name user_id session_id filename version =
     bind_result (version_path U S app_name user_id filename version session_id) (\<lambda>p.
       if \<not> path_exists F p then Inr None
       else bind_result (read_envelope F p) (\<lambda>envelope.
         Inr (Some
           \<lparr>av_version = version, av_canonical_uri = path_str p,
            av_create_time = (case dict_get envelope ''create_time'' of None \<Rightarrow> JFloat now | Some t \<Rightarrow> t),
            av_mime_type = (case dict_get envelope ''mime_type'' of None \<Rightarrow> JNull | Some m \<Rightarrow> m),
            av_custom_metadata =
              (case dict_get envelope ''custom_metadata'' of
                 None \<Rightarrow> JObj []
               | Some d \<Rightarrow> if truthy d then d else JObj [])\<rparr>)))"

definition get_artifact_version_core ::
  "'a adk \<Rightarrow> service \<Rightarrow> fs \<Rightarrow> pyfloat \<Rightarrow> string \<Rightarrow> string \<Rightarrow> string option \<Rightarrow> string \<Rightarrow> int option \<Rightarrow>
   artifact_version option result" where
  "get_artifact_version_core U S F now app_name user_id session_id filename version =
     bind_result (version_or_latest U S F app_name user_id session_id filename version) (\<lambda>found.
       case found of
         None \<Rightarrow> Inr None
       | Some v \<Rightarrow> artifact_version_meta U S F now app_name user_id session_id filename v)"

fun version_metas ::
  "(int \<Rightarrow> artifact_version option result) \<Rightarrow> int list \<Rightarrow> artifact_version list result" where
  "version_metas meta [] = Inr []"
| "version_metas meta (v # vs) =
     bind_result (meta v) (\<lambda>m.
     bind_result (version_metas meta vs) (\<lambda>ms. Inr (case m of None \<Rightarrow> ms | Some x \<Rightarrow> x # ms)))"

definition list_artifact_versions_core ::
  "'a adk \<Rightarrow> service \<Rightarrow> fs \<Rightarrow> pyfloat \<Rightarrow> string \<Rightarrow> string \<Rightarrow> string option \<Rightarrow> string \<Rightarrow>
   artifact_version list result" where
  "list_artifact_versions_core U S F now app_name user_id session_id filename =
     bind_result (list_versions_core U S F app_name user_id session_id filename) (\<lambda>versions.
     bind_result (version_metas (artifact_version_meta U S F now app_name user_id session_id filename) versions)
       (\<lambda>metas. Inr (sort_key av_version metas)))"

section \<open>The service surface\<close>

text \<open>
  Each operation runs its core in a thread. The keyword arguments, in the order of the signature,
  become the positional ones of the core; a missing session, metadata or version is \<open>None\<close>.
\<close>

definition save_artifact ::
  "'a adk \<Rightarrow> service \<Rightarrow> fs \<Rightarrow> pyfloat \<Rightarrow> string \<Rightarrow> string \<Rightarrow> string \<Rightarrow> 'a \<Rightarrow> string option \<Rightarrow>
   json_dict option \<Rightarrow> int result \<times> fs" where
  "save_artifact U S F now app_name user_id filename artifact session_id custom_metadata =
     save_artifact_core U S F now app_name user_id session_id filename artifact custom_metadata"

definition load_artifact ::
  "nat \<Rightarrow> 'a adk \<Rightarrow> service \<Rightarrow> fs \<Rightarrow> string \<Rightarrow> string \<Rightarrow> string \<Rightarrow> string option \<Rightarrow> int option \<Rightarrow>
   part option result" where
  "load_artifact depth U S F app_name user_id filename session_id version =
     load_artifact_core depth U S F app_name user_id session_id filename version"

definition list_artifact_keys ::
  "'a adk \<Rightarrow> service \<Rightarrow> fs \<Rightarrow> string \<Rightarrow> string \<Rightarrow> string option \<Rightarrow> string list result" where
  "list_artifact_keys U S F app_name user_id session_id = list_artifact_keys_core U S F app_name user_id session_id"

definition delete_artifact ::
  "'a adk \<Rightarrow> service \<Rightarrow> fs \<Rightarrow> string \<Rightarrow> string \<Rightarrow> string \<Rightarrow> string option \<Rightarrow> unit result \<times> fs" where
  "delete_artifact U S F app_name user_id filename session_id =
     delete_artifact_core U S F app_name user_id session_id filename"

definition list_versions ::
  "'a adk \<Rightarrow> service \<Rightarrow> fs \<Rightarrow> string \<Rightarrow> string \<Rightarrow> string \<Rightarrow> string option \<Rightarrow> int list result" where
  "list_versions U S F app_name user_id filename session_id =
     list_versions_core U S F app_name user_id session_id filename"

definition list_artifact_versions ::
  "'a adk \<Rightarrow> service \<Rightarrow> fs \<Rightarrow> pyfloat \<Rightarrow> string \<Rightarrow> string \<Rightarrow> string \<Rightarrow> string option \<Rightarrow>
   artifact_version list result" where
  "list_artifact_versions U S F now app_name user_id filename session_id =
     list_artifact_versions_core U S F now app_name user_id session_id filename"

definition get_artifact_version ::
  "'a adk \<Rightarrow> service \<Rightarrow> fs \<Rightarrow> pyfloat \<Rightarrow> string \<Rightarrow> string \<Rightarrow> string \<Rightarrow> string option \<Rightarrow> int option \<Rightarrow>
   artifact_version option result" where
  "get_artifact_version U S F now app_name user_id filename session_id version =
     get_artifact_version_core U S F now app_name user_id session_id filename version"

section \<open>Configuration\<close>

definition ARTIFACT_STORAGE_URI_ENV :: string where
  "ARTIFACT_STORAGE_URI_ENV = ''ARTIFACT_STORAGE_URI''"

text \<open>
  \<^verbatim>\<open>AnyPath\<close> of cloudpathlib, which decides between a cloud and a local path, is a parameter:
  it gives the service bound to a location.
\<close>

definition provide_storage_service ::
  "(string \<Rightarrow> service result) \<Rightarrow> string option \<Rightarrow> (string, string) dict \<Rightarrow> service result" where
  "provide_storage_service any_path base_path env =
     (let configured = (if base_path \<noteq> None \<and> base_path \<noteq> Some [] then base_path
                        else dict_get env ARTIFACT_STORAGE_URI_ENV)
      in case configured of
           Some location \<Rightarrow>
             if location \<noteq> [] then any_path location
             else Inl (ValueError (''No artifact storage location configured: set '' @ ARTIFACT_STORAGE_URI_ENV @
               '' (e.g. '' @ repr ''s3://bucket/prefix'' @ '', '' @ repr ''gs://bucket/prefix'' @
               '', or a local path) or pass base_path to ArtifactStorageModule.''))
         | None \<Rightarrow>
             Inl (ValueError (''No artifact storage location configured: set '' @ ARTIFACT_STORAGE_URI_ENV @
               '' (e.g. '' @ repr ''s3://bucket/prefix'' @ '', '' @ repr ''gs://bucket/prefix'' @
               '', or a local path) or pass base_path to ArtifactStorageModule.'')))"

end
