(* ===== verification/Artifact_Facts.thy ===== *)
theory Artifact_Facts
  imports Artifacts
begin

text \<open>
  Facts of the artifact store: the invariant of the file system, the effect of a save on the
  versions and on every other file, the round trip of a part through its envelope, deletion,
  listing, and chains of \<^verbatim>\<open>artifact://\<close> references. The last section holds what the store does
  not prevent.
\<close>

section \<open>Files and directories\<close>

definition fs_ok :: "fs \<Rightarrow> bool" where
  "fs_ok F \<longleftrightarrow> dict_ok (fs_files F) \<and>
     (\<forall>p. is_file F p \<longrightarrow> \<not> is_dir F p \<and> is_dir F (butlast p)) \<and>
     (\<forall>p. is_dir F p \<longrightarrow> is_dir F (butlast p))"

lemma is_file_keys: "is_file F p \<longleftrightarrow> p \<in> fst ` set (fs_files F)"
  by (simp add: is_file_def map_of_eq_None_iff)

lemma fs_okD:
  assumes "fs_ok F"
  shows "dict_ok (fs_files F)" "is_file F p \<Longrightarrow> \<not> is_dir F p" "is_file F p \<Longrightarrow> is_dir F (butlast p)"
    "is_dir F p \<Longrightarrow> is_dir F (butlast p)"
  using assms by (auto simp: fs_ok_def)

lemma ancestor_dir:
  assumes "fs_ok F" "is_file F q" "n < length q"
  shows "is_dir F (take n q)"
  using assms(3)
proof (induction "length q - Suc n" arbitrary: n)
  case 0
  then have "n = length q - 1" by simp
  then have "take n q = butlast q" by (simp only: butlast_conv_take)
  then show ?case using fs_okD(3) [OF assms(1,2)] by (simp only:)
next
  case (Suc m)
  then have "is_dir F (take (Suc n) q)" by (intro Suc.hyps(1)) linarith+
  moreover have "butlast (take (Suc n) q) = take n q" using Suc.prems Suc.hyps(2) by (simp add: butlast_take)
  ultimately show ?case using fs_okD(4) [OF assms(1)] by metis
qed

lemma mkdirs_Inr:
  assumes "mkdirs F p = Inr G"
  shows "fs_files G = fs_files F" "is_dir G p" "is_dir F q \<Longrightarrow> is_dir G q"
    "is_dir G q \<Longrightarrow> is_dir F q \<or> (\<exists>n. q = take n p \<and> \<not> is_file F q)"
proof -
  have "fs_files G = fs_files F \<and> is_dir G p \<and> (is_dir F q \<longrightarrow> is_dir G q) \<and>
    (is_dir G q \<longrightarrow> is_dir F q \<or> (\<exists>n. q = take n p \<and> \<not> is_file F q))"
  proof (cases "is_dir F p")
    case False
    then have p: "p \<noteq> []" by (auto simp: is_dir_def)
    have nf: "\<not> is_file F p" and anc: "\<forall>n < length p. \<not> is_file F (take n p)"
      using assms False by (auto simp: mkdirs_def list_ex_iff split: if_splits)
    have G: "G = F\<lparr>fs_dirs := fs_dirs F @ filter (\<lambda>q. \<not> is_dir F q) (map (\<lambda>n. take n p) [1..<Suc (length p)])\<rparr>"
      using assms False nf anc by (auto simp: mkdirs_def list_ex_iff split: if_splits)
    have in_G: "is_dir G q \<longleftrightarrow> is_dir F q \<or> q \<in> (\<lambda>n. take n p) ` {1..length p}" for q
      by (auto simp: G is_dir_def)
    have "p \<in> (\<lambda>n. take n p) ` {1..length p}"
      using p by (intro image_eqI [of _ _ "length p"]) (auto simp: Suc_le_eq)
    moreover have "\<not> is_file F (take n p)" for n
      using anc nf by (cases "n < length p") auto
    ultimately show ?thesis using in_G G by auto
  qed (use assms in \<open>auto simp: mkdirs_def\<close>)
  then show "fs_files G = fs_files F" "is_dir G p" "is_dir F q \<Longrightarrow> is_dir G q"
    "is_dir G q \<Longrightarrow> is_dir F q \<or> (\<exists>n. q = take n p \<and> \<not> is_file F q)" by auto
qed

lemma mkdirs_ok:
  assumes "fs_ok F" "mkdirs F p = Inr G"
  shows "fs_ok G"
  unfolding fs_ok_def
proof (intro conjI allI impI)
  note m = mkdirs_Inr [OF assms(2)] and ok = fs_okD [OF assms(1)]
  have files: "is_file G q = is_file F q" for q using m(1) by (simp add: is_file_def)
  show "dict_ok (fs_files G)" using m(1) ok(1) by simp
  fix q
  show "\<not> is_dir G q" if "is_file G q" using m(4) [of q] ok(2) that files by auto
  show "is_dir G (butlast q)" if "is_file G q" using m(3) ok(3) that files by auto
  show "is_dir G (butlast q)" if d: "is_dir G q"
  proof (cases "is_dir F q")
    case False
    then have "\<not> is_dir F p"
      using assms(2) d by (auto simp: mkdirs_def)
    then have G: "G = F\<lparr>fs_dirs := fs_dirs F @ filter (\<lambda>q. \<not> is_dir F q) (map (\<lambda>n. take n p) [1..<Suc (length p)])\<rparr>"
      using assms(2) by (auto simp: mkdirs_def split: if_splits)
    then obtain n where n: "q = take n p" "1 \<le> n" "n \<le> length p" using d False by (auto simp: is_dir_def)
    then have b: "butlast q = take (n - 1) p" by (simp add: butlast_take)
    show ?thesis
    proof (cases "n = 1")
      case False
      then have "n - 1 \<in> set [1..<Suc (length p)]" using n by auto
      then show ?thesis using b by (auto simp: G is_dir_def)
    qed (simp add: b is_dir_def)
  qed (use m(3) ok(4) in auto)
qed

lemma write_text_Inr:
  assumes "write_text F p txt = Inr G"
  shows "fs_files G = dict_set (fs_files F) p txt" "is_dir G q = is_dir F q" "\<not> is_dir F p" "is_dir F (butlast p)"
  using assms by (auto simp: write_text_def is_dir_def split: if_splits)

lemma write_text_ok:
  assumes "fs_ok F" "write_text F p txt = Inr G"
  shows "fs_ok G"
  using write_text_Inr [OF assms(2)] fs_okD [OF assms(1)]
  unfolding fs_ok_def by (auto simp: is_file_def split: if_splits)

lemma write_envelope_Inr:
  assumes "\<not> svc_is_cloud S" "fs_ok F" "write_envelope S F p e = (Inr x, G)"
  shows "fs_files G = dict_set (fs_files F) p (dumps (JObj e))" "is_dir G (butlast p)" "fs_ok G" "\<not> is_dir G p"
    "is_dir F q \<Longrightarrow> is_dir G q" "is_dir G q \<Longrightarrow> is_dir F q \<or> (\<exists>n. q = take n (butlast p))"
proof -
  obtain F1 where f: "mkdirs F (butlast p) = Inr F1" "write_text F1 p (dumps (JObj e)) = Inr G"
    using assms by (auto simp: write_envelope_def ensure_parent_def split: sum.splits)
  note m = mkdirs_Inr [OF f(1)] and w = write_text_Inr [OF f(2)]
  show "fs_files G = dict_set (fs_files F) p (dumps (JObj e))" using m w by simp
  show "is_dir G (butlast p)" "\<not> is_dir G p" using w by simp_all
  show "fs_ok G" using write_text_ok [OF mkdirs_ok [OF assms(2) f(1)] f(2)] .
  show "is_dir F q \<Longrightarrow> is_dir G q" using m w by simp
  show "is_dir G q \<Longrightarrow> is_dir F q \<or> (\<exists>n. q = take n (butlast p))" using m(4) [of q] w by auto
qed

section \<open>The versions of an artifact\<close>

lemma digits_no_slash: "list_all is_digit s \<Longrightarrow> CHR ''/'' \<notin> set s"
  by (auto simp: list_all_iff is_digit_def)

lemma path_parts_plain:
  assumes "CHR ''/'' \<notin> set s" "s \<noteq> []" "s \<noteq> ''.''"
  shows "path_parts s = [s]" "path_root s = []"
proof -
  have "path_root s = []" using assms(1) by (cases s) (auto simp: path_root_def startswith_def)
  then show "path_root s = []" "path_parts s = [s]"
    using split_on_fresh [OF assms(1)] assms(2,3) by (simp_all add: path_parts_def)
qed

lemma path_join_version: "path_join d (nat_str n) = d @ [nat_str n]"
proof -
  have "list_all is_digit (nat_str n)" by (rule nat_str_digits)
  moreover have "nat_str n \<noteq> ''.''" using nat_str_digits [of n] by (auto simp: is_digit_def)
  ultimately show ?thesis
    using path_parts_plain [of "nat_str n"] digits_no_slash by (simp add: path_join_def)
qed

lemma version_path_at:
  assumes "artifact_dir U S a u f s = Inr d" "0 \<le> v"
  shows "version_path U S a u f v s = Inr (d @ [nat_str (nat v)])"
  using assms path_join_version [of d "nat v"] by (simp add: version_path_def int_str_def)

definition child_names :: "fs \<Rightarrow> path \<Rightarrow> string set" where
  "child_names F d = {n. path_exists F (d @ [n])}"

lemma iterdir_children:
  assumes "iterdir F d = Inr names"
  shows "set names = child_names F d"
proof -
  have "names = map last (filter (\<lambda>q. q \<noteq> [] \<and> butlast q = d) (map fst (fs_files F) @ fs_dirs F))"
    using assms by (simp add: iterdir_def split: if_splits)
  then have "set names = last ` {q \<in> set (map fst (fs_files F) @ fs_dirs F). q \<noteq> [] \<and> butlast q = d}"
    by (simp only: set_map set_filter)
  also have "{q \<in> set (map fst (fs_files F) @ fs_dirs F). q \<noteq> [] \<and> butlast q = d} =
      {q. q \<noteq> [] \<and> butlast q = d \<and> (is_file F q \<or> q \<in> set (fs_dirs F))}"
    by (auto simp: is_file_keys)
  also have "last ` {q. q \<noteq> [] \<and> butlast q = d \<and> (is_file F q \<or> q \<in> set (fs_dirs F))} = child_names F d"
  proof (intro set_eqI iffI)
    fix n assume "n \<in> child_names F d"
    then show "n \<in> last ` {q. q \<noteq> [] \<and> butlast q = d \<and> (is_file F q \<or> q \<in> set (fs_dirs F))}"
      by (intro image_eqI [of _ _ "d @ [n]"]) (auto simp: child_names_def path_exists_def is_dir_def)
  next
    fix n assume "n \<in> last ` {q. q \<noteq> [] \<and> butlast q = d \<and> (is_file F q \<or> q \<in> set (fs_dirs F))}"
    then obtain q where q: "n = last q" "q \<noteq> []" "butlast q = d" "is_file F q \<or> q \<in> set (fs_dirs F)" by auto
    then have "q = d @ [n]" using append_butlast_last_id by metis
    with q show "n \<in> child_names F d" by (auto simp: child_names_def path_exists_def is_dir_def)
  qed
  finally show ?thesis .
qed

text \<open>The listing is the numbers of the entries of the directory, when it is not a file.\<close>

lemma list_versions_set:
  assumes "fs_ok F" "artifact_dir U S a u f s = Inr d"
  shows "is_file F d \<Longrightarrow> list_versions_core U S F a u s f = Inl (OSError ''Not a directory'')"
    and "list_versions_core U S F a u s f = Inr vs \<Longrightarrow>
      set vs = (\<lambda>n. int (nat_of_digits n)) ` {n \<in> child_names F d. isdigit n}"
    and "\<not> is_file F d \<Longrightarrow> \<exists>vs. list_versions_core U S F a u s f = Inr vs"
proof -
  note ok = fs_okD [OF assms(1)]
  show "is_file F d \<Longrightarrow> list_versions_core U S F a u s f = Inl (OSError ''Not a directory'')"
    using ok(2) assms(2) by (auto simp: list_versions_core_def path_exists_def iterdir_def)
  show "\<not> is_file F d \<Longrightarrow> \<exists>vs. list_versions_core U S F a u s f = Inr vs"
    using assms(2) by (auto simp: list_versions_core_def path_exists_def iterdir_def)
  assume vs: "list_versions_core U S F a u s f = Inr vs"
  show "set vs = (\<lambda>n. int (nat_of_digits n)) ` {n \<in> child_names F d. isdigit n}"
  proof (cases "path_exists F d")
    case True
    then obtain names where n: "iterdir F d = Inr names" "vs = map (\<lambda>n. int (nat_of_digits n)) (filter isdigit names)"
      using vs assms(2) by (auto simp: list_versions_core_def result_simps)
    then show ?thesis using iterdir_children [OF n(1)] by auto
  next
    case False
    have "child_names F d = {}"
      using False ok(3) [of "d @ [n]" for n] ok(4) [of "d @ [n]" for n]
      by (auto simp: child_names_def path_exists_def)
    then show ?thesis using False vs assms(2) by (simp add: list_versions_core_def)
  qed
qed

section \<open>Saving\<close>

lemma save_plan_Inr:
  assumes "fs_ok F" "save_plan U S F now a u s f x md = Inr (v, env, p)"
  obtains d vs pt where "artifact_dir U S a u f s = Inr d" "list_versions_core U S F a u s f = Inr vs"
    "v = next_version vs" "0 \<le> v" "ensure_part U x = Inr pt" "build_envelope U now v pt md a u s = Inr env"
    "p = d @ [nat_str (nat v)]"
proof -
  obtain pt vs where p: "ensure_part U x = Inr pt" "list_versions_core U S F a u s f = Inr vs"
    "build_envelope U now v pt md a u s = Inr env" "v = next_version vs" "version_path U S a u f v s = Inr p"
    using assms(2) by (auto simp: save_plan_def Let_def result_simps)
  obtain d where d: "artifact_dir U S a u f s = Inr d"
    using p(5) by (auto simp: version_path_def result_simps)
  have "\<forall>w \<in> set vs. 0 \<le> w" using list_versions_set(2) [OF assms(1) d p(2)] by auto
  then have v: "0 \<le> v" using p(4) by (auto simp: next_version_def intro: add_nonneg_nonneg)
  show thesis using that [OF d p(2,4) v p(1,3)] p(5) version_path_at [OF d v] by simp
qed

lemma next_version_above: "w \<in> set vs \<Longrightarrow> w < next_version vs"
  by (auto simp: next_version_def intro: le_imp_less_Suc zle_add1_eq_le [THEN iffD2])

text \<open>The path a save writes to is new, unless its parent is a file.\<close>

lemma new_version_path:
  assumes "fs_ok F" "artifact_dir U S a u f s = Inr d" "list_versions_core U S F a u s f = Inr vs" "0 \<le> v" "v \<notin> set vs"
  shows "\<not> path_exists F (d @ [nat_str (nat v)])"
proof
  assume "path_exists F (d @ [nat_str (nat v)])"
  then have "int (nat_of_digits (nat_str (nat v))) \<in> set vs"
    unfolding list_versions_set(2) [OF assms(1-3)] by (intro imageI) (simp add: child_names_def)
  with assms(4,5) show False by simp
qed

lemma write_child_names:
  assumes "\<not> svc_is_cloud S" "fs_ok F" "write_envelope S F (d @ [n]) env = (Inr (), G)"
  shows "child_names G d = insert n (child_names F d)"
proof (intro set_eqI iffI)
  note g = write_envelope_Inr [OF assms]
  fix m assume m: "m \<in> child_names G d"
  show "m \<in> insert n (child_names F d)"
  proof (cases "is_dir G (d @ [m])")
    case True
    then consider "is_dir F (d @ [m])" | k where "d @ [m] = take k d"
      using g(6) by fastforce
    then show ?thesis
    proof cases
      case 2
      then have "length (d @ [m]) = length (take k d)" by simp
      then show ?thesis by simp
    qed (simp add: child_names_def path_exists_def)
  next
    case False
    then have "is_file G (d @ [m])" using m by (simp add: child_names_def path_exists_def)
    then show ?thesis using g(1) by (auto simp: is_file_def child_names_def path_exists_def split: if_splits)
  qed
next
  note g = write_envelope_Inr [OF assms]
  fix m assume "m \<in> insert n (child_names F d)"
  then show "m \<in> child_names G d"
    using g(1,5) by (auto simp: is_file_def child_names_def path_exists_def)
qed

lemma save_effect:
  assumes "\<not> svc_is_cloud S" "fs_ok F" "save_artifact_core U S F now a u s f x md = (Inr v, G)"
  obtains d vs pt env where "artifact_dir U S a u f s = Inr d" "list_versions_core U S F a u s f = Inr vs"
    "v = next_version vs" "0 \<le> v" "ensure_part U x = Inr pt" "build_envelope U now v pt md a u s = Inr env"
    "save_plan U S F now a u s f x md = Inr (v, env, d @ [nat_str (nat v)])"
    "\<not> path_exists F (d @ [nat_str (nat v)])" "fs_ok G"
    "fs_files G = dict_set (fs_files F) (d @ [nat_str (nat v)]) (dumps (JObj env))"
    "\<forall>w. list_versions_core U S G a u s f = Inr w \<longrightarrow> set w = insert v (set vs)"
    "\<exists>w. list_versions_core U S G a u s f = Inr w"
proof -
  obtain v' env p where pl: "save_plan U S F now a u s f x md = Inr (v', env, p)"
    using assms(3) by (auto simp: save_artifact_core_def split: sum.splits)
  with assms(3) have w: "write_envelope S F p env = (Inr (), G)" "v' = v"
    by (auto simp: save_artifact_core_def save_commit_def split: prod.splits sum.splits)
  obtain d vs pt where e: "artifact_dir U S a u f s = Inr d" "list_versions_core U S F a u s f = Inr vs"
    "v = next_version vs" "0 \<le> v" "ensure_part U x = Inr pt" "build_envelope U now v pt md a u s = Inr env"
    "p = d @ [nat_str (nat v)]"
    using save_plan_Inr [OF assms(2) pl] w(2) by metis
  have "v \<notin> set vs" using next_version_above e(3) by blast
  note new = new_version_path [OF assms(2) e(1,2,4) this]
  note g = write_envelope_Inr [OF assms(1,2) w(1)]
  have nd: "\<not> is_file G d" using g(2,3) fs_okD(2) e(7) by fastforce
  have names: "child_names G d = insert (nat_str (nat v)) (child_names F d)"
    using write_child_names [OF assms(1,2)] w(1) e(7) by blast
  have "set w = insert v (set vs)" if "list_versions_core U S G a u s f = Inr w" for w
  proof -
    have "set w = (\<lambda>n. int (nat_of_digits n)) ` {n \<in> insert (nat_str (nat v)) (child_names F d). isdigit n}"
      using list_versions_set(2) [OF g(3) e(1) that] names by simp
    also have "{n \<in> insert (nat_str (nat v)) (child_names F d). isdigit n} =
        insert (nat_str (nat v)) {n \<in> child_names F d. isdigit n}" by auto
    finally have "set w = insert (int (nat_of_digits (nat_str (nat v))))
        ((\<lambda>n. int (nat_of_digits n)) ` {n \<in> child_names F d. isdigit n})" by simp
    also have "\<dots> = insert v (set vs)"
      unfolding list_versions_set(2) [OF assms(2) e(1,2)] using e(4) by simp
    finally show ?thesis .
  qed
  moreover have "\<exists>w. list_versions_core U S G a u s f = Inr w"
    using list_versions_set(3) [OF g(3) e(1) nd] .
  ultimately show thesis
    using that [OF e(1-6), of] pl w(2) e(7) new g(1,3) by blast
qed

text \<open>C23. Saving gives a version above every stored version of the artifact; afterwards the versions are the old ones and the new one, every file that was stored keeps its text, and the file system stays well formed.\<close>

theorem saved_versions_are_fresh:
  assumes "\<not> svc_is_cloud S" "fs_ok F" "save_artifact_core U S F now a u s f x md = (Inr v, G)"
  shows "fs_ok G \<and>
    (\<exists>old new. list_versions_core U S F a u s f = Inr old \<and> list_versions_core U S G a u s f = Inr new \<and>
       (\<forall>w \<in> set old. w < v) \<and> set new = insert v (set old)) \<and>
    (\<forall>q txt. dict_get (fs_files F) q = Some txt \<longrightarrow> dict_get (fs_files G) q = Some txt)"
proof -
  obtain d vs env where e: "list_versions_core U S F a u s f = Inr vs" "v = next_version vs" "fs_ok G"
    "\<not> path_exists F (d @ [nat_str (nat v)])"
    "fs_files G = dict_set (fs_files F) (d @ [nat_str (nat v)]) (dumps (JObj env))"
    "\<forall>w. list_versions_core U S G a u s f = Inr w \<longrightarrow> set w = insert v (set vs)"
    "\<exists>w. list_versions_core U S G a u s f = Inr w"
    using save_effect [OF assms] by metis
  have "dict_get (fs_files G) q = Some s" if "dict_get (fs_files F) q = Some s" for q s
    using that e(4,5) by (auto simp: path_exists_def is_file_def)
  moreover have "\<forall>w \<in> set vs. w < v" using e(2) next_version_above by blast
  ultimately show ?thesis using e(1,3,6,7) by blast
qed

section \<open>What is saved is read\<close>

lemma read_envelope_written:
  assumes "fs_ok G" "fs_files G = dict_set files p (dumps (JObj env))" "json_ok (JObj env)"
  shows "read_envelope G p = Inr env" "path_exists G p"
proof -
  have g: "dict_get (fs_files G) p = Some (dumps (JObj env))" using assms(2) by simp
  then have "\<not> is_dir G p" using fs_okD(2) [OF assms(1)] by (simp add: is_file_def)
  with g show "read_envelope G p = Inr env"
    using json_line.decode_encode [OF assms(3)] by (simp add: read_envelope_def read_text_def del: dumps.simps)
  show "path_exists G p" using g by (simp add: path_exists_def is_file_def)
qed

text \<open>The part a load gives for a part that holds its own content.\<close>

definition self_contained :: "part \<Rightarrow> bool" where
  "self_contained p \<longleftrightarrow>
     pt_inline p \<noteq> None \<or> pt_text p \<noteq> None \<or>
     (\<exists>f uri. pt_file p = Some f \<and> fd_uri f = Some uri \<and> \<not> startswith uri ''artifact://'')"

definition or_default :: "string option \<Rightarrow> string option" where
  "or_default m = (if m = None \<or> m = Some [] then Some DEFAULT_MIME_TYPE else m)"

definition stored_part :: "part \<Rightarrow> part" where
  "stored_part p =
     (case pt_inline p of
        Some b \<Rightarrow>
          \<lparr>pt_text = None,
           pt_inline = Some \<lparr>bl_mime = or_default (bl_mime b),
             bl_data = Some (case bl_data b of None \<Rightarrow> [] | Some bytes \<Rightarrow> bytes),
             bl_display = (if bl_display b = Some [] then None else bl_display b)\<rparr>,
           pt_file = None\<rparr>
      | None \<Rightarrow>
          (case pt_text p of
             Some txt \<Rightarrow> \<lparr>pt_text = Some txt, pt_inline = None, pt_file = None\<rparr>
           | None \<Rightarrow> \<lparr>pt_text = None, pt_inline = None, pt_file = pt_file p\<rparr>))"

lemma envelope_read_back:
  assumes "self_contained p" "build_envelope U now v p md a u s = Inr env"
  shows "part_from_envelope U env a' u' s' load = Inr (Some (stored_part p))"
proof (cases "pt_inline p")
  case (Some b)
  then show ?thesis
    using assms(2)
    by (cases "bl_mime b"; cases "bl_display b")
      (auto simp: build_envelope_def part_from_envelope_def inline_part_def env_field_def b64_field_def
        b64.decode_encode stored_part_def or_default_def opt_str_def str_or_none_def)
next
  case None
  show ?thesis
  proof (cases "pt_text p")
    case None
    with \<open>pt_inline p = None\<close> assms(1) obtain f uri where f: "pt_file p = Some f" "fd_uri f = Some uri"
      "\<not> startswith uri ''artifact://''" by (auto simp: self_contained_def)
    then have "uri \<noteq> []" using assms(2) None \<open>pt_inline p = None\<close> by (auto simp: build_envelope_def)
    with f None \<open>pt_inline p = None\<close> assms(2) show ?thesis
      by (cases f; cases "fd_mime f")
        (auto simp: build_envelope_def part_from_envelope_def file_part_def env_field_def stored_part_def
          opt_str_def str_or_none_def result_simps)
  qed (use \<open>pt_inline p = None\<close> assms(2) in \<open>auto simp: build_envelope_def part_from_envelope_def text_part_def
      env_field_def str_or_none_def stored_part_def\<close>)
qed

text \<open>C22. Round trip: a saved part that holds its own content (bytes, text, or a URI outside the store) is what loading that version, or the latest one, gives back, with the defaults of the store filled in.\<close>

theorem artifact_is_read_back:
  assumes "\<not> svc_is_cloud S" "fs_ok F" "ensure_part U x = Inr pt" "self_contained pt"
    and "save_artifact_core U S F now a u s f x md = (Inr v, G)"
    and "\<forall>env. build_envelope U now v pt md a u s = Inr env \<longrightarrow> json_ok (JObj env)"
  shows "load_artifact_core (Suc depth) U S G a u s f (Some v) = Inr (Some (stored_part pt)) \<and>
    load_artifact_core (Suc depth) U S G a u s f None = Inr (Some (stored_part pt))"
proof -
  obtain d vs env where e: "artifact_dir U S a u f s = Inr d" "v = next_version vs" "0 \<le> v"
    "build_envelope U now v pt md a u s = Inr env" "fs_ok G"
    "fs_files G = dict_set (fs_files F) (d @ [nat_str (nat v)]) (dumps (JObj env))"
    "\<forall>w. list_versions_core U S G a u s f = Inr w \<longrightarrow> set w = insert v (set vs)"
    "\<exists>w. list_versions_core U S G a u s f = Inr w"
    using save_effect [OF assms(1,2,5)] assms(3) by (metis Inr_inject)
  note r = read_envelope_written [OF e(5,6)] 
  have "json_ok (JObj env)" using assms(6) e(4) by blast
  note r = r [OF this]
  have some: "stored_envelope U S G a u s f (Some v) = Inr (Some env)"
    using r version_path_at [OF e(1,3)] by (simp add: stored_envelope_def version_or_latest_def)
  obtain w where w: "list_versions_core U S G a u s f = Inr w" "set w = insert v (set vs)" using e(7,8) by blast
  have "Max (insert v (set vs)) = v"
    using next_version_above [of _ vs] e(2) by (intro Max_eqI) (auto intro: less_imp_le)
  then have "version_or_latest U S G a u s f None = Inr (Some v)"
    using w by (auto simp: version_or_latest_def)
  then have none: "stored_envelope U S G a u s f None = Inr (Some env)"
    using some by (simp add: stored_envelope_def version_or_latest_def)
  show ?thesis using some none envelope_read_back [OF assms(4) e(4)] by simp
qed

section \<open>A sample store\<close>

definition demo_ref :: artifact_ref where
  "demo_ref = \<lparr>ref_app = ''app'', ref_user = ''ann'', ref_session = Some ''s1'', ref_filename = ''loop'',
     ref_version = Some 0\<rparr>"

definition report_ref :: artifact_ref where
  "report_ref = \<lparr>ref_app = ''app'', ref_user = ''ann'', ref_session = Some ''s1'', ref_filename = ''report'',
     ref_version = None\<rparr>"

definition demo_adk :: "part adk" where
  "demo_adk = \<lparr>ensure_part = Inr,
     validate_path_segment = (\<lambda>s n. if s = [] \<or> CHR ''/'' \<in> set s \<or> s = ''.'' \<or> s = ''..''
        then Inl (InputValidationError n) else Inr ()),
     is_artifact_ref = (\<lambda>p. case pt_file p of None \<Rightarrow> False
        | Some f \<Rightarrow> (case fd_uri f of None \<Rightarrow> False | Some uri \<Rightarrow> startswith uri ''artifact://'')),
     parse_artifact_uri = (\<lambda>uri. if uri = ''artifact://loop'' then Some demo_ref
        else if uri = ''artifact://report'' then Some report_ref else None),
     validate_reference_scope = (\<lambda>app user sid r. Inr ())\<rparr>"

definition demo_service :: service where
  "demo_service = \<lparr>svc_root = [''/'', ''data''], svc_is_cloud = False\<rparr>"

definition demo_fs :: fs where
  "demo_fs = \<lparr>fs_files = [], fs_dirs = [[''/''], [''/'', ''data'']]\<rparr>"

definition demo_text_part :: part where
  "demo_text_part = \<lparr>pt_text = Some ''hello'', pt_inline = None, pt_file = None\<rparr>"

definition demo_saved :: "int result \<times> fs" where
  "demo_saved = save_artifact_core demo_adk demo_service demo_fs (Fin False 0 0) ''app'' ''ann'' (Some ''s1'')
     ''report'' demo_text_part None"

lemma demo_fs_ok: "fs_ok demo_fs" "\<not> svc_is_cloud demo_service"
  by (auto simp: fs_ok_def demo_fs_def demo_service_def is_file_def is_dir_def)

text \<open>Evaluation of the store on concrete arguments; the JSON texts stay as they are.\<close>

lemmas store_eval = save_artifact_core_def save_plan_def list_versions_core_def artifact_dir_def
     version_path_def demo_adk_def demo_service_def demo_fs_def save_commit_def write_envelope_def ensure_parent_def
     mkdirs_def write_text_def is_dir_def is_file_def path_exists_def build_envelope_def demo_text_part_def next_version_def
     file_has_user_namespace_def USER_NAMESPACE_PREFIX_def startswith_def path_join_def path_root_def path_parts_def 
     int_str_def upt_rec nat_str_0 iterdir_def isdigit_def is_digit_def nat_of_digits_def digit_val_def

definition report_env :: json_dict where
  "report_env = [(''version'', JInt 0), (''create_time'', JFloat (Fin False 0 0)), (''custom_metadata'', JObj []),
     (''kind'', JStr ''text''), (''mime_type'', JStr ''text/plain''), (''text'', JStr ''hello'')]"

lemma demo_saved_is:
  "demo_saved = (Inr 0, \<lparr>fs_files = [([''/'', ''data'', ''app'', ''ann'', ''s1'', ''report'', ''0''], dumps (JObj report_env))],
     fs_dirs = [[''/''], [''/'', ''data''], [''/'', ''data'', ''app''], [''/'', ''data'', ''app'', ''ann''],
       [''/'', ''data'', ''app'', ''ann'', ''s1''], [''/'', ''data'', ''app'', ''ann'', ''s1'', ''report'']]\<rparr>)"
  by (simp add: demo_saved_def report_env_def store_eval del: dumps.simps)

lemma demo_saved_version: "fst demo_saved = Inr 0"
  by (simp add: demo_saved_is)

lemma demo_save: 
  "save_artifact_core demo_adk demo_service demo_fs (Fin False 0 0) ''app'' ''ann'' (Some ''s1'')
     ''report'' demo_text_part None = (Inr 0, snd demo_saved)"
  using demo_saved_version unfolding demo_saved_def [symmetric] by (metis prod.collapse)

lemma demo_time_ok: "float_ok (Fin False 0 0)"
  by code_simp

theorem saved_versions_are_fresh_witness:
  "\<exists>new. list_versions_core demo_adk demo_service (snd demo_saved) ''app'' ''ann'' (Some ''s1'') ''report'' = Inr new
     \<and> 0 \<in> set new"
  using saved_versions_are_fresh [OF demo_fs_ok(2,1) demo_save] by blast

theorem artifact_is_read_back_witness:
  "load_artifact_core 1 demo_adk demo_service (snd demo_saved) ''app'' ''ann'' (Some ''s1'') ''report'' None =
   Inr (Some demo_text_part)"
proof -
  have "ensure_part demo_adk demo_text_part = Inr demo_text_part" by (simp add: demo_adk_def)
  moreover have "self_contained demo_text_part" "stored_part demo_text_part = demo_text_part"
    by (simp_all add: self_contained_def demo_text_part_def stored_part_def)
  moreover have "\<forall>env. build_envelope demo_adk (Fin False 0 0) 0 demo_text_part None ''app'' ''ann'' (Some ''s1'') = Inr env \<longrightarrow>
      json_ok (JObj env)"
    using demo_time_ok
    by (simp add: build_envelope_def demo_text_part_def ascii_text_ok ascii_def nat_str_0 int_max_str_digits_def)
  ultimately show ?thesis
    using artifact_is_read_back [OF demo_fs_ok(2,1) _ _ demo_save, of demo_text_part 0] by simp
qed

section \<open>References\<close>

definition reference_of :: "'a adk \<Rightarrow> json_dict \<Rightarrow> string \<Rightarrow> string \<Rightarrow> string option \<Rightarrow> artifact_ref option" where
  "reference_of U env a u s =
     (if dict_get env ''kind'' = Some (JStr ''file'')
      then (case dict_get env ''file_uri'' of
              Some (JStr uri) \<Rightarrow>
                if startswith uri ''artifact://''
                then (case check_reference U a u s uri of Inl e \<Rightarrow> None | Inr r \<Rightarrow> Some r) else None
            | _ \<Rightarrow> None)
      else None)"

lemma part_from_reference:
  "reference_of U env a u s = Some r \<Longrightarrow> part_from_envelope U env a u s load = load r"
  by (auto simp: reference_of_def part_from_envelope_def file_part_def env_field_def
      split: if_splits option.splits json.splits sum.splits)

lemma part_from_content:
  "reference_of U env a u s = None \<Longrightarrow> part_from_envelope U env a u s load = part_from_envelope U env a u s load'"
  by (auto simp: reference_of_def part_from_envelope_def file_part_def env_field_def
      split: if_splits option.splits json.splits sum.splits)

text \<open>A request for an artifact, and the request its stored envelope leads to.\<close>

abbreviation load_ref :: "nat \<Rightarrow> 'a adk \<Rightarrow> service \<Rightarrow> fs \<Rightarrow> artifact_ref \<Rightarrow> part option result" where
  "load_ref n U S F r \<equiv> load_artifact_core n U S F (ref_app r) (ref_user r) (ref_session r) (ref_filename r) (ref_version r)"

definition leads_to :: "'a adk \<Rightarrow> service \<Rightarrow> fs \<Rightarrow> artifact_ref \<Rightarrow> artifact_ref \<Rightarrow> bool" where
  "leads_to U S F r r' \<longleftrightarrow>
     (\<exists>env. stored_envelope U S F (ref_app r) (ref_user r) (ref_session r) (ref_filename r) (ref_version r) = Inr (Some env) \<and>
        reference_of U env (ref_app r) (ref_user r) (ref_session r) = Some r')"

lemma load_ref_step:
  "leads_to U S F r r' \<Longrightarrow> load_ref (Suc n) U S F r = load_ref n U S F r'"
  by (auto simp: leads_to_def part_from_reference)

lemma load_ref_last:
  assumes "\<nexists>r'. leads_to U S F r r'"
  shows "load_ref (Suc n) U S F r = load_ref 1 U S F r"
proof (cases "stored_envelope U S F (ref_app r) (ref_user r) (ref_session r) (ref_filename r) (ref_version r)")
  case (Inr found)
  show ?thesis
  proof (cases found)
    case (Some env)
    then have "reference_of U env (ref_app r) (ref_user r) (ref_session r) = None"
      using assms Inr by (auto simp: leads_to_def)
    from part_from_content [OF this] show ?thesis using Inr Some by auto
  qed (use Inr in simp)
qed simp

text \<open>
  A chain of references that ends gives the part at its end, in as many frames as it is long; a
  chain that does not end exhausts the stack, however deep.
\<close>

inductive chain_ends :: "'a adk \<Rightarrow> service \<Rightarrow> fs \<Rightarrow> artifact_ref \<Rightarrow> nat \<Rightarrow> artifact_ref \<Rightarrow> bool" for U S F where
  chain_here: "chain_ends U S F r 0 r" if "\<nexists>r'. leads_to U S F r r'"
| chain_next: "chain_ends U S F r (Suc n) target" if "leads_to U S F r r'" "chain_ends U S F r' n target"


text \<open>An artifact that is a reference to itself, which the store accepts, makes every load of it exhaust the stack, however deep.\<close>

theorem self_reference_exhausts_the_stack:
  assumes "leads_to U S F r r"
  shows "load_ref depth U S F r = Inl (RecursionError ''maximum recursion depth exceeded'')"
proof (induction depth)
  case (Suc n)
  then show ?case using load_ref_step [OF assms] by simp
qed simp


definition link_part :: "string \<Rightarrow> part" where
  "link_part uri = \<lparr>pt_text = None, pt_inline = None, pt_file = Some \<lparr>fd_uri = Some uri, fd_mime = None\<rparr>\<rparr>"

definition linked_fs :: fs where
  "linked_fs = snd (save_artifact_core demo_adk demo_service (snd demo_saved) (Fin False 0 0) ''app'' ''ann'' (Some ''s1'')
     ''loop'' (link_part ''artifact://report'') None)"

definition looped_fs :: fs where
  "looped_fs = snd (save_artifact_core demo_adk demo_service (snd demo_saved) (Fin False 0 0) ''app'' ''ann'' (Some ''s1'')
     ''loop'' (link_part ''artifact://loop'') None)"

definition link_envelope :: "string \<Rightarrow> json_dict" where
  "link_envelope uri = [(''version'', JInt 0), (''create_time'', JFloat (Fin False 0 0)), (''custom_metadata'', JObj []),
     (''kind'', JStr ''file''), (''file_uri'', JStr uri), (''mime_type'', JNull)]"

lemma linked_is:
  assumes "uri \<in> {''artifact://loop'', ''artifact://report''}"
  shows "save_artifact_core demo_adk demo_service (snd demo_saved) (Fin False 0 0) ''app'' ''ann'' (Some ''s1'')
     ''loop'' (link_part uri) None =
   (Inr 0, \<lparr>fs_files = fs_files (snd demo_saved) @ [([''/'', ''data'', ''app'', ''ann'', ''s1'', ''loop'', ''0''],
      dumps (JObj (link_envelope uri)))],
     fs_dirs = fs_dirs (snd demo_saved) @ [[''/'', ''data'', ''app'', ''ann'', ''s1'', ''loop'']]\<rparr>)"
  using assms
  by (auto simp: demo_saved_is store_eval link_part_def link_envelope_def check_reference_def opt_str_def
     simp del: dumps.simps)

lemma demo_json_ok: "json_ok (JObj report_env)"
   "uri \<in> {''artifact://loop'', ''artifact://report''} \<Longrightarrow> json_ok (JObj (link_envelope uri))"
  using demo_time_ok
  by (auto simp: report_env_def link_envelope_def ascii_text_ok ascii_def nat_str_0 int_max_str_digits_def)

lemma loop_read:
  assumes "uri \<in> {''artifact://loop'', ''artifact://report''}"
  shows "stored_envelope demo_adk demo_service (snd (save_artifact_core demo_adk demo_service (snd demo_saved) (Fin False 0 0) ''app'' ''ann'' (Some ''s1'')
     ''loop'' (link_part uri) None)) ''app'' ''ann'' (Some ''s1'') ''loop'' (Some 0) =
   Inr (Some (link_envelope uri))"
  using json_line.decode_encode [OF demo_json_ok(2) [OF assms]]
  unfolding linked_is [OF assms] snd_conv
  by (simp add: demo_saved_is stored_envelope_def version_or_latest_def read_envelope_def read_text_def store_eval
    del: dumps.simps json_ok.simps)

lemma linked_envelope:
  "stored_envelope demo_adk demo_service linked_fs ''app'' ''ann'' (Some ''s1'') ''loop'' (Some 0) =
   Inr (Some (link_envelope ''artifact://report''))"
  unfolding linked_fs_def by (rule loop_read) simp

lemma linked_fs_is:
  "linked_fs = \<lparr>fs_files = fs_files (snd demo_saved) @ [([''/'', ''data'', ''app'', ''ann'', ''s1'', ''loop'', ''0''],
      dumps (JObj (link_envelope ''artifact://report'')))],
     fs_dirs = fs_dirs (snd demo_saved) @ [[''/'', ''data'', ''app'', ''ann'', ''s1'', ''loop'']]\<rparr>"
  unfolding linked_fs_def by (subst linked_is) simp_all

lemma report_envelope:
  "stored_envelope demo_adk demo_service linked_fs ''app'' ''ann'' (Some ''s1'') ''report'' None = Inr (Some report_env)"
  using json_line.decode_encode [OF demo_json_ok(1)]
  by (simp add: linked_fs_is demo_saved_is stored_envelope_def version_or_latest_def read_envelope_def
    read_text_def store_eval
    del: dumps.simps json_ok.simps)

lemma looped_envelope:
  "stored_envelope demo_adk demo_service looped_fs ''app'' ''ann'' (Some ''s1'') ''loop'' (Some 0) =
   Inr (Some (link_envelope ''artifact://loop''))"
  unfolding looped_fs_def by (rule loop_read) simp


theorem self_reference_exhausts_the_stack_witness:
  "load_ref 1000 demo_adk demo_service looped_fs demo_ref = Inl (RecursionError ''maximum recursion depth exceeded'')"
proof -
  have "leads_to demo_adk demo_service looped_fs demo_ref demo_ref"
    using looped_envelope
    by (simp add: leads_to_def demo_ref_def reference_of_def link_envelope_def check_reference_def demo_adk_def startswith_def)
  then show ?thesis by (rule self_reference_exhausts_the_stack)
qed

section \<open>Deleting and listing\<close>

lemma unlink_Inr:
  assumes "unlink F p = Inr G"
  shows "dict_get (fs_files G) q = (if q = p then None else dict_get (fs_files F) q)" "is_dir G q = is_dir F q"
  using assms by (auto simp: unlink_def is_dir_def delete_conv' split: if_splits)

lemma delete_versions_effect:
  assumes "artifact_dir U S a u f s = Inr d" "\<forall>v \<in> set vs. 0 \<le> v"
    and "delete_versions U S F a u s f vs = (Inr (), G)"
  shows "\<forall>q. dict_get (fs_files G) q = (if q \<in> (\<lambda>v. d @ [nat_str (nat v)]) ` set vs then None else dict_get (fs_files F) q)"
    and "\<forall>q. is_dir G q = is_dir F q"
    and "\<forall>v \<in> set vs. \<not> is_dir F (d @ [nat_str (nat v)])"
proof -
  have "(\<forall>q. dict_get (fs_files G) q = (if q \<in> (\<lambda>v. d @ [nat_str (nat v)]) ` set vs then None else dict_get (fs_files F) q)) \<and>
    (\<forall>q. is_dir G q = is_dir F q) \<and> (\<forall>v \<in> set vs. \<not> is_dir F (d @ [nat_str (nat v)]))"
    using assms(2,3)
  proof (induction vs arbitrary: F)
    case (Cons v vs)
    let ?p = "d @ [nat_str (nat v)]"
    have p: "version_path U S a u f v s = Inr ?p" using version_path_at [OF assms(1)] Cons.prems(1) by simp
    show ?case
    proof (cases "path_exists F ?p")
      case False
      then have "dict_get (fs_files F) ?p = None" "\<not> is_dir F ?p" by (simp_all add: path_exists_def is_file_def)
      with Cons.IH [of F] Cons.prems p False show ?thesis by auto
    next
      case True
      then obtain F' where u: "unlink F ?p = Inr F'" "delete_versions U S F' a u s f vs = (Inr (), G)"
        using Cons.prems(2) p by (auto split: sum.splits)
      then have "\<not> is_dir F ?p" by (auto simp: unlink_def)
      with Cons.IH [of F'] Cons.prems(1) u(2) unlink_Inr [OF u(1)] show ?thesis by auto
    qed
  qed simp
  then show "\<forall>q. dict_get (fs_files G) q = (if q \<in> (\<lambda>v. d @ [nat_str (nat v)]) ` set vs then None else dict_get (fs_files F) q)"
    "\<forall>q. is_dir G q = is_dir F q" "\<forall>v \<in> set vs. \<not> is_dir F (d @ [nat_str (nat v)])" by auto
qed

text \<open>After an artifact is deleted no version of it can be loaded, and no file outside its directory has changed.\<close>

theorem deleted_artifact_is_gone:
  assumes "fs_ok F" "delete_artifact_core U S F a u s f = (Inr (), G)" "0 \<le> v"
  shows "load_artifact_core (Suc depth) U S G a u s f (Some v) = Inr None \<and>
    (\<exists>d. artifact_dir U S a u f s = Inr d \<and>
       (\<forall>q. butlast q \<noteq> d \<longrightarrow> dict_get (fs_files G) q = dict_get (fs_files F) q))"
proof -
  obtain vs where vs: "list_versions_core U S F a u s f = Inr vs" "delete_versions U S F a u s f vs = (Inr (), G)"
    using assms(2) by (auto simp: delete_artifact_core_def split: sum.splits)
  then obtain d where d: "artifact_dir U S a u f s = Inr d" by (auto simp: list_versions_core_def result_simps)
  have pos: "\<forall>v \<in> set vs. 0 \<le> v" using list_versions_set(2) [OF assms(1) d vs(1)] by auto
  note e = delete_versions_effect [OF d pos vs(2)]
  let ?p = "d @ [nat_str (nat v)]"
  have "\<not> path_exists G ?p"
  proof (cases "v \<in> set vs")
    case True
    then have "dict_get (fs_files G) ?p = None" using e(1) by auto
    moreover have "\<not> is_dir G ?p" using e(2,3) True by simp
    ultimately show ?thesis by (simp add: path_exists_def is_file_def)
  next
    case False
    with new_version_path [OF assms(1) d vs(1) assms(3)] have n: "\<not> path_exists F ?p" .
    then have "dict_get (fs_files F) ?p = None" by (simp add: path_exists_def is_file_def)
    then have "dict_get (fs_files G) ?p = None" using e(1) by auto
    with n e(2) show ?thesis by (simp add: path_exists_def is_file_def)
  qed
  then have "load_artifact_core (Suc depth) U S G a u s f (Some v) = Inr None"
    using version_path_at [OF d assms(3)] by (simp add: stored_envelope_def version_or_latest_def)
  moreover have "\<forall>q. butlast q \<noteq> d \<longrightarrow> dict_get (fs_files G) q = dict_get (fs_files F) q" using e(1) by auto
  ultimately show ?thesis using d by blast
qed

lemma demo_delete:
  "fst (delete_artifact_core demo_adk demo_service (snd demo_saved) ''app'' ''ann'' (Some ''s1'') ''report'') = Inr ()"
  by (simp add: demo_saved_is delete_artifact_core_def unlink_def store_eval del: dumps.simps)

theorem deleted_artifact_is_gone_witness:
  "load_artifact_core 1 demo_adk demo_service
     (snd (delete_artifact_core demo_adk demo_service (snd demo_saved) ''app'' ''ann'' (Some ''s1'') ''report''))
     ''app'' ''ann'' (Some ''s1'') ''report'' (Some 0) = Inr None"
proof -
  have ok: "fs_ok (snd demo_saved)"
    using save_effect [OF demo_fs_ok(2,1) demo_save] by metis
  have "delete_artifact_core demo_adk demo_service (snd demo_saved) ''app'' ''ann'' (Some ''s1'') ''report'' =
      (Inr (), snd (delete_artifact_core demo_adk demo_service (snd demo_saved) ''app'' ''ann'' (Some ''s1'') ''report''))"
    using demo_delete by (metis prod.collapse)
  from deleted_artifact_is_gone [OF ok this, of 0 0] show ?thesis by simp
qed

text \<open>File names whose parts are the segments between their slashes.\<close>

definition plain_segment :: "string \<Rightarrow> bool" where
  "plain_segment x \<longleftrightarrow> x \<noteq> [] \<and> x \<noteq> ''.'' \<and> CHR ''/'' \<notin> set x"

definition plain_filename :: "string \<Rightarrow> bool" where
  "plain_filename f \<longleftrightarrow> list_all (\<lambda>x. x \<noteq> [] \<and> x \<noteq> ''.'') (split_on CHR ''/'' f)"

lemma plain_filename_parts:
  assumes "plain_filename f"
  shows "path_root f = []" "path_parts f = split_on CHR ''/'' f" "join ''/'' (path_parts f) = f"
proof -
  show r: "path_root f = []"
    using assms by (cases f) (auto simp: plain_filename_def path_root_def startswith_def)
  show p: "path_parts f = split_on CHR ''/'' f"
    using assms r by (auto simp: plain_filename_def path_parts_def list_all_iff filter_id_conv)
  show "join ''/'' (path_parts f) = f" unfolding p by (rule join_split_on)
qed

lemma plain_segment_join: "plain_segment x \<Longrightarrow> path_join p x = p @ [x]"
  using path_parts_plain [of x] by (simp add: plain_segment_def path_join_def)

text \<open>What ADK documents of its check: what it lets through is one part of a path.\<close>

definition checks_segments :: "'a adk \<Rightarrow> bool" where
  "checks_segments U \<longleftrightarrow> (\<forall>s n. validate_path_segment U s n = Inr () \<longrightarrow> plain_segment s)"

lemma artifact_dir_plain:
  assumes "checks_segments U" "plain_filename f" "artifact_dir U S a u f s = Inr d"
  shows "d = svc_root S @ [a, u, if file_has_user_namespace f then ''user'' else the s] @ split_on CHR ''/'' f"
    and "\<not> file_has_user_namespace f \<Longrightarrow> s \<noteq> None"
    and "validate_path_segment U a ''app_name'' = Inr ()" "validate_path_segment U u ''user_id'' = Inr ()"
    and "\<not> file_has_user_namespace f \<Longrightarrow> validate_path_segment U (the s) ''session_id'' = Inr ()"
proof -
  have user: "plain_segment ''user''" by (simp add: plain_segment_def)
  show "validate_path_segment U a ''app_name'' = Inr ()" "validate_path_segment U u ''user_id'' = Inr ()"
    "\<not> file_has_user_namespace f \<Longrightarrow> validate_path_segment U (the s) ''session_id'' = Inr ()"
    "\<not> file_has_user_namespace f \<Longrightarrow> s \<noteq> None"
    using assms(3) by (auto simp: artifact_dir_def result_simps split: if_splits option.splits)
  then have "plain_segment a" "plain_segment u" "\<not> file_has_user_namespace f \<Longrightarrow> plain_segment (the s)"
    using assms(1) by (auto simp: checks_segments_def)
  then show "d = svc_root S @ [a, u, if file_has_user_namespace f then ''user'' else the s] @ split_on CHR ''/'' f"
    using assms(3) plain_filename_parts [OF assms(2)] user
    by (auto simp: artifact_dir_def plain_segment_join path_join_def [of _ f] result_simps split: if_splits option.splits)
qed

text \<open>A saved artifact is among the keys of its session (of its user, for a user-scoped name), which are sorted and without duplicates.\<close>

theorem saved_artifact_is_listed:
  assumes "\<not> svc_is_cloud S" "fs_ok F" "checks_segments U" "plain_filename f"
    and "save_artifact_core U S F now a u s f x md = (Inr v, G)"
  shows "\<exists>keys. list_artifact_keys_core U S G a u (if file_has_user_namespace f then None else s) = Inr keys \<and>
    f \<in> set keys \<and> sorted keys \<and> distinct keys"
proof -
  obtain d env where e: "artifact_dir U S a u f s = Inr d" "fs_ok G"
    "fs_files G = dict_set (fs_files F) (d @ [nat_str (nat v)]) (dumps (JObj env))"
    using save_effect [OF assms(1,2,5)] by metis
  note p = artifact_dir_plain [OF assms(3,4) e(1)]
  define scope where "scope = svc_root S @ [a, u, if file_has_user_namespace f then ''user'' else the s]"
  let ?q = "d @ [nat_str (nat v)]"
  have q: "?q = scope @ split_on CHR ''/'' f @ [nat_str (nat v)]" using p(1) by (simp add: scope_def)
  have "is_file G ?q" using e(3) by (simp add: is_file_def)
  then have in_files: "?q \<in> fst ` set (fs_files G)" by (simp add: is_file_keys)
  have "is_dir G (take (length scope) ?q)" by (rule ancestor_dir [OF e(2) \<open>is_file G ?q\<close>]) (simp add: q)
  then have "path_exists G scope" unfolding q by (simp add: path_exists_def)
  moreover have "?q \<in> set (files_below G scope)"
    using in_files unfolding q files_below_def by simp
  ultimately have "join ''/'' (split_on CHR ''/'' f) \<in> set (filenames_under G scope)"
    unfolding filenames_under_def q
    by (auto simp: Suc_le_eq intro!: image_eqI [of _ _ "scope @ split_on CHR ''/'' f @ [nat_str (nat v)]"])
  then have f: "f \<in> set (filenames_under G scope)" by (simp add: join_split_on)
  have seg: "plain_segment a" "plain_segment u" "plain_segment ''user''"
    using p(3,4) assms(3) by (auto simp: checks_segments_def plain_segment_def)
  have sid: "plain_segment (the s)" if "\<not> file_has_user_namespace f"
    using p(5) [OF that] assms(3) by (auto simp: checks_segments_def)
  show ?thesis
    using f p(2-5) seg sid
    by (auto simp: list_artifact_keys_core_def scope_def plain_segment_join)
qed

theorem saved_artifact_is_listed_witness:
  "\<exists>keys. list_artifact_keys_core demo_adk demo_service (snd demo_saved) ''app'' ''ann'' (Some ''s1'') = Inr keys \<and>
     ''report'' \<in> set keys"
proof -
  have c: "checks_segments demo_adk" by (auto simp: checks_segments_def demo_adk_def plain_segment_def split: if_splits)
  have p: "plain_filename ''report''" by code_simp
  have n: "\<not> file_has_user_namespace ''report''" by code_simp
  from saved_artifact_is_listed [OF demo_fs_ok(2,1) c p demo_save, unfolded if_not_P [OF n]]
  show ?thesis by blast
qed

section \<open>What goes wrong\<close>

lemma save_commit_Inr:
  assumes "save_commit S F (v, env, p) = (Inr r, G)"
  shows "r = v \<and> fs_files G = dict_set (fs_files F) p (dumps (JObj env))"
proof -
  have "fs_files F1 = fs_files F" if "ensure_parent S F p = Inr F1" for F1
    using that by (auto simp: ensure_parent_def mkdirs_def split: if_splits)
  with assms show ?thesis
    by (auto simp: save_commit_def write_envelope_def write_text_def split: sum.splits if_splits)
qed

lemma save_plan_place:
  assumes "save_plan U S F now a u s f x md = Inr (v, env, p)" "save_plan U S F now' a u s f x' md' = Inr (v', env', p')"
  shows "v' = v \<and> p' = p"
  using assms by (auto simp: save_plan_def bind_result_Inr_iff Let_def)

text \<open>Two saves that both list the versions before either writes are given the same version number, and the first content is lost.\<close>

theorem concurrent_saves_collide:
  assumes "save_plan U S F now a u s f x md = Inr (v, env, p)"
    and "save_plan U S F now' a u s f x' md' = Inr (v', env', p')"
    and "save_commit S F (v, env, p) = (Inr r, F1)" "save_commit S F1 (v', env', p') = (Inr r', F2)"
  shows "r' = r \<and> dict_get (fs_files F2) p = Some (dumps (JObj env')) \<and>
    (\<forall>q. q \<noteq> p \<longrightarrow> dict_get (fs_files F2) q = dict_get (fs_files F) q)"
  using save_plan_place [OF assms(1,2)] save_commit_Inr [OF assms(3)] save_commit_Inr [OF assms(4)]
  by (simp del: dumps.simps)

definition demo_plan :: "string \<Rightarrow> (int \<times> json_dict \<times> path) result" where
  "demo_plan content = save_plan demo_adk demo_service demo_fs (Fin False 0 0) ''app'' ''ann'' (Some ''s1'') ''report''
     (demo_text_part\<lparr>pt_text := Some content\<rparr>) None"

definition first_commit :: "int result \<times> fs" where
  "first_commit = save_commit demo_service demo_fs (projr (demo_plan ''first''))"

definition second_commit :: "int result \<times> fs" where
  "second_commit = save_commit demo_service (snd first_commit) (projr (demo_plan ''second''))"

theorem concurrent_saves_collide_witness:
  "fst second_commit = fst first_commit \<and> fst first_commit = Inr 0"
proof -
  have c: "fst first_commit = Inr 0" "\<not> isl (fst second_commit)"
    by (simp_all add: second_commit_def first_commit_def demo_plan_def store_eval del: dumps.simps)
  have e: "\<not> isl (demo_plan ''first'')" "\<not> isl (demo_plan ''second'')"
    by (simp_all add: demo_plan_def store_eval del: dumps.simps)
  obtain v env p v' env' p' where plans: "demo_plan ''first'' = Inr (v, env, p)" "demo_plan ''second'' = Inr (v', env', p')"
    using e by (metis isl_def prod_cases3 sum.exhaust_sel)
  obtain r' where r': "fst second_commit = Inr r'" using c(2) by (cases "fst second_commit") simp_all
  have "save_commit demo_service demo_fs (v, env, p) = (Inr 0, snd first_commit)"
    using c(1) plans(1) by (simp add: first_commit_def prod_eq_iff)
  moreover have "save_commit demo_service (snd first_commit) (v', env', p') = (Inr r', snd second_commit)"
    using r' plans(2) by (simp add: second_commit_def prod_eq_iff)
  ultimately have "r' = 0"
    using concurrent_saves_collide [OF plans [unfolded demo_plan_def]] by blast
  with c(1) r' show ?thesis by simp
qed

text \<open>The file name is not checked: an absolute one leaves the store.\<close>

lemma absolute_filename_escapes:
  "artifact_dir demo_adk demo_service ''app'' ''ann'' ''/etc/motd'' (Some ''s1'') = Inr [''/'', ''etc'', ''motd'']"
  by code_simp

text \<open>An artifact named below another by a number is counted among its versions.\<close>

lemma nested_name_is_a_version:
  "list_versions_core demo_adk demo_service
     (snd (save_artifact_core demo_adk demo_service demo_fs (Fin False 0 0) ''app'' ''ann'' (Some ''s1'') ''report/2024''
        demo_text_part None)) ''app'' ''ann'' (Some ''s1'') ''report'' = Inr [2024]"
  by (simp add: store_eval del: dumps.simps)

end
