(* ===== verification/Artifact_Shelf.thy ===== *)
theory Artifact_Shelf
  imports Artifact_Facts Interfaces
begin

text \<open>
  What an artifact store promises, and that \<^verbatim>\<open>src/app/shared/artifacts.py\<close> keeps it. The
  specification is a shelf: the artifact of an application, a user, a scope (a session, or the
  user's own) and a name is the list of what was saved, the version number of an entry is its place in
  the list, saving appends to it and deleting empties it. \<open>shelved\<close> relates a tree of files to a shelf, and
  the store on the tree answers as the shelf does: the locale \<open>simulation\<close>, interpreted here, gives
  it for every sequence of requests.

  The names are those the store is made for: parts of a path that are no numerals (a name below another
  that ends in a number is taken for a version, \<open>nested_name_is_a_version\<close>), and contents of their own, not
  \<^verbatim>\<open>artifact://\<close> references (their chains are in \<^verbatim>\<open>Artifact_Facts\<close>).
\<close>

section \<open>The shelf\<close>

record entry =
  en_part :: part
  en_time :: pyfloat
  en_mime :: "string option"
  en_metadata :: json_dict

type_synonym artifact_key = "string \<times> string \<times> string \<times> string"

type_synonym shelf = "(artifact_key, entry list) dict"

definition history :: "shelf \<Rightarrow> artifact_key \<Rightarrow> entry list" where
  "history T k = (case dict_get T k of None \<Rightarrow> [] | Some es \<Rightarrow> es)"

text \<open>The scope a name belongs to: the user's for a \<^verbatim>\<open>user:\<close> name, else the session.\<close>

definition key_of :: "string \<Rightarrow> string \<Rightarrow> string \<Rightarrow> string option \<Rightarrow> artifact_key" where
  "key_of app_name user_id filename session_id =
     (app_name, user_id, if file_has_user_namespace filename then ''user'' else the session_id, filename)"

definition entry_of :: "pyfloat \<Rightarrow> part \<Rightarrow> json_dict option \<Rightarrow> entry" where
  "entry_of now pt md =
     \<lparr>en_part = stored_part pt, en_time = now,
      en_mime = (case pt_inline pt of
          Some b \<Rightarrow> bl_mime b
        | None \<Rightarrow> if pt_text pt = None then (case pt_file pt of None \<Rightarrow> None | Some f \<Rightarrow> fd_mime f) else Some ''text/plain''),
      en_metadata = (case md of None \<Rightarrow> [] | Some d \<Rightarrow> d)\<rparr>"

definition keys_in_scope :: "shelf \<Rightarrow> string \<Rightarrow> string \<Rightarrow> string set \<Rightarrow> string list" where
  "keys_in_scope T app_name user_id scopes =
     sort (remdups (map (\<lambda>((a, u, sc, f), es). f)
       (filter (\<lambda>((a, u, sc, f), es). es \<noteq> [] \<and> a = app_name \<and> u = user_id \<and> sc \<in> scopes) T)))"

definition chosen :: "entry list \<Rightarrow> int option \<Rightarrow> nat option" where
  "chosen es version =
     (case version of
        None \<Rightarrow> if es = [] then None else Some (length es - 1)
      | Some v \<Rightarrow> if 0 \<le> v \<and> nat v < length es then Some (nat v) else None)"

section \<open>Requests\<close>

datatype 'a artifact_request =
    SaveArtifact string string string 'a "string option" "json_dict option" pyfloat
  | LoadArtifact string string string "string option" "int option"
  | ListArtifactKeys string string "string option"
  | DeleteArtifact string string string "string option"
  | ListVersions string string string "string option"
  | ListArtifactVersions string string string "string option" pyfloat
  | GetArtifactVersion string string string "string option" "int option" pyfloat

datatype artifact_reply =
    Saved int
  | Loaded "part option"
  | Keys "string list"
  | Deleted
  | Versions "int list"
  | Described "artifact_version list"
  | Described_one "artifact_version option"

fun reply_with :: "('a \<Rightarrow> artifact_reply) \<Rightarrow> 'a result \<Rightarrow> artifact_reply result" where
  "reply_with f (Inl e) = Inl e"
| "reply_with f (Inr x) = Inr (f x)"

text \<open>
  The service, one request at a time. Its list of versions has no promised order, so it is taken in
  order here.
\<close>

fun artifact_service ::
  "nat \<Rightarrow> 'a adk \<Rightarrow> service \<Rightarrow> 'a artifact_request \<Rightarrow> fs \<Rightarrow> artifact_reply result \<times> fs" where
  "artifact_service depth U S (SaveArtifact a u f x s md now) F =
     (case save_artifact U S F now a u f x s md of (r, F') \<Rightarrow> (reply_with Saved r, F'))"
| "artifact_service depth U S (LoadArtifact a u f s v) F =
     (reply_with Loaded (load_artifact depth U S F a u f s v), F)"
| "artifact_service depth U S (ListArtifactKeys a u s) F =
     (reply_with Keys (list_artifact_keys U S F a u s), F)"
| "artifact_service depth U S (DeleteArtifact a u f s) F =
     (case delete_artifact U S F a u f s of (r, F') \<Rightarrow> (reply_with (\<lambda>_. Deleted) r, F'))"
| "artifact_service depth U S (ListVersions a u f s) F =
     (reply_with (\<lambda>vs. Versions (sort vs)) (list_versions U S F a u f s), F)"
| "artifact_service depth U S (ListArtifactVersions a u f s now) F =
     (reply_with Described (list_artifact_versions U S F now a u f s), F)"
| "artifact_service depth U S (GetArtifactVersion a u f s v now) F =
     (reply_with Described_one (get_artifact_version U S F now a u f s v), F)"

text \<open>Where the entry of a version is kept, and how the shelf describes it.\<close>

fun entry_path :: "service \<Rightarrow> artifact_key \<Rightarrow> nat \<Rightarrow> path" where
  "entry_path S (a, u, sc, f) n = svc_root S @ [a, u, sc] @ split_on CHR ''/'' f @ [nat_str n]"

definition described :: "service \<Rightarrow> artifact_key \<Rightarrow> entry list \<Rightarrow> nat \<Rightarrow> artifact_version" where
  "described S k es n =
     \<lparr>av_version = int n, av_canonical_uri = path_str (entry_path S k n), av_create_time = JFloat (en_time (es ! n)),
      av_mime_type = opt_str (en_mime (es ! n)), av_custom_metadata = JObj (en_metadata (es ! n))\<rparr>"

fun shelf_service ::
  "'a adk \<Rightarrow> service \<Rightarrow> 'a artifact_request \<Rightarrow> shelf \<Rightarrow> artifact_reply result \<times> shelf" where
  "shelf_service U S (SaveArtifact a u f x s md now) T =
     (let k = key_of a u f s
      in case ensure_part U x of
           Inl e \<Rightarrow> (Inl e, T)
         | Inr pt \<Rightarrow>
             (Inr (Saved (int (length (history T k)))), dict_set T k (history T k @ [entry_of now pt md])))"
| "shelf_service U S (LoadArtifact a u f s v) T =
     (let es = history T (key_of a u f s)
      in (Inr (Loaded (map_option (\<lambda>n. en_part (es ! n)) (chosen es v))), T))"
| "shelf_service U S (ListArtifactKeys a u s) T =
     (Inr (Keys (keys_in_scope T a u (insert ''user'' (set_option s)))), T)"
| "shelf_service U S (DeleteArtifact a u f s) T = (Inr Deleted, AList.delete (key_of a u f s) T)"
| "shelf_service U S (ListVersions a u f s) T =
     (Inr (Versions (map int [0..<length (history T (key_of a u f s))])), T)"
| "shelf_service U S (ListArtifactVersions a u f s now) T =
     (let k = key_of a u f s; es = history T k in (Inr (Described (map (described S k es) [0..<length es])), T))"
| "shelf_service U S (GetArtifactVersion a u f s v now) T =
     (let k = key_of a u f s; es = history T k
      in (Inr (Described_one (map_option (described S k es) (chosen es v))), T))"

section \<open>A tree of files that holds a shelf\<close>

text \<open>Names the store keeps apart: their segments are no numerals.\<close>

definition store_name :: "string \<Rightarrow> bool" where
  "store_name f \<longleftrightarrow> list_all (\<lambda>x. x \<noteq> [] \<and> x \<noteq> ''.'' \<and> \<not> isdigit x) (split_on CHR ''/'' f)"

fun key_ok :: "artifact_key \<Rightarrow> bool" where
  "key_ok (a, u, sc, f) \<longleftrightarrow> plain_segment a \<and> plain_segment u \<and> plain_segment sc \<and> store_name f"

text \<open>An envelope that holds an entry.\<close>

definition holds :: "'a adk \<Rightarrow> json_dict \<Rightarrow> entry \<Rightarrow> bool" where
  "holds U env e \<longleftrightarrow>
     (\<forall>a u s load. part_from_envelope U env a u s load = Inr (Some (en_part e))) \<and>
     dict_get env ''create_time'' = Some (JFloat (en_time e)) \<and>
     dict_get env ''mime_type'' = Some (opt_str (en_mime e)) \<and>
     dict_get env ''custom_metadata'' = Some (JObj (en_metadata e))"

definition below :: "service \<Rightarrow> path \<Rightarrow> bool" where
  "below S p \<longleftrightarrow> take (length (svc_root S)) p = svc_root S \<and> length (svc_root S) < length p"

definition shelved :: "'a adk \<Rightarrow> service \<Rightarrow> fs \<Rightarrow> shelf \<Rightarrow> bool" where
  "shelved U S F T \<longleftrightarrow>
     fs_ok F \<and> is_dir F (svc_root S) \<and> dict_ok T \<and>
     (\<forall>k es. dict_get T k = Some es \<longrightarrow> es \<noteq> [] \<and> key_ok k) \<and>
     (\<forall>k n. n < length (history T k) \<longrightarrow>
        (\<exists>env. dict_get (fs_files F) (entry_path S k n) = Some (dumps (JObj env)) \<and> json_ok (JObj env) \<and>
           holds U env (history T k ! n))) \<and>
     (\<forall>q. is_file F q \<longrightarrow> below S q \<longrightarrow> (\<exists>k n. n < length (history T k) \<and> q = entry_path S k n)) \<and>
     (\<forall>p. is_dir F p \<longrightarrow> below S p \<longrightarrow> length (svc_root S) + 3 < length p \<longrightarrow> \<not> isdigit (last p))"

definition name_ok :: "'a adk \<Rightarrow> string \<Rightarrow> string \<Rightarrow> string \<Rightarrow> string option \<Rightarrow> bool" where
  "name_ok U a u f s \<longleftrightarrow>
     validate_path_segment U a ''app_name'' = Inr () \<and> validate_path_segment U u ''user_id'' = Inr () \<and>
     store_name f \<and>
     (file_has_user_namespace f \<or> (case s of None \<Rightarrow> False | Some sid \<Rightarrow> validate_path_segment U sid ''session_id'' = Inr ()))"

text \<open>
  The requests the store is made for: valid names, versions that are no negative numbers, contents
  of their own whose envelope JSON can carry.
\<close>

fun good_request :: "'a adk \<Rightarrow> 'a artifact_request \<Rightarrow> shelf \<Rightarrow> bool" where
  "good_request U (SaveArtifact a u f x s md now) T \<longleftrightarrow>
     name_ok U a u f s \<and>
     (case ensure_part U x of
        Inl e \<Rightarrow> False
      | Inr pt \<Rightarrow> self_contained pt \<and>
          (case build_envelope U now (int (length (history T (key_of a u f s)))) pt md a u s of
             Inl e \<Rightarrow> False
           | Inr env \<Rightarrow> json_ok (JObj env)))"
| "good_request U (LoadArtifact a u f s v) T \<longleftrightarrow> name_ok U a u f s \<and> (case v of None \<Rightarrow> True | Some i \<Rightarrow> 0 \<le> i)"
| "good_request U (ListArtifactKeys a u s) T \<longleftrightarrow>
     validate_path_segment U a ''app_name'' = Inr () \<and> validate_path_segment U u ''user_id'' = Inr () \<and>
     (case s of None \<Rightarrow> True | Some sid \<Rightarrow> validate_path_segment U sid ''session_id'' = Inr ())"
| "good_request U (DeleteArtifact a u f s) T \<longleftrightarrow> name_ok U a u f s"
| "good_request U (ListVersions a u f s) T \<longleftrightarrow> name_ok U a u f s"
| "good_request U (ListArtifactVersions a u f s now) T \<longleftrightarrow> name_ok U a u f s"
| "good_request U (GetArtifactVersion a u f s v now) T \<longleftrightarrow>
     name_ok U a u f s \<and> (case v of None \<Rightarrow> True | Some i \<Rightarrow> 0 \<le> i)"

section \<open>Paths of a shelf\<close>

lemma store_name_plain: "store_name f \<Longrightarrow> plain_filename f"
  by (auto simp: store_name_def plain_filename_def list_all_iff)

lemma shelvedD:
  assumes "shelved U S F T"
  shows "fs_ok F" "is_dir F (svc_root S)" "dict_ok T"
    "dict_get T k = Some es \<Longrightarrow> es \<noteq> [] \<and> key_ok k"
    "n < length (history T k) \<Longrightarrow> \<exists>env. dict_get (fs_files F) (entry_path S k n) = Some (dumps (JObj env)) \<and>
       json_ok (JObj env) \<and> holds U env (history T k ! n)"
    "is_file F q \<Longrightarrow> below S q \<Longrightarrow> \<exists>k n. n < length (history T k) \<and> q = entry_path S k n"
    "is_dir F p \<Longrightarrow> below S p \<Longrightarrow> length (svc_root S) + 3 < length p \<Longrightarrow> \<not> isdigit (last p)"
  using assms unfolding shelved_def by blast+

lemma history_key_ok: "shelved U S F T \<Longrightarrow> n < length (history T k) \<Longrightarrow> key_ok k"
  by (auto simp: history_def dest: shelvedD(4) split: option.splits)

text \<open>The directory of an artifact.\<close>

definition key_dir :: "service \<Rightarrow> artifact_key \<Rightarrow> path" where
  "key_dir S k = butlast (entry_path S k 0)"

lemma entry_path_split: "entry_path S k n = key_dir S k @ [nat_str n]"
  by (cases k) (simp add: key_dir_def butlast_append)

lemma key_dir_simps:
  "key_dir S (a, u, sc, f) = svc_root S @ [a, u, sc] @ split_on CHR ''/'' f"
  by (simp add: key_dir_def butlast_append)

lemma key_dir_inject: "key_dir S k = key_dir S k' \<longleftrightarrow> k = k'"
proof
  assume "key_dir S k = key_dir S k'"
  moreover obtain a u sc f a' u' sc' f' where k: "k = (a, u, sc, f)" "k' = (a', u', sc', f')" by (cases k, cases k')
  ultimately have "a = a'" "u = u'" "sc = sc'" "split_on CHR ''/'' f = split_on CHR ''/'' f'"
    by (simp_all add: key_dir_simps)
  then show "k = k'" using k join_split_on by metis
qed simp

lemma entry_path_inject: "entry_path S k n = entry_path S k' n' \<longleftrightarrow> k = k' \<and> n = n'"
  by (auto simp: entry_path_split key_dir_inject)

lemma below_entry: "below S (entry_path S k n)" "below S (key_dir S k)"
  by (cases k, simp add: below_def key_dir_simps)+

lemma name_ok_dir:
  assumes "checks_segments U" "name_ok U a u f s"
  shows "artifact_dir U S a u f s = Inr (key_dir S (key_of a u f s))" "key_ok (key_of a u f s)"
proof -
  have seg: "plain_segment a" "plain_segment u" "plain_segment ''user''"
    "\<not> file_has_user_namespace f \<Longrightarrow> \<exists>sid. s = Some sid \<and> plain_segment sid"
    using assms by (auto simp: name_ok_def checks_segments_def plain_segment_def split: option.splits)
  have f: "plain_filename f" "store_name f" using assms(2) store_name_plain by (auto simp: name_ok_def)
  show "key_ok (key_of a u f s)" using seg f by (auto simp: key_of_def)
  show "artifact_dir U S a u f s = Inr (key_dir S (key_of a u f s))"
    using assms(2) seg plain_filename_parts [OF f(1)]
    by (auto simp: artifact_dir_def name_ok_def key_of_def key_dir_simps plain_segment_join path_join_def [of _ f]
        split: option.splits)
qed

text \<open>The name of a version is no directory, and it is a file exactly when the shelf has it.\<close>

lemma entry_not_dir:
  assumes "shelved U S F T"
  shows "\<not> is_dir F (entry_path S k n)"
proof
  assume "is_dir F (entry_path S k n)"
  from shelvedD(7) [OF assms this below_entry(1)] show False by (cases k) (simp add: entry_path_split key_dir_simps)
qed

lemma entry_file_iff:
  assumes "shelved U S F T"
  shows "path_exists F (entry_path S k n) \<longleftrightarrow> n < length (history T k)" (is ?thesis1)
    and "is_file F (entry_path S k n) \<longleftrightarrow> n < length (history T k)" (is ?thesis2)
proof -
  show ?thesis2
  proof
    assume "is_file F (entry_path S k n)"
    from shelvedD(6) [OF assms this below_entry(1)] show "n < length (history T k)"
      by (auto simp: entry_path_inject)
  next
    assume "n < length (history T k)"
    from shelvedD(5) [OF assms this] show "is_file F (entry_path S k n)" by (auto simp: is_file_def)
  qed
  then show ?thesis1 using entry_not_dir [OF assms] by (simp add: path_exists_def)
qed

lemma key_dir_not_file:
  assumes "shelved U S F T" "key_ok k"
  shows "\<not> is_file F (key_dir S k)"
proof
  assume "is_file F (key_dir S k)"
  then obtain k' n where "key_dir S k = entry_path S k' n"
    using shelvedD(6) [OF assms(1) _ below_entry(2)] by blast
  then have "last (key_dir S k) = nat_str n" by (simp add: entry_path_split)
  moreover obtain a u sc f where k: "k = (a, u, sc, f)" by (cases k)
  ultimately have "last (split_on CHR ''/'' f) = nat_str n" by (simp add: key_dir_simps)
  moreover have "\<not> isdigit (last (split_on CHR ''/'' f))"
    using assms(2) last_in_set [of "split_on CHR ''/'' f"] by (auto simp: k store_name_def list_all_iff)
  ultimately show False by simp
qed

section \<open>The versions on the shelf\<close>

lemma digit_children:
  assumes "shelved U S F T" "key_ok k"
  shows "filter isdigit (map last (filter (\<lambda>q. q \<noteq> [] \<and> butlast q = key_dir S k) (map fst (fs_files F) @ fs_dirs F))) =
    map last (filter (\<lambda>q. butlast q = key_dir S k \<and> q \<noteq> [] \<and> isdigit (last q)) (map fst (fs_files F)))"
proof -
  have "\<not> isdigit (last q)" if "q \<in> set (fs_dirs F)" "q \<noteq> []" "butlast q = key_dir S k" for q
  proof -
    have q: "q = key_dir S k @ [last q]" using that(2,3) append_butlast_last_id by metis
    obtain a u sc f where k: "k = (a, u, sc, f)" by (cases k)
    have "below S q" "length (svc_root S) + 3 < length q"
      by (subst q, simp add: below_def k key_dir_simps)+
    then show ?thesis using shelvedD(7) [OF assms(1), of q] that(1) by (simp add: is_dir_def)
  qed
  then have "filter isdigit (map last (filter (\<lambda>q. q \<noteq> [] \<and> butlast q = key_dir S k) (fs_dirs F))) = []"
    by (auto simp: filter_empty_conv)
  then show ?thesis
    by (simp add: filter_map comp_def filter_filter conj_ac del: filter_filter)
      (simp add: filter_filter conj_ac)
qed

lemma shelf_children:
  assumes "shelved U S F T"
  shows "{n \<in> child_names F (key_dir S k). isdigit n} = nat_str ` {..<length (history T k)}"
proof (intro set_eqI iffI)
  fix n assume n: "n \<in> {n \<in> child_names F (key_dir S k). isdigit n}"
  let ?q = "key_dir S k @ [n]"
  have b: "below S ?q" "length (svc_root S) + 3 < length ?q"
    by (cases k, simp add: below_def key_dir_simps)+
  then have "\<not> is_dir F ?q" using shelvedD(7) [OF assms, of ?q] n by auto
  then have "is_file F ?q" using n by (simp add: child_names_def path_exists_def)
  from shelvedD(6) [OF assms this b(1)] show "n \<in> nat_str ` {..<length (history T k)}"
    by (auto simp: entry_path_split key_dir_inject)
next
  fix n assume "n \<in> nat_str ` {..<length (history T k)}"
  then obtain i where i: "i < length (history T k)" "n = nat_str i" by blast
  then have "path_exists F (entry_path S k i)" using entry_file_iff(1) [OF assms] by blast
  with i(2) show "n \<in> {n \<in> child_names F (key_dir S k). isdigit n}"
    by (simp add: child_names_def entry_path_split del: entry_path.simps)
qed

lemma digit_children_distinct:
  assumes "shelved U S F T"
  shows "distinct (map (\<lambda>q. int (nat_of_digits (last q)))
    (filter (\<lambda>q. butlast q = key_dir S k \<and> q \<noteq> [] \<and> isdigit (last q)) (map fst (fs_files F))))"
    (is "distinct (map ?num ?qs)")
  unfolding distinct_map
proof
  show "distinct ?qs" using shelvedD(1) [OF assms] by (simp add: fs_ok_def dict_ok_def)
  have "\<exists>i. q = entry_path S k i" if "q \<in> set ?qs" for q
  proof -
    have q: "q = key_dir S k @ [last q]" using that append_butlast_last_id [of q] by auto
    have "is_file F q" "isdigit (last q)" using that by (auto simp: is_file_keys)
    then have "last q \<in> {n \<in> child_names F (key_dir S k). isdigit n}"
      using q by (metis (mono_tags, lifting) child_names_def mem_Collect_eq path_exists_def)
    then obtain i where "last q = nat_str i" unfolding shelf_children [OF assms] by blast
    with q show ?thesis by (metis entry_path_split)
  qed
  note entry = this
  show "inj_on ?num (set ?qs)"
  proof (rule inj_onI)
    fix p q assume pq: "p \<in> set ?qs" "q \<in> set ?qs" "?num p = ?num q"
    then obtain i j where "p = entry_path S k i" "q = entry_path S k j" using entry by blast
    with pq(3) show "p = q" by (simp add: entry_path_split del: entry_path.simps)
  qed
qed

lemma shelf_versions:
  assumes "checks_segments U" "shelved U S F T" "name_ok U a u f s"
  shows "\<exists>vs. list_versions_core U S F a u s f = Inr vs \<and> distinct vs \<and>
    set vs = int ` {..<length (history T (key_of a u f s))}"
proof -
  let ?k = "key_of a u f s"
  note d = name_ok_dir(1) [OF assms(1,3), of S] name_ok_dir(2) [OF assms(1,3)]
  note ok = shelvedD(1) [OF assms(2)]
  have nf: "\<not> is_file F (key_dir S ?k)" by (rule key_dir_not_file [OF assms(2) d(2)])
  obtain vs where vs: "list_versions_core U S F a u s f = Inr vs"
    using list_versions_set(3) [OF ok d(1) nf] by blast
  have set_vs: "set vs = int ` {..<length (history T ?k)}"
    unfolding list_versions_set(2) [OF ok d(1) vs] shelf_children [OF assms(2)] by (simp add: image_image)
  have "distinct vs"
  proof (cases "path_exists F (key_dir S ?k)")
    case True
    then have "is_dir F (key_dir S ?k)" using nf by (simp add: path_exists_def)
    then have "vs = map (\<lambda>n. int (nat_of_digits n)) (filter isdigit
        (map last (filter (\<lambda>q. q \<noteq> [] \<and> butlast q = key_dir S ?k) (map fst (fs_files F) @ fs_dirs F))))"
      using vs d(1) True by (auto simp: list_versions_core_def iterdir_def)
    then show ?thesis
      unfolding digit_children [OF assms(2) d(2)] using digit_children_distinct [OF assms(2)] by (simp add: comp_def)
  qed (use vs d(1) in \<open>simp add: list_versions_core_def\<close>)
  with vs set_vs show ?thesis by blast
qed

lemma shelf_versions_sorted:
  assumes "checks_segments U" "shelved U S F T" "name_ok U a u f s"
  obtains vs where "list_versions_core U S F a u s f = Inr vs" "distinct vs"
    "set vs = int ` {..<length (history T (key_of a u f s))}"
    "sort vs = map int [0..<length (history T (key_of a u f s))]"
    "vs = [] \<longleftrightarrow> history T (key_of a u f s) = []"
    "vs \<noteq> [] \<Longrightarrow> Max (set vs) = int (length (history T (key_of a u f s)) - 1)"
proof -
  let ?n = "length (history T (key_of a u f s))"
  obtain vs where vs: "list_versions_core U S F a u s f = Inr vs" "distinct vs" "set vs = int ` {..<?n}"
    using shelf_versions [OF assms] by blast
  have "sorted (map int [0..<?n])" by (simp add: sorted_iff_nth_mono)
  then have "sort vs = map int [0..<?n]"
    using vs(2,3) by (intro sorted_distinct_set_unique) (auto simp: distinct_map lessThan_atLeast0)
  moreover have empty: "vs = [] \<longleftrightarrow> history T (key_of a u f s) = []"
    using vs(3) by (metis image_is_empty lessThan_empty_iff length_0_conv set_empty)
  moreover have "Max (set vs) = int (?n - 1)" if "vs \<noteq> []"
    using that empty unfolding vs(3) by (intro Max_eqI) auto
  ultimately show thesis using that vs by blast
qed

section \<open>Reading\<close>

lemma shelf_entry:
  assumes "shelved U S F T" "n < length (history T k)"
  obtains env where "read_envelope F (entry_path S k n) = Inr env" "path_exists F (entry_path S k n)"
    "holds U env (history T k ! n)"
proof -
  obtain env where e: "dict_get (fs_files F) (entry_path S k n) = Some (dumps (JObj env))" "json_ok (JObj env)"
    "holds U env (history T k ! n)" using shelvedD(5) [OF assms] by blast
  have "read_envelope F (entry_path S k n) = Inr env"
    using e(1) entry_not_dir [OF assms(1)] json_line.decode_encode [OF e(2)]
    by (simp add: read_envelope_def read_text_def del: dumps.simps entry_path.simps)
  with e(3) that entry_file_iff(1) [OF assms(1)] assms(2) show thesis by blast
qed

lemma chosen_Some: "chosen es v = Some n \<Longrightarrow> n < length es"
  by (auto simp: chosen_def split: option.splits if_splits)

lemma version_of_shelf:
  assumes "checks_segments U" "shelved U S F T" "name_ok U a u f s" "case v of None \<Rightarrow> True | Some i \<Rightarrow> 0 \<le> i"
  defines "k \<equiv> key_of a u f s"
  shows "\<exists>found. version_or_latest U S F a u s f v = Inr found \<and>
    (case found of
       None \<Rightarrow> chosen (history T k) v = None
     | Some i \<Rightarrow> version_path U S a u f i s = Inr (entry_path S k (nat i)) \<and> 0 \<le> i \<and>
         chosen (history T k) v = (if nat i < length (history T k) then Some (nat i) else None))"
proof -
  note path = version_path_at [OF name_ok_dir(1) [OF assms(1,3)], of _ S, folded entry_path_split k_def]
  show ?thesis
  proof (cases v)
    case (Some i)
    with assms(4) path show ?thesis by (auto simp: version_or_latest_def chosen_def)
  next
    case None
    obtain vs where vs: "list_versions_core U S F a u s f = Inr vs" "vs = [] \<longleftrightarrow> history T k = []"
      "vs \<noteq> [] \<Longrightarrow> Max (set vs) = int (length (history T k) - 1)"
      using shelf_versions_sorted [OF assms(1-3)] unfolding k_def by metis
    show ?thesis
    proof (cases "vs = []")
      case False
      then have "version_or_latest U S F a u s f v = Inr (Some (int (length (history T k) - 1)))"
        using vs None by (simp add: version_or_latest_def)
      with False vs(2) path [of "int (length (history T k) - 1)"] None show ?thesis
        by (simp add: chosen_def del: entry_path.simps)
    qed (use vs None in \<open>simp add: version_or_latest_def chosen_def\<close>)
  qed
qed

lemma shelf_load:
  assumes "checks_segments U" "shelved U S F T" "name_ok U a u f s" "case v of None \<Rightarrow> True | Some i \<Rightarrow> 0 \<le> i"
  defines "es \<equiv> history T (key_of a u f s)"
  shows "load_artifact_core (Suc depth) U S F a u s f v = Inr (map_option (\<lambda>n. en_part (es ! n)) (chosen es v))"
proof -
  let ?k = "key_of a u f s"
  obtain found where f: "version_or_latest U S F a u s f v = Inr found"
    "case found of None \<Rightarrow> chosen es v = None
     | Some i \<Rightarrow> version_path U S a u f i s = Inr (entry_path S ?k (nat i)) \<and> 0 \<le> i \<and>
         chosen es v = (if nat i < length es then Some (nat i) else None)"
    using version_of_shelf [OF assms(1-4)] unfolding es_def by blast
  show ?thesis
  proof (cases found)
    case (Some i)
    with f(2) have i: "version_path U S a u f i s = Inr (entry_path S ?k (nat i))"
      "chosen es v = (if nat i < length es then Some (nat i) else None)" by simp_all
    show ?thesis
    proof (cases "nat i < length es")
      case True
      with shelf_entry [OF assms(2), of "nat i" ?k] obtain env where
        "read_envelope F (entry_path S ?k (nat i)) = Inr env" "path_exists F (entry_path S ?k (nat i))"
        "holds U env (es ! nat i)" unfolding es_def by blast
      with True f(1) i Some show ?thesis by (simp add: stored_envelope_def holds_def)
    next
      case False
      then have "\<not> path_exists F (entry_path S ?k (nat i))"
        using entry_file_iff(1) [OF assms(2)] by (simp add: es_def)
      with False f(1) i Some show ?thesis by (simp add: stored_envelope_def)
    qed
  qed (use f in \<open>simp add: stored_envelope_def\<close>)
qed

lemma shelf_meta:
  assumes "shelved U S F T" "version_path U S a u f i s = Inr (entry_path S k (nat i))" "0 \<le> i"
  shows "artifact_version_meta U S F now a u s f i =
    Inr (if nat i < length (history T k) then Some (described S k (history T k) (nat i)) else None)"
proof (cases "nat i < length (history T k)")
  case True
  from shelf_entry [OF assms(1) True] obtain env where
    "read_envelope F (entry_path S k (nat i)) = Inr env" "path_exists F (entry_path S k (nat i))"
    "holds U env (history T k ! nat i)" by blast
  with True assms(2,3) show ?thesis
    by (simp add: artifact_version_meta_def holds_def described_def)
next
  case False
  then have "\<not> path_exists F (entry_path S k (nat i))" using entry_file_iff(1) [OF assms(1)] by simp
  with False assms(2) show ?thesis by (simp add: artifact_version_meta_def)
qed

lemma shelf_get_version:
  assumes "checks_segments U" "shelved U S F T" "name_ok U a u f s" "case v of None \<Rightarrow> True | Some i \<Rightarrow> 0 \<le> i"
  defines "k \<equiv> key_of a u f s"
  shows "get_artifact_version_core U S F now a u s f v =
    Inr (map_option (described S k (history T k)) (chosen (history T k) v))"
proof -
  obtain found where f: "version_or_latest U S F a u s f v = Inr found"
    "case found of None \<Rightarrow> chosen (history T k) v = None
     | Some i \<Rightarrow> version_path U S a u f i s = Inr (entry_path S k (nat i)) \<and> 0 \<le> i \<and>
         chosen (history T k) v = (if nat i < length (history T k) then Some (nat i) else None)"
    using version_of_shelf [OF assms(1-4)] unfolding k_def by blast
  with shelf_meta [OF assms(2)] show ?thesis
    by (cases found) (simp_all add: get_artifact_version_core_def del: entry_path.simps)
qed

lemma version_metas_all:
  "(\<And>v. v \<in> set vs \<Longrightarrow> meta v = Inr (Some (g v))) \<Longrightarrow> version_metas meta vs = Inr (map g vs)"
  by (induction vs) auto

lemma sort_key_described:
  "sort_key av_version (map (\<lambda>i. described S k es (nat i)) vs) = map (\<lambda>i. described S k es (nat i)) (sort vs)"
  if "\<forall>i \<in> set vs. 0 \<le> i"
  using that by (subst sort_key_map [symmetric, where h = "\<lambda>x. x"]) (auto simp: described_def)

lemma shelf_list_versions:
  assumes "checks_segments U" "shelved U S F T" "name_ok U a u f s"
  defines "k \<equiv> key_of a u f s"
  shows "list_artifact_versions_core U S F now a u s f =
    Inr (map (described S k (history T k)) [0..<length (history T k)])"
proof -
  obtain vs where vs: "list_versions_core U S F a u s f = Inr vs"
    "set vs = int ` {..<length (history T k)}" "sort vs = map int [0..<length (history T k)]"
    using shelf_versions_sorted [OF assms(1-3)] unfolding k_def by metis
  have "artifact_version_meta U S F now a u s f i = Inr (Some (described S k (history T k) (nat i)))"
    if "i \<in> set vs" for i
  proof -
    have i: "0 \<le> i" "nat i < length (history T k)" using that vs(2) by auto
    note path = version_path_at [OF name_ok_dir(1) [OF assms(1,3)] i(1), of S, folded entry_path_split k_def]
    show ?thesis using shelf_meta [OF assms(2) path i(1)] i(2) by simp
  qed
  from version_metas_all [where meta = "artifact_version_meta U S F now a u s f", OF this]
  have "version_metas (artifact_version_meta U S F now a u s f) vs =
      Inr (map (\<lambda>i. described S k (history T k) (nat i)) vs)" by simp
  moreover have "\<forall>i \<in> set vs. 0 \<le> i" using vs(2) by auto
  ultimately show ?thesis
    using vs(1,3) sort_key_described by (simp add: list_artifact_versions_core_def comp_def)
qed

section \<open>Listing\<close>

lemma filenames_on_shelf:
  assumes "shelved U S F T"
  shows "set (filenames_under F (svc_root S @ [a, u, sc])) = {f. history T (a, u, sc, f) \<noteq> []}"
    (is "set (filenames_under F ?scope) = _")
proof (intro set_eqI iffI)
  fix f assume "f \<in> set (filenames_under F ?scope)"
  then obtain q where q: "is_file F q" "take (length ?scope) q = ?scope" "length ?scope < length q"
    "f = join ''/'' (butlast (drop (length ?scope) q))"
    by (auto simp: filenames_under_def files_below_def is_file_keys split: if_splits)
  have pre: "q = ?scope @ drop (length ?scope) q" by (metis append_take_drop_id q(2))
  then have "below S q" by (metis append_Cons append_assoc append_eq_conv_conj append_Nil below_def less_add_same_cancel1
      length_append length_greater_0_conv list.distinct(1))
  then obtain k n where k: "n < length (history T k)" "q = entry_path S k n" using shelvedD(6) [OF assms q(1)] by blast
  obtain a' u' sc' f' where k': "k = (a', u', sc', f')" by (cases k)
  have "?scope @ drop (length ?scope) q = svc_root S @ [a', u', sc'] @ split_on CHR ''/'' f' @ [nat_str n]"
    using pre k(2) k' by simp
  then have "a' = a" "u' = u" "sc' = sc" "drop (length ?scope) q = split_on CHR ''/'' f' @ [nat_str n]" by simp_all
  then show "f \<in> {f. history T (a, u, sc, f) \<noteq> []}" using k(1) k' q(4) by (auto simp: join_split_on)
next
  fix f assume "f \<in> {f. history T (a, u, sc, f) \<noteq> []}"
  then have n: "0 < length (history T (a, u, sc, f))" by simp
  let ?q = "entry_path S (a, u, sc, f) 0"
  have is_f: "is_file F ?q" using entry_file_iff(2) [OF assms] n by blast
  have "is_dir F (take (length ?scope) ?q)" by (rule ancestor_dir [OF shelvedD(1) [OF assms] is_f]) simp
  then have "path_exists F ?scope" by (simp add: path_exists_def)
  moreover have "?q \<in> set (files_below F ?scope)" using is_f by (simp add: files_below_def is_file_keys)
  ultimately have "join ''/'' (split_on CHR ''/'' f) \<in> set (filenames_under F ?scope)"
    unfolding filenames_under_def
    by (auto simp: Suc_le_eq intro!: image_eqI [of _ _ ?q])
  then show "f \<in> set (filenames_under F ?scope)" by (simp add: join_split_on)
qed

lemma keys_in_scope_set:
  assumes "dict_ok T"
  shows "set (keys_in_scope T a u scopes) = {f. \<exists>sc \<in> scopes. history T (a, u, sc, f) \<noteq> []}"
proof -
  have "history T k \<noteq> [] \<longleftrightarrow> (\<exists>es. (k, es) \<in> set T \<and> es \<noteq> [])" for k
    using map_of_eq_Some_iff [of T k] assms
    by (auto simp: history_def dict_ok_def dest: eq_key_imp_eq_value split: option.splits)
  note nonempty = this
  have "set (keys_in_scope T a u scopes) =
      (\<lambda>((a, u, sc, f), es). f) ` {((a', u', sc, f), es) \<in> set T. es \<noteq> [] \<and> a' = a \<and> u' = u \<and> sc \<in> scopes}"
    by (simp add: keys_in_scope_def case_prod_unfold)
  also have "\<dots> = {f. \<exists>sc \<in> scopes. \<exists>es. ((a, u, sc, f), es) \<in> set T \<and> es \<noteq> []}"
    by (auto simp: image_iff split: prod.splits) blast
  finally show ?thesis by (simp add: nonempty)
qed

lemma shelf_keys:
  assumes "checks_segments U" "shelved U S F T" "good_request U (ListArtifactKeys a u s) T"
  shows "list_artifact_keys_core U S F a u s = Inr (keys_in_scope T a u (insert ''user'' (set_option s)))"
proof -
  have check: "plain_segment x" if "validate_path_segment U x n = Inr ()" for x n
    using assms(1) that unfolding checks_segments_def by blast
  then have seg: "plain_segment a" "plain_segment u" "\<forall>sid. s = Some sid \<longrightarrow> plain_segment sid"
    using assms(3) by (auto intro: check)
  have "plain_segment ''user''" by (simp add: plain_segment_def)
  note seg = seg this
  let ?in = "\<lambda>sc. filenames_under F (svc_root S @ [a, u, sc])"
  let ?xs = "(case s of None \<Rightarrow> [] | Some sid \<Rightarrow> ?in sid) @ ?in ''user''"
  have "list_artifact_keys_core U S F a u s = Inr (sort (remdups ?xs))"
    using seg assms(3) by (auto simp: list_artifact_keys_core_def plain_segment_join split: option.splits)
  moreover have "set ?xs = set (keys_in_scope T a u (insert ''user'' (set_option s)))"
    unfolding keys_in_scope_set [OF shelvedD(3) [OF assms(2)]]
    by (auto simp: filenames_on_shelf [OF assms(2)] split: option.splits)
  then have "sort (remdups ?xs) = sort (remdups (keys_in_scope T a u (insert ''user'' (set_option s))))"
    by (rule sort_remdups_eq)
  moreover have "sort (remdups (keys_in_scope T a u A)) = keys_in_scope T a u A" for A
    by (simp add: keys_in_scope_def sorted_sort_id distinct_remdups_id)
  ultimately show ?thesis by simp
qed

section \<open>Deleting\<close>

lemma history_delete [simp]: "history (AList.delete k T) k' = (if k' = k then [] else history T k')"
  by (simp add: history_def delete_conv')

lemma unlink_ok:
  assumes "fs_ok F" "unlink F p = Inr G"
  shows "fs_ok G"
proof -
  have "fs_files G = AList.delete p (fs_files F)" using assms(2) by (auto simp: unlink_def split: if_splits)
  then have "dict_ok (fs_files G)" using fs_okD(1) [OF assms(1)] by (simp add: dict_ok_def distinct_delete)
  with fs_okD [OF assms(1)] unlink_Inr [OF assms(2)] show ?thesis
    unfolding fs_ok_def by (auto simp: is_file_def split: if_splits)
qed

lemma delete_versions_total:
  assumes "artifact_dir U S a u f s = Inr d" "\<forall>v \<in> set vs. 0 \<le> v \<and> \<not> is_dir F (d @ [nat_str (nat v)])" "fs_ok F"
  shows "\<exists>G. delete_versions U S F a u s f vs = (Inr (), G) \<and> fs_ok G"
  using assms(2,3)
proof (induction vs arbitrary: F)
  case (Cons v vs)
  let ?p = "d @ [nat_str (nat v)]"
  have p: "version_path U S a u f v s = Inr ?p" using version_path_at [OF assms(1)] Cons.prems(1) by simp
  show ?case
  proof (cases "path_exists F ?p")
    case True
    then have "\<not> is_dir F ?p" "is_file F ?p" using Cons.prems(1) by (auto simp: path_exists_def)
    then obtain F' where u: "unlink F ?p = Inr F'" by (simp add: unlink_def)
    with Cons.IH [of F'] Cons.prems unlink_Inr [OF u] unlink_ok [OF _ u] p True show ?thesis by simp
  qed (use Cons p in simp)
qed simp

lemma shelf_delete:
  assumes "checks_segments U" "shelved U S F T" "name_ok U a u f s"
  defines "k \<equiv> key_of a u f s"
  obtains G where "delete_artifact_core U S F a u s f = (Inr (), G)" "shelved U S G (AList.delete k T)"
proof -
  note d = name_ok_dir(1) [OF assms(1,3), of S, folded k_def]
  obtain vs where vs: "list_versions_core U S F a u s f = Inr vs" "set vs = int ` {..<length (history T k)}"
    using shelf_versions_sorted [OF assms(1-3)] unfolding k_def by metis
  have "\<forall>v \<in> set vs. 0 \<le> v \<and> \<not> is_dir F (key_dir S k @ [nat_str (nat v)])"
    using vs(2) entry_not_dir [OF assms(2), of k, unfolded entry_path_split] by auto
  from delete_versions_total [OF d this shelvedD(1) [OF assms(2)]]
  obtain G where G: "delete_versions U S F a u s f vs = (Inr (), G)" "fs_ok G" by blast
  have pos: "\<forall>v \<in> set vs. 0 \<le> v" using vs(2) by auto
  have gone: "(\<lambda>v. key_dir S k @ [nat_str (nat v)]) ` set vs = entry_path S k ` {..<length (history T k)}"
    unfolding vs(2) by (auto simp: entry_path_split image_image)
  note e = delete_versions_effect(1,2) [OF d pos G(1), unfolded gone]
  have "shelved U S G (AList.delete k T)"
    unfolding shelved_def
  proof (intro conjI allI impI)
    show "is_dir G (svc_root S)" "fs_ok G" using e(2) shelvedD(2) [OF assms(2)] G(2) by simp_all
    show "dict_ok (AList.delete k T)" using shelvedD(3) [OF assms(2)] by (simp add: dict_ok_def distinct_delete)
  next
    fix k' es assume "dict_get (AList.delete k T) k' = Some es"
    then show "es \<noteq> []" "key_ok k'" using shelvedD(4) [OF assms(2)] by (auto simp: delete_conv' split: if_splits)
  next
    fix k' n assume "n < length (history (AList.delete k T) k')"
    then have "k' \<noteq> k" "n < length (history T k')" by (auto split: if_splits)
    with shelvedD(5) [OF assms(2), of n k'] e(1)
    show "\<exists>env. dict_get (fs_files G) (entry_path S k' n) = Some (dumps (JObj env)) \<and> json_ok (JObj env) \<and>
        holds U env (history (AList.delete k T) k' ! n)"
      by (auto simp: entry_path_inject simp del: entry_path.simps dumps.simps)
  next
    fix q assume "is_file G q" "below S q"
    then have "is_file F q" "q \<notin> entry_path S k ` {..<length (history T k)}" using e(1) by (auto simp: is_file_def split: if_splits)
    with shelvedD(6) [OF assms(2) _ \<open>below S q\<close>]
    obtain k' n where "n < length (history T k')" "q = entry_path S k' n" "\<not> (k' = k)" by blast
    then show "\<exists>k' n. n < length (history (AList.delete k T) k') \<and> q = entry_path S k' n"
      by (intro exI [of _ k'] exI [of _ n]) simp
  next
    fix p assume "is_dir G p" "below S p" "length (svc_root S) + 3 < length p"
    then show "\<not> isdigit (last p)" using e(2) shelvedD(7) [OF assms(2)] by simp
  qed
  moreover have "delete_artifact_core U S F a u s f = (Inr (), G)" using vs(1) G(1) by (simp add: delete_artifact_core_def)
  ultimately show thesis using that by blast
qed

section \<open>Saving\<close>

lemma history_set [simp]: "history (dict_set T k es) k' = (if k' = k then es else history T k')"
  by (simp add: history_def)

lemma built_holds:
  assumes "self_contained pt" "build_envelope U now v pt md a u s = Inr env"
  shows "holds U env (entry_of now pt md)"
proof -
  have "part_from_envelope U env a' u' s' load = Inr (Some (stored_part pt))" for a' u' s' load
    by (rule envelope_read_back [OF assms])
  moreover have "dict_get env ''create_time'' = Some (JFloat now)"
    "dict_get env ''mime_type'' = Some (opt_str (en_mime (entry_of now pt md)))"
    "dict_get env ''custom_metadata'' = Some (JObj (en_metadata (entry_of now pt md)))"
    using assms
    by (auto simp: build_envelope_def entry_of_def opt_str_def self_contained_def Let_def bind_result_Inr_iff
        split: option.splits if_splits)
  ultimately show ?thesis by (simp add: holds_def entry_of_def)
qed

lemma last_below_scope:
  assumes "length (svc_root S) + 3 < length (take n (key_dir S k))" "key_ok k"
  shows "\<not> isdigit (last (take n (key_dir S k)))"
proof -
  obtain a u sc f where k: "k = (a, u, sc, f)" by (cases k)
  let ?pre = "svc_root S @ [a, u, sc]" and ?m = "n - (length (svc_root S) + 3)"
  have t: "take n (key_dir S k) = take n ?pre @ take ?m (split_on CHR ''/'' f)"
    using take_append [of n ?pre "split_on CHR ''/'' f"] by (simp add: k key_dir_simps numeral_3_eq_3)
  have "take ?m (split_on CHR ''/'' f) \<noteq> []" using assms(1) unfolding t by auto
  then have "last (take n (key_dir S k)) \<in> set (split_on CHR ''/'' f)"
    unfolding t by (simp add: in_set_takeD [OF last_in_set])
  then show ?thesis using assms(2) by (auto simp: k store_name_def list_all_iff)
qed

lemma mkdirs_total:
  assumes "\<forall>n. \<not> is_file F (take n p)"
  shows "\<exists>G. mkdirs F p = Inr G"
proof -
  have "\<not> is_file F p" using assms [THEN spec, of "length p"] by simp
  with assms show ?thesis by (auto simp: mkdirs_def list_ex_iff)
qed

lemma prefix_not_file:
  assumes "shelved U S F T" "key_ok k"
  shows "\<not> is_file F (take n (key_dir S k))"
proof
  let ?p = "take n (key_dir S k)"
  assume f: "is_file F ?p"
  obtain a u sc f where k: "k = (a, u, sc, f)" by (cases k)
  show False
  proof (cases "length (svc_root S) < n")
    case False
    then have "?p = take n (svc_root S)" by (simp add: k key_dir_simps numeral_3_eq_3)
    moreover have "is_dir F (take n (svc_root S))"
      using shelvedD(2) [OF assms(1)] fs_okD(4) [OF shelvedD(1) [OF assms(1)]]
    proof (induction "length (svc_root S) - n" arbitrary: n)
      case (Suc m)
      then have "is_dir F (take (Suc n) (svc_root S))" by simp
      with Suc.prems(2) [of "take (Suc n) (svc_root S)"] Suc.hyps(2) show ?case by (simp add: butlast_take)
    qed simp
    ultimately show False using f fs_okD(2) [OF shelvedD(1) [OF assms(1)]] by metis
  next
    case True
    then have "below S ?p" by (simp add: k key_dir_simps below_def)
    from shelvedD(6) [OF assms(1) f this] obtain k' i where e: "?p = entry_path S k' i" by blast
    then have "length (svc_root S) + 3 < length ?p" by (cases k') simp
    moreover have "last ?p = nat_str i" by (simp add: e entry_path_split del: entry_path.simps)
    ultimately show False using last_below_scope [OF _ assms(2), of S n] isdigit_nat_str by simp
  qed
qed

lemma write_entry_total:
  assumes "\<not> svc_is_cloud S" "shelved U S F T" "key_ok k"
  shows "\<exists>G. write_envelope S F (entry_path S k n) env = (Inr (), G)"
proof -
  obtain F1 where m: "mkdirs F (key_dir S k) = Inr F1" using mkdirs_total prefix_not_file [OF assms(2,3)] by blast
  have "\<not> is_dir F1 (entry_path S k n)"
    using mkdirs_Inr(4) [OF m, of "entry_path S k n"] entry_not_dir [OF assms(2)]
    by (metis append_eq_append_conv_if entry_path_split length_append_singleton length_take min.cobounded1 not_less_eq_eq)
  with m mkdirs_Inr(2) [OF m] assms(1) show ?thesis
    by (auto simp: write_envelope_def ensure_parent_def write_text_def entry_path_split simp del: entry_path.simps)
qed

lemma written_dirs:
  assumes "\<not> svc_is_cloud S" "shelved U S F T" "key_ok k" "write_envelope S F (entry_path S k n) env = (Inr (), G)"
    and "is_dir G p" "below S p" "length (svc_root S) + 3 < length p"
  shows "\<not> isdigit (last p)"
proof (cases "is_dir F p")
  case False
  then obtain i where i: "p = take i (key_dir S k)"
    using write_envelope_Inr(6) [OF assms(1) shelvedD(1) [OF assms(2)] assms(4,5)]
    by (auto simp: entry_path_split simp del: entry_path.simps)
  show ?thesis using last_below_scope [OF _ assms(3)] assms(7) unfolding i by blast
qed (use shelvedD(7) [OF assms(2) _ assms(6,7)] in blast)

lemma shelved_write:
  assumes "\<not> svc_is_cloud S" "shelved U S F T" "key_ok k" "json_ok (JObj env)" "holds U env e"
    and "write_envelope S F (entry_path S k (length (history T k))) env = (Inr (), G)"
  shows "shelved U S G (dict_set T k (history T k @ [e]))"
proof -
  let ?T = "dict_set T k (history T k @ [e])"
  note g = write_envelope_Inr [OF assms(1) shelvedD(1) [OF assms(2)] assms(6)]
  show ?thesis
    unfolding shelved_def
  proof (intro conjI allI impI)
    show "fs_ok G" "is_dir G (svc_root S)" "dict_ok ?T" using g(3,5) shelvedD(2,3) [OF assms(2)] by auto
  next
    fix k' es assume "dict_get ?T k' = Some es"
    then show "es \<noteq> []" "key_ok k'" using assms(3) shelvedD(4) [OF assms(2)] by (auto split: if_splits)
  next
    fix k' n assume n: "n < length (history ?T k')"
    show "\<exists>env. dict_get (fs_files G) (entry_path S k' n) = Some (dumps (JObj env)) \<and> json_ok (JObj env) \<and>
        holds U env (history ?T k' ! n)"
    proof (cases "k' = k \<and> n = length (history T k)")
      case True
      with assms(4,5) g(1) show ?thesis by (auto simp del: entry_path.simps dumps.simps json_ok.simps)
    next
      case False
      then have "n < length (history T k')" "history ?T k' ! n = history T k' ! n"
        using n by (auto split: if_splits simp: nth_append)
      with shelvedD(5) [OF assms(2), of n k'] g(1) False show ?thesis
        by (auto simp: entry_path_inject simp del: entry_path.simps dumps.simps json_ok.simps)
    qed
  next
    fix q assume q: "is_file G q" "below S q"
    show "\<exists>k' n. n < length (history ?T k') \<and> q = entry_path S k' n"
    proof (cases "q = entry_path S k (length (history T k))")
      case True
      then show ?thesis by (intro exI [of _ k] exI [of _ "length (history T k)"]) simp
    next
      case False
      then have "is_file F q" using q(1) g(1) by (simp add: is_file_def del: entry_path.simps)
      from shelvedD(6) [OF assms(2) this q(2)] obtain k' n where "n < length (history T k')" "q = entry_path S k' n" by blast
      then show ?thesis by (intro exI [of _ k'] exI [of _ n]) auto
    qed
  next
    fix p assume "is_dir G p" "below S p" "length (svc_root S) + 3 < length p"
    then show "\<not> isdigit (last p)" by (rule written_dirs [OF assms(1-3,6)])
  qed
qed

lemma shelf_save:
  assumes "\<not> svc_is_cloud S" "checks_segments U" "shelved U S F T" "name_ok U a u f s"
    and "ensure_part U x = Inr pt" "self_contained pt"
    and "build_envelope U now (int (length (history T (key_of a u f s)))) pt md a u s = Inr env" "json_ok (JObj env)"
  defines "k \<equiv> key_of a u f s"
  obtains G where "save_artifact_core U S F now a u s f x md = (Inr (int (length (history T k))), G)"
    "shelved U S G (dict_set T k (history T k @ [entry_of now pt md]))"
proof -
  let ?n = "length (history T k)"
  note d = name_ok_dir(1) [OF assms(2,4), of S, folded k_def]
  note ok = name_ok_dir(2) [OF assms(2,4), folded k_def]
  obtain vs where vs: "list_versions_core U S F a u s f = Inr vs" "vs = [] \<longleftrightarrow> history T k = []"
    "vs \<noteq> [] \<Longrightarrow> Max (set vs) = int (?n - 1)"
    using shelf_versions_sorted [OF assms(2-4)] unfolding k_def by metis
  have next_v: "next_version vs = int ?n" using vs(2,3) by (auto simp: next_version_def of_nat_diff Suc_le_eq)
  obtain G where G: "write_envelope S F (entry_path S k ?n) env = (Inr (), G)"
    using write_entry_total [OF assms(1,3) ok] by blast
  have "save_plan U S F now a u s f x md = Inr (int ?n, env, entry_path S k ?n)"
    using assms(5,7) vs(1) next_v version_path_at [OF d, of "int ?n"]
    by (simp add: save_plan_def Let_def k_def entry_path_split del: entry_path.simps)
  with G have "save_artifact_core U S F now a u s f x md = (Inr (int ?n), G)"
    by (simp add: save_artifact_core_def save_commit_def del: entry_path.simps)
  moreover have "shelved U S G (dict_set T k (history T k @ [entry_of now pt md]))"
    using shelved_write [OF assms(1,3) ok assms(8) built_holds [OF assms(6,7)] G] .
  ultimately show thesis using that by blast
qed

section \<open>The store answers as the shelf does\<close>

lemma shelf_step:
  assumes "\<not> svc_is_cloud S" "checks_segments U" "shelved U S F T" "good_request U q T"
  shows "fst (artifact_service (Suc depth) U S q F) = fst (shelf_service U S q T) \<and>
    shelved U S (snd (artifact_service (Suc depth) U S q F)) (snd (shelf_service U S q T))"
proof (cases q)
  case (SaveArtifact a u f x s md now)
  with assms(4) obtain pt env where e: "name_ok U a u f s" "ensure_part U x = Inr pt" "self_contained pt"
    "build_envelope U now (int (length (history T (key_of a u f s)))) pt md a u s = Inr env" "json_ok (JObj env)"
    by (auto split: sum.splits simp del: json_ok.simps)
  let ?k = "key_of a u f s"
  from shelf_save [OF assms(1-3) e] obtain G where
    "save_artifact_core U S F now a u s f x md = (Inr (int (length (history T ?k))), G)"
    "shelved U S G (dict_set T ?k (history T ?k @ [entry_of now pt md]))" by blast
  with SaveArtifact e(2) show ?thesis by (simp add: save_artifact_def Let_def)
next
  case (LoadArtifact a u f s v)
  with shelf_load [OF assms(2,3), of a u f s v depth] assms(3,4) show ?thesis by (simp add: load_artifact_def Let_def)
next
  case (ListArtifactKeys a u s)
  with shelf_keys [OF assms(2,3), of a u s] assms(3,4) show ?thesis by (simp add: list_artifact_keys_def)
next
  case (DeleteArtifact a u f s)
  then have "name_ok U a u f s" using assms(4) by simp
  from shelf_delete [OF assms(2,3) this] obtain G where "delete_artifact_core U S F a u s f = (Inr (), G)"
    "shelved U S G (AList.delete (key_of a u f s) T)" by blast
  with DeleteArtifact show ?thesis by (simp add: delete_artifact_def)
next
  case (ListVersions a u f s)
  then have n: "name_ok U a u f s" using assms(4) by simp
  from shelf_versions_sorted [OF assms(2,3) n] obtain vs where "list_versions_core U S F a u s f = Inr vs"
    "sort vs = map int [0..<length (history T (key_of a u f s))]" by metis
  with ListVersions assms(3) show ?thesis by (simp add: list_versions_def)
next
  case (ListArtifactVersions a u f s now)
  with shelf_list_versions [OF assms(2,3), of a u f s now] assms(3,4) show ?thesis
    by (simp add: list_artifact_versions_def Let_def)
next
  case (GetArtifactVersion a u f s v now)
  with shelf_get_version [OF assms(2,3), of a u f s v now] assms(3,4) show ?thesis
    by (simp add: get_artifact_version_def Let_def)
qed

definition kept :: "'a adk \<Rightarrow> service \<Rightarrow> fs \<Rightarrow> shelf \<Rightarrow> bool" where
  "kept U S F T \<longleftrightarrow> \<not> svc_is_cloud S \<and> checks_segments U \<and> shelved U S F T"

interpretation artifacts: simulation "artifact_service (Suc depth) U S" "shelf_service U S" "kept U S" "good_request U"
  for depth U S
  by unfold_locales (simp add: kept_def shelf_step)

text \<open>A directory with nothing below it holds the empty shelf.\<close>

lemma empty_store_kept:
  assumes "\<not> svc_is_cloud S" "checks_segments U" "fs_ok F" "is_dir F (svc_root S)"
    and "\<forall>p. below S p \<longrightarrow> \<not> path_exists F p"
  shows "kept U S F []"
  using assms by (auto simp: kept_def shelved_def history_def path_exists_def)


section \<open>What was saved stays\<close>

fun deletes :: "'a artifact_request \<Rightarrow> artifact_key \<Rightarrow> bool" where
  "deletes (DeleteArtifact a u f s) k \<longleftrightarrow> key_of a u f s = k"
| "deletes _ k \<longleftrightarrow> False"

lemma history_grows:
  "\<not> deletes q k \<Longrightarrow> \<exists>new. history (snd (shelf_service U S q T)) k = history T k @ new"
  by (cases q) (auto simp: Let_def split: sum.splits)

lemma history_grows_run:
  "list_all (\<lambda>q. \<not> deletes q k) qs \<Longrightarrow> \<exists>new. history (snd (replies (shelf_service U S) qs T)) k = history T k @ new"
proof (induction qs arbitrary: T)
  case (Cons q qs)
  obtain new where "history (snd (shelf_service U S q T)) k = history T k @ new"
    using history_grows [of q k U S T] Cons.prems by auto
  moreover obtain new' where "history (snd (replies (shelf_service U S) qs (snd (shelf_service U S q T)))) k =
      history (snd (shelf_service U S q T)) k @ new'"
    using Cons.IH [of "snd (shelf_service U S q T)"] Cons.prems by auto
  ultimately show ?case by (simp add: Let_def split_beta)
qed simp


section \<open>A sample run\<close>

lemma demo_checks: "checks_segments demo_adk"
  by (auto simp: checks_segments_def demo_adk_def plain_segment_def split: if_splits)

lemma demo_kept: "kept demo_adk demo_service demo_fs []"
  by (rule empty_store_kept [OF demo_fs_ok(2) demo_checks demo_fs_ok(1)])
    (auto simp: demo_fs_def demo_service_def is_dir_def below_def path_exists_def is_file_def)

definition demo_save_request :: "string \<Rightarrow> part artifact_request" where
  "demo_save_request sid = SaveArtifact ''app'' ''ann'' ''report'' demo_text_part (Some sid) None (Fin False 0 0)"

lemma demo_name: "name_ok demo_adk ''app'' ''ann'' ''report'' (Some ''s1'')" "name_ok demo_adk ''app'' ''ann'' ''report'' (Some ''user'')"
  by code_simp+

lemma demo_key:
  "key_of ''app'' ''ann'' ''report'' (Some sid) = (''app'', ''ann'', sid, ''report'')"
  by (simp add: key_of_def file_has_user_namespace_def USER_NAMESPACE_PREFIX_def startswith_def)

lemma demo_good:
  assumes "sid \<in> {''s1'', ''user''}"
  shows "good_request demo_adk (demo_save_request sid) []"
proof -
  have "build_envelope demo_adk (Fin False 0 0) 0 demo_text_part None ''app'' ''ann'' (Some sid) = Inr report_env"
    by (simp add: build_envelope_def demo_text_part_def report_env_def)
  moreover have "ensure_part demo_adk demo_text_part = Inr demo_text_part" by (simp add: demo_adk_def)
  moreover have "self_contained demo_text_part" by (simp add: self_contained_def demo_text_part_def)
  ultimately show ?thesis
    using assms demo_name demo_json_ok(1) by (auto simp: demo_save_request_def history_def simp del: json_ok.simps)
qed

definition demo_load_request :: "part artifact_request" where
  "demo_load_request = LoadArtifact ''app'' ''ann'' ''report'' (Some ''s1'') (Some 0)"

definition demo_keys_request :: "part artifact_request" where
  "demo_keys_request = ListArtifactKeys ''app'' ''ann'' (Some ''s1'')"

lemma demo_run_good:
  "good_run (shelf_service demo_adk demo_service) (good_request demo_adk)
     (demo_save_request ''s1'' # [demo_keys_request] @ [demo_load_request]) []"
  using demo_good [of "''s1''"] demo_name
  by (simp add: demo_keys_request_def demo_load_request_def) (simp add: demo_adk_def)



text \<open>
  The user's own artifacts are kept as if they were those of a session named \<^verbatim>\<open>user\<close>: an artifact saved in a
  session of that name is listed in every session of the user.
\<close>

lemma session_named_user_is_listed_everywhere:
  "fst (replies (artifact_service 1 demo_adk demo_service) [demo_save_request ''user'', demo_keys_request] demo_fs) =
   [Inr (Saved 0), Inr (Keys [''report''])]"
proof -
  have "good_run (shelf_service demo_adk demo_service) (good_request demo_adk) [demo_save_request ''user'', demo_keys_request] []"
    using demo_good [of "''user''"] by (simp add: demo_keys_request_def) (simp add: demo_adk_def)
  from artifacts.run [OF demo_kept this, of 0] show ?thesis
    by (simp add: demo_save_request_def demo_keys_request_def demo_key demo_adk_def Let_def keys_in_scope_def history_def)
qed

end
