(* ===== verification/Secrets.thy ===== *)
theory Secrets
  imports Json_Roundtrip
begin

text \<open>
  \<^verbatim>\<open>src/app/shared/secrets.py\<close>: the Secret Manager accessor. The client is a parameter: what it
  answers for a resource may depend on the calls made before, so that a rotated secret is a client
  whose answer changes. The state of \<open>Secrets\<close> is its cache; the history of the calls is
  kept beside it.
\<close>

definition DEFAULT_SECRET_VERSION :: string where
  "DEFAULT_SECRET_VERSION = ''latest''"

text \<open>The client: the calls made so far and a resource give the payload's bytes, or its error.\<close>

type_synonym secret_client = "string list \<Rightarrow> string \<Rightarrow> string result"

record secrets =
  sc_project :: string
  sc_cache :: "(string, string) dict"
  sc_calls :: "string list"

definition Secrets :: "string \<Rightarrow> secrets" where
  "Secrets project = \<lparr>sc_project = project, sc_cache = [], sc_calls = []\<rparr>"

definition resource_name :: "secrets \<Rightarrow> string \<Rightarrow> string \<Rightarrow> string result" where
  "resource_name S name version =
     (if CHR ''/'' \<in> set name then Inr name
      else if sc_project S = [] then
        Inl (ValueError (''Cannot resolve secret '' @ repr name @ '' without a project: set '' @
          ''GOOGLE_CLOUD_PROJECT (or install ModelModule with a project), '' @
          ''or pass a fully-qualified resource name.''))
      else Inr (''projects/'' @ sc_project S @ ''/secrets/'' @ name @ ''/versions/'' @ version))"

text \<open>\<open>bytes.decode("utf-8")\<close>: well-formed text, or an error.\<close>

definition decode_utf8 :: "string \<Rightarrow> string result" where
  "decode_utf8 bytes = (if text_ok bytes then Inr bytes else Inl (ValueError ''invalid utf-8''))"

definition fetch :: "secret_client \<Rightarrow> string \<Rightarrow> secrets \<Rightarrow> string result \<times> secrets" where
  "fetch client resource S =
     (let S' = S\<lparr>sc_calls := sc_calls S @ [resource]\<rparr>
      in case bind_result (client (sc_calls S) resource) decode_utf8 of
           Inl e \<Rightarrow> (Inl e, S')
         | Inr v \<Rightarrow> (Inr v, S'\<lparr>sc_cache := dict_set (sc_cache S) resource v\<rparr>))"

definition get_secret ::
  "secret_client \<Rightarrow> string \<Rightarrow> string \<Rightarrow> bool \<Rightarrow> secrets \<Rightarrow> string result \<times> secrets" where
  "get_secret client name version refresh S =
     (case resource_name S name version of
        Inl e \<Rightarrow> (Inl e, S)
      | Inr resource \<Rightarrow>
          (case (if refresh then None else dict_get (sc_cache S) resource) of
             Some v \<Rightarrow> (Inr v, S)
           | None \<Rightarrow> fetch client resource S))"

definition get_as ::
  "secret_client \<Rightarrow> (string \<Rightarrow> 'a) \<Rightarrow> string \<Rightarrow> string \<Rightarrow> bool \<Rightarrow> secrets \<Rightarrow> 'a result \<times> secrets" where
  "get_as client as_type name version refresh S =
     (case get_secret client name version refresh S of
        (Inl e, S') \<Rightarrow> (Inl e, S')
      | (Inr v, S') \<Rightarrow> (Inr (as_type v), S'))"

text \<open>The resolver is the same operation on the service it wraps.\<close>

definition resolve_secret ::
  "secret_client \<Rightarrow> (string \<Rightarrow> 'a) \<Rightarrow> string \<Rightarrow> string \<Rightarrow> bool \<Rightarrow> secrets \<Rightarrow> 'a result \<times> secrets" where
  "resolve_secret client as_type name version refresh S = get_as client as_type name version refresh S"

text \<open>The module's providers: one service for the client and the project, one resolver for the service.\<close>

definition provide_secrets :: "secret_client \<Rightarrow> string \<Rightarrow> secret_client \<times> secrets" where
  "provide_secrets client project = (client, Secrets project)"

record secret_resolver =
  sv_client :: secret_client
  sv_secrets :: secrets

definition SecretResolver :: "secret_client \<times> secrets \<Rightarrow> secret_resolver" where
  "SecretResolver service = \<lparr>sv_client = fst service, sv_secrets = snd service\<rparr>"

definition provide_secret_resolver :: "secret_client \<times> secrets \<Rightarrow> secret_resolver" where
  "provide_secret_resolver service = SecretResolver service"

section \<open>A run of requests\<close>

type_synonym secret_request = "string \<times> string \<times> bool"

fun get_all :: "secret_client \<Rightarrow> secret_request list \<Rightarrow> secrets \<Rightarrow> string result list \<times> secrets" where
  "get_all client [] S = ([], S)"
| "get_all client ((name, version, refresh) # qs) S =
     (case get_secret client name version refresh S of
        (r, S1) \<Rightarrow> (case get_all client qs S1 of (rs, S2) \<Rightarrow> (r # rs, S2)))"

definition readable :: "secret_client \<Rightarrow> bool" where
  "readable client \<longleftrightarrow> (\<forall>h r. \<exists>v. client h r = Inr v \<and> text_ok v)"

text \<open>What holds of the service while no request refreshes: each call was for a new resource, and is cached.\<close>

definition cache_inv :: "secrets \<Rightarrow> bool" where
  "cache_inv S \<longleftrightarrow> distinct (sc_calls S) \<and> set (sc_calls S) = set (dict_keys (sc_cache S))"

lemma fetch_readable:
  assumes "readable client"
  obtains v where "fetch client r S =
    (Inr v, S\<lparr>sc_calls := sc_calls S @ [r], sc_cache := dict_set (sc_cache S) r v\<rparr>)"
proof -
  obtain v where "client (sc_calls S) r = Inr v" "text_ok v" using assms by (auto simp: readable_def)
  then show thesis using that [of v] by (simp add: fetch_def decode_utf8_def)
qed

lemma get_secret_project: "sc_project (snd (get_secret client n v b S)) = sc_project S"
  by (auto simp: get_secret_def fetch_def Let_def split: sum.splits option.splits)

lemma get_secret_inv:
  assumes "readable client" "cache_inv S"
  shows "cache_inv (snd (get_secret client n v False S))"
proof (cases "resource_name S n v")
  case (Inr r)
  show ?thesis
  proof (cases "dict_get (sc_cache S) r")
    case None
    obtain x where x: "fetch client r S =
      (Inr x, S\<lparr>sc_calls := sc_calls S @ [r], sc_cache := dict_set (sc_cache S) r x\<rparr>)"
      using fetch_readable [OF assms(1)] by metis
    have "r \<notin> set (dict_keys (sc_cache S))" using None by (simp add: dict_get_None_iff)
    with x None Inr assms(2) show ?thesis
      by (simp add: get_secret_def cache_inv_def)
  qed (use Inr assms(2) in \<open>simp add: get_secret_def\<close>)
qed (use assms(2) in \<open>simp add: get_secret_def\<close>)

lemma get_all_inv:
  "readable client \<Longrightarrow> cache_inv S \<Longrightarrow> list_all (\<lambda>(n, v, b). \<not> b) qs \<Longrightarrow> cache_inv (snd (get_all client qs S))"
proof (induction qs arbitrary: S)
  case (Cons q qs)
  obtain n v b where q: "q = (n, v, b)" by (cases q)
  with Cons.prems have "cache_inv (snd (get_secret client n v b S))" using get_secret_inv by auto
  with Cons.IH [of "snd (get_secret client n v b S)"] Cons.prems q show ?case
    by (auto split: prod.splits)
qed simp

text \<open>A value once cached stays what the caller gets, whoever asks for whatever, with whatever client, unless a request refreshes.\<close>

definition cached_secret :: "string \<Rightarrow> string \<Rightarrow> secrets \<Rightarrow> string option" where
  "cached_secret name version S =
     (case resource_name S name version of Inl _ \<Rightarrow> None | Inr r \<Rightarrow> dict_get (sc_cache S) r)"

definition plain_access :: "secrets \<Rightarrow> secrets \<Rightarrow> bool" where
  "plain_access S S' \<longleftrightarrow> (\<exists>client name version. S' = snd (get_secret client name version False S))"

lemma resource_name_get: "resource_name (snd (get_secret client n v b S)) = resource_name S"
  by (intro ext) (simp add: resource_name_def get_secret_project)

interpretation secret_memo: memo "get_secret client name version False" "cached_secret name version" plain_access
proof unfold_locales
  fix S x
  assume "cached_secret name version S = Some x"
  then show "get_secret client name version False S = (Inr x, S)"
    by (auto simp: cached_secret_def get_secret_def split: sum.splits)
next
  fix S x S'
  assume a: "get_secret client name version False S = (Inr x, S')"
  then have "resource_name S' = resource_name S" using resource_name_get by (metis snd_conv)
  with a show "cached_secret name version S' = Some x"
    by (auto simp: cached_secret_def get_secret_def fetch_def Let_def split: sum.splits option.splits)
next
  fix S S' x
  assume "plain_access S S'" and c: "cached_secret name version S = Some x"
  then obtain client n v where s: "S' = snd (get_secret client n v False S)" by (auto simp: plain_access_def)
  have "dict_get (sc_cache S') r = Some x" if "dict_get (sc_cache S) r = Some x" for r
    using that s by (auto simp: get_secret_def fetch_def Let_def split: sum.splits option.splits)
  with c s show "cached_secret name version S' = Some x"
    by (auto simp: cached_secret_def resource_name_get split: sum.splits)
qed

lemma get_all_plain:
  "list_all (\<lambda>(n, v, b). \<not> b) qs \<Longrightarrow> plain_access\<^sup>*\<^sup>* S (snd (get_all client qs S))"
proof (induction qs arbitrary: S)
  case (Cons q qs)
  obtain n v b where q: "q = (n, v, b)" by (cases q)
  with Cons.prems have "plain_access S (snd (get_secret client n v b S))" by (auto simp: plain_access_def)
  moreover have "plain_access\<^sup>*\<^sup>* (snd (get_secret client n v b S)) (snd (get_all client qs (snd (get_secret client n v b S))))"
    using Cons by simp
  ultimately show ?case using q by (auto split: prod.splits intro: converse_rtranclp_into_rtranclp)
qed simp


definition demo_client :: secret_client where
  "demo_client h r = Inr ''token''"


end
