(* ===== verification/Backends.thy ===== *)
theory Backends
  imports Db_Config Case_Store_Spec
begin

text \<open>
  The services selected by the environment: \<^verbatim>\<open>app/cluster/session.py\<close>, \<^verbatim>\<open>tasks.py\<close>,
  \<^verbatim>\<open>artifacts.py\<close> and \<open>build_case_store\<close> of \<^verbatim>\<open>cases.py\<close>. A service is the constructor it is built
  with; asking the shared database for its engine may build it.
\<close>

definition IN_MEMORY :: string where "IN_MEMORY = ''in_memory''"
definition DATABASE :: string where "DATABASE = ''database''"
definition VERTEX_AI :: string where "VERTEX_AI = ''vertex_ai''"

lemmas service_defs = IN_MEMORY_def DATABASE_def VERTEX_AI_def ALLOYDB_def

datatype session_service =
    InMemorySessionService
  | DatabaseSessionEngine engine
  | DatabaseSessionUrl string
  | VertexAiSessionService "string option" "string option" "string option"

datatype memory_service =
    InMemoryMemoryService
  | VertexAiMemoryBankService "string option" "string option" "string option"

datatype task_store =
    InMemoryTaskStore
  | DatabaseTaskStore engine bool

datatype artifact_service =
    InMemoryArtifactService
  | CloudPathArtifactService string

text \<open>\<open>x or None\<close>.\<close>

definition or_none :: "string \<Rightarrow> string option" where
  "or_none x = (if x \<noteq> [] then Some x else None)"

definition selected :: "env \<Rightarrow> string \<Rightarrow> string" where
  "selected env key = lower (strip (env_default env key IN_MEMORY))"

text \<open>The engine of a configured database, or the error of the caller.\<close>

definition use_engine ::
  "(string \<Rightarrow> string result) \<Rightarrow> py_error \<Rightarrow> database option \<Rightarrow> (engine \<Rightarrow> 'a) \<Rightarrow>
   'a result \<times> database option" where
  "use_engine mk err database build =
     (case database of
        None \<Rightarrow> (Inl err, database)
      | Some d \<Rightarrow>
          if \<not> config_enabled (dt_config d) then (Inl err, database)
          else (case get_engine mk d of
                  (Inl e, d') \<Rightarrow> (Inl e, Some d')
                | (Inr e, d') \<Rightarrow> (Inr (build e), Some d')))"

definition unknown_backend :: "string \<Rightarrow> string \<Rightarrow> string list \<Rightarrow> py_error" where
  "unknown_backend key backend expected =
     ValueError (''Unknown '' @ key @ ''='' @ repr backend @ ''; expected one of '' @
       join '', '' (map repr expected) @ ''.'')"

definition needs_database :: "string \<Rightarrow> string \<Rightarrow> py_error" where
  "needs_database key backend =
     ValueError (key @ ''='' @ backend @ '' requires a configured '' @
       ''database; set DB_BACKEND=alloydb (see app/cluster/db.py).'')"

definition build_session_service ::
  "(string \<Rightarrow> string result) \<Rightarrow> env \<Rightarrow> string \<Rightarrow> string \<Rightarrow> database option \<Rightarrow>
   session_service result \<times> database option" where
  "build_session_service mk env project location database =
     (let backend = selected env ''SESSION_BACKEND''
      in if backend = IN_MEMORY then (Inr InMemorySessionService, database)
         else if backend = ALLOYDB
         then use_engine mk (needs_database ''SESSION_BACKEND'' ALLOYDB) database DatabaseSessionEngine
         else if backend = DATABASE
         then (let db_url = strip (env_default env ''SESSION_DB_URL'' [])
               in if db_url = []
                  then (Inl (ValueError (''SESSION_BACKEND='' @ DATABASE @ '' requires SESSION_DB_URL '' @
                          ''to be set (e.g. a Cloud SQL connection URL).'')), database)
                  else (Inr (DatabaseSessionUrl db_url), database))
         else if backend = VERTEX_AI
         then (Inr (VertexAiSessionService (or_none project) (or_none location)
                 (or_none (env_default env ''AGENT_ENGINE_ID'' []))), database)
         else (Inl (unknown_backend ''SESSION_BACKEND'' backend [IN_MEMORY, ALLOYDB, DATABASE, VERTEX_AI]), database))"

definition build_memory_service :: "env \<Rightarrow> string \<Rightarrow> string \<Rightarrow> memory_service result" where
  "build_memory_service env project location =
     (let backend = selected env ''MEMORY_BACKEND''
      in if backend = IN_MEMORY then Inr InMemoryMemoryService
         else if backend = VERTEX_AI
         then Inr (VertexAiMemoryBankService (or_none project) (or_none location)
                (or_none (env_default env ''AGENT_ENGINE_ID'' [])))
         else Inl (unknown_backend ''MEMORY_BACKEND'' backend [IN_MEMORY, VERTEX_AI]))"

definition build_task_store ::
  "(string \<Rightarrow> string result) \<Rightarrow> env \<Rightarrow> database option \<Rightarrow> task_store result \<times> database option" where
  "build_task_store mk env database =
     (let backend = selected env ''TASK_STORE_BACKEND''
      in if backend = IN_MEMORY then (Inr InMemoryTaskStore, database)
         else if backend = DATABASE
         then use_engine mk (needs_database ''TASK_STORE_BACKEND'' DATABASE) database
                (\<lambda>e. DatabaseTaskStore e False)
         else (Inl (unknown_backend ''TASK_STORE_BACKEND'' backend [IN_MEMORY, DATABASE]), database))"

definition build_artifact_service :: "env \<Rightarrow> artifact_service" where
  "build_artifact_service env =
     (let uri = strip (env_default env ''ARTIFACT_STORAGE_URI'' [])
      in if uri = [] then InMemoryArtifactService else CloudPathArtifactService uri)"

text \<open>\<open>build_case_store\<close>: which of the two stores, by its constructor.\<close>

datatype case_store_choice = InMemoryCases | DatabaseCases

definition build_case_store :: "database \<Rightarrow> case_store_choice" where
  "build_case_store d = (if config_enabled (dt_config d) then DatabaseCases else InMemoryCases)"

section \<open>Startup\<close>

text \<open>The services \<open>app/agent.py\<close> resolves, in its order, over the one shared database.\<close>

record services =
  sv_session :: session_service
  sv_memory :: memory_service
  sv_artifact :: artifact_service
  sv_task :: task_store
  sv_case :: case_store_choice
  sv_database :: database

text \<open>The providers of \<^verbatim>\<open>SessionModule\<close>: each hands the injected values to its builder.\<close>

definition provide_database :: "env \<Rightarrow> database result" where
  "provide_database env = build_database env"

definition provide_session_service ::
  "(string \<Rightarrow> string result) \<Rightarrow> env \<Rightarrow> string \<Rightarrow> string \<Rightarrow> database \<Rightarrow> session_service result \<times> database option" where
  "provide_session_service mk env project location database =
     build_session_service mk env project location (Some database)"

definition provide_case_store :: "database \<Rightarrow> case_store_choice" where
  "provide_case_store database = build_case_store database"

definition provide_task_store ::
  "(string \<Rightarrow> string result) \<Rightarrow> env \<Rightarrow> database option \<Rightarrow> task_store result \<times> database option" where
  "provide_task_store mk env database = build_task_store mk env database"

definition provide_memory_service :: "env \<Rightarrow> string \<Rightarrow> string \<Rightarrow> memory_service result" where
  "provide_memory_service env project location = build_memory_service env project location"

definition provide_artifact_service :: "env \<Rightarrow> artifact_service" where
  "provide_artifact_service env = build_artifact_service env"

lemmas provider_defs = provide_database_def provide_session_service_def provide_case_store_def
  provide_task_store_def provide_memory_service_def provide_artifact_service_def

definition start_services ::
  "(string \<Rightarrow> string result) \<Rightarrow> env \<Rightarrow> string \<Rightarrow> string \<Rightarrow> services result" where
  "start_services mk env project location =
     bind_result (provide_database env) (\<lambda>d0.
       (case provide_session_service mk env project location d0 of
          (Inl e, _) \<Rightarrow> Inl e
        | (Inr session, od1) \<Rightarrow>
            bind_result (provide_memory_service env project location) (\<lambda>memory.
              (case provide_task_store mk env od1 of
                 (Inl e, _) \<Rightarrow> Inl e
               | (Inr task, od2) \<Rightarrow>
                   Inr \<lparr>sv_session = session, sv_memory = memory, sv_artifact = provide_artifact_service env,
                        sv_task = task, sv_case = provide_case_store (the od2), sv_database = the od2\<rparr>))))"

fun session_engine :: "session_service \<Rightarrow> engine option" where
  "session_engine (DatabaseSessionEngine e) = Some e"
| "session_engine _ = None"

fun task_engine :: "task_store \<Rightarrow> engine option" where
  "task_engine (DatabaseTaskStore e c) = Some e"
| "task_engine _ = None"

lemma use_engine_Inr:
  assumes "use_engine mk err (Some d) build = (Inr x, od)"
  shows "\<exists>e d'. get_engine mk d = (Inr e, d') \<and> x = build e \<and> od = Some d' \<and> dt_engine d' = Some e"
  using assms
  by (auto simp: use_engine_def split: if_splits prod.splits sum.splits dest!: engine_memo.fill)

lemma session_engine_shared:
  assumes "build_session_service mk env p l (Some d) = (Inr s, od)"
  shows "\<exists>d'. od = Some d' \<and> (\<forall>e. session_engine s = Some e \<longrightarrow> dt_engine d' = Some e)"
proof (cases "selected env ''SESSION_BACKEND'' = ALLOYDB")
  case True
  then have "use_engine mk (needs_database ''SESSION_BACKEND'' ALLOYDB) (Some d) DatabaseSessionEngine = (Inr s, od)"
    using assms by (simp add: build_session_service_def Let_def service_defs)
  from use_engine_Inr [OF this] show ?thesis by auto
next
  case False
  with assms have "od = Some d \<and> session_engine s = None"
    by (auto simp: build_session_service_def Let_def split: if_splits)
  then show ?thesis by simp
qed

lemma task_engine_shared:
  assumes "build_task_store mk env (Some d) = (Inr s, od)"
  shows "\<exists>d'. od = Some d' \<and> (\<forall>e. dt_engine d = Some e \<longrightarrow> dt_engine d' = Some e) \<and>
    (\<forall>e. task_engine s = Some e \<longrightarrow> dt_engine d' = Some e)"
proof -
  have "dt_engine d' = Some e0" if "get_engine mk d = (Inr e, d')" "dt_engine d = Some e0" for e d' e0
    using that by (auto simp: get_engine_def split: if_splits)
  note keep = this
  show ?thesis
  proof (cases "selected env ''TASK_STORE_BACKEND'' = DATABASE")
    case True
    then have "use_engine mk (needs_database ''TASK_STORE_BACKEND'' DATABASE) (Some d)
        (\<lambda>e. DatabaseTaskStore e False) = (Inr s, od)"
      using assms by (simp add: build_task_store_def Let_def service_defs)
    from use_engine_Inr [OF this] keep show ?thesis by fastforce
  next
    case False
    with assms have "od = Some d \<and> task_engine s = None"
      by (auto simp: build_task_store_def Let_def split: if_splits)
    then show ?thesis by simp
  qed
qed

text \<open>Whatever the services chosen, those that use the shared database use one engine.\<close>

lemma start_services_one_engine:
  assumes "start_services mk env p l = Inr sv"
  shows "(\<forall>e. session_engine (sv_session sv) = Some e \<longrightarrow> dt_engine (sv_database sv) = Some e) \<and>
    (\<forall>e. task_engine (sv_task sv) = Some e \<longrightarrow> dt_engine (sv_database sv) = Some e)"
proof -
  from assms obtain d0 where a: "(case build_session_service mk env p l (Some d0) of
          (Inl e, _) \<Rightarrow> Inl e
        | (Inr session, od1) \<Rightarrow>
            bind_result (build_memory_service env p l) (\<lambda>memory.
              (case build_task_store mk env od1 of
                 (Inl e, _) \<Rightarrow> Inl e
               | (Inr task, od2) \<Rightarrow>
                   Inr \<lparr>sv_session = session, sv_memory = memory, sv_artifact = build_artifact_service env,
                        sv_task = task, sv_case = build_case_store (the od2), sv_database = the od2\<rparr>))) = Inr sv"
    unfolding start_services_def provider_defs bind_result_Inr_iff by blast
  obtain rs od1 where s0: "build_session_service mk env p l (Some d0) = (rs, od1)" by fastforce
  with a obtain session where rs: "rs = Inr session" by (cases rs) auto
  note s = s0 [unfolded rs]
  obtain rt od2 where t0: "build_task_store mk env od1 = (rt, od2)" by fastforce
  with a s obtain task where rt: "rt = Inr task" by (cases rt) (auto simp: bind_result_Inr_iff)
  note t = t0 [unfolded rt]
  from a s t have sv: "sv_session sv = session" "sv_task sv = task" "sv_database sv = the od2"
    by (auto simp: bind_result_Inr_iff)
  from session_engine_shared [OF s] obtain d1 where d1: "od1 = Some d1"
    "\<forall>e. session_engine session = Some e \<longrightarrow> dt_engine d1 = Some e" by blast
  from task_engine_shared [OF t [unfolded d1(1)]] d1 sv show ?thesis by auto
qed

section \<open>One engine\<close>

text \<open>After start-up, the session service and the task store that use a database use the one engine the shared database holder keeps.\<close>

theorem services_share_one_engine:
  assumes "start_services mk env p l = Inr sv"
  shows "(\<forall>e. session_engine (sv_session sv) = Some e \<longrightarrow> dt_engine (sv_database sv) = Some e) \<and>
    (\<forall>e. task_engine (sv_task sv) = Some e \<longrightarrow> dt_engine (sv_database sv) = Some e)"
  using assms by (rule start_services_one_engine)

definition demo_services :: services where
  "demo_services = \<lparr>sv_session = DatabaseSessionEngine demo_engine, sv_memory = InMemoryMemoryService,
     sv_artifact = InMemoryArtifactService, sv_task = DatabaseTaskStore demo_engine False,
     sv_case = DatabaseCases, sv_database = demo_opened_db\<rparr>"

lemma demo_start: "start_services (\<lambda>s. Inr s) demo_env ''p'' ''l'' = Inr demo_services"
  by code_simp

theorem services_share_one_engine_witness:
  "dt_engine (sv_database demo_services) = session_engine (sv_session demo_services) \<and>
   dt_engine (sv_database demo_services) = task_engine (sv_task demo_services)"
  using services_share_one_engine [OF demo_start] by (simp add: demo_services_def)

end
