(* ===== verification/App_Setup.thy ===== *)
theory App_Setup
  imports Agents Backends
begin

text \<open>
  How a process puts its services together: \<^verbatim>\<open>app_utils/services.py\<close> and the registrations of
  \<^verbatim>\<open>fast_api_app.py\<close> (which session and artifact services the web routes get), the lifespan
  (what the Runner gets, what is closed at shutdown), and \<^verbatim>\<open>app_utils/a2a.py\<close> (where the
  agent card is served). Two in-memory services are two stores, so a service is named by who built
  it: the injector, or the helper of \<^verbatim>\<open>services.py\<close>.
\<close>

section \<open>The shared services\<close>

datatype shared_session =
    SessionFromUri string
  | VertexSession "string option" "string option" string
  | OwnInMemorySession

datatype shared_artifact = GcsArtifacts string | OwnInMemoryArtifacts

definition env_given :: "env \<Rightarrow> string \<Rightarrow> string option" where
  "env_given env k = (case dict_get env k of None \<Rightarrow> None | Some v \<Rightarrow> if v = [] then None else Some v)"

definition get_session_service :: "env \<Rightarrow> shared_session" where
  "get_session_service env =
     (case env_given env ''SESSION_SERVICE_URI'' of
        Some uri \<Rightarrow> SessionFromUri uri
      | None \<Rightarrow>
          (case env_given env ''GOOGLE_CLOUD_AGENT_ENGINE_ID'' of
             Some engine_id \<Rightarrow>
               VertexSession (dict_get env ''GOOGLE_CLOUD_PROJECT'')
                 (case env_given env ''GOOGLE_CLOUD_AGENT_ENGINE_LOCATION'' of
                    Some l \<Rightarrow> Some l
                  | None \<Rightarrow> dict_get env ''GOOGLE_CLOUD_LOCATION'')
                 engine_id
           | None \<Rightarrow> OwnInMemorySession))"

definition get_artifact_service :: "env \<Rightarrow> shared_artifact" where
  "get_artifact_service env =
     (case env_given env ''LOGS_BUCKET_NAME'' of Some bucket \<Rightarrow> GcsArtifacts bucket | None \<Rightarrow> OwnInMemoryArtifacts)"

datatype session_handle = InjectedSession session_service | SharedSession shared_session
datatype artifact_handle = InjectedArtifacts artifact_service | SharedArtifacts shared_artifact

text \<open>
  The registry's \<open>shared\<close> scheme: first the helpers, then, when a database or a storage
  location is configured, the injector's services instead.
\<close>

record registry =
  rg_session :: "services \<Rightarrow> session_handle"
  rg_artifact :: "services \<Rightarrow> artifact_handle"

definition services_registry :: "env \<Rightarrow> registry" where
  "services_registry env =
     \<lparr>rg_session = (\<lambda>sv. SharedSession (get_session_service env)),
      rg_artifact = (\<lambda>sv. SharedArtifacts (get_artifact_service env))\<rparr>"

definition DATABASE_CONFIGURED :: "env \<Rightarrow> bool result" where
  "DATABASE_CONFIGURED env = bind_result (database_from_env env []) (\<lambda>c. Inr (config_enabled c))"

definition register_session :: "bool \<Rightarrow> registry \<Rightarrow> registry" where
  "register_session configured R =
     (if configured then R\<lparr>rg_session := (\<lambda>sv. InjectedSession (sv_session sv))\<rparr> else R)"

definition register_artifact :: "env \<Rightarrow> registry \<Rightarrow> registry" where
  "register_artifact env R =
     (if strip (env_default env ''ARTIFACT_STORAGE_URI'' []) \<noteq> []
      then R\<lparr>rg_artifact := (\<lambda>sv. InjectedArtifacts (sv_artifact sv))\<rparr> else R)"

definition app_registry :: "env \<Rightarrow> registry result" where
  "app_registry env =
     bind_result (DATABASE_CONFIGURED env) (\<lambda>configured.
       Inr (register_artifact env (register_session configured (services_registry env))))"

definition allow_origins :: "env \<Rightarrow> string list option" where
  "allow_origins env =
     (case env_given env ''ALLOW_ORIGINS'' of None \<Rightarrow> None | Some s \<Rightarrow> Some (split_on CHR '','' s))"

section \<open>The agent card\<close>

record a2a_routes =
  rt_card_url :: string
  rt_rpc_url :: string
  rt_extended_card_url :: string
  rt_advertised_url :: string
  rt_agent_version :: string
  rt_capabilities :: "bool \<times> string list"

definition ADK_AGENT_EXECUTOR_EXTENSION_URI :: string where
  "ADK_AGENT_EXECUTOR_EXTENSION_URI = ''https://google.github.io/adk-docs/a2a/a2a-extension/''"

text \<open>Capabilities: streaming, and the URIs of the extensions.\<close>

definition default_capabilities :: "bool \<times> string list" where
  "default_capabilities = (True, [ADK_AGENT_EXECUTOR_EXTENSION_URI])"

definition attach_a2a_routes ::
  "string \<Rightarrow> string \<Rightarrow> env \<Rightarrow> string \<Rightarrow> (bool \<times> string list) option \<Rightarrow> string option \<Rightarrow> string option \<Rightarrow> a2a_routes" where
  "attach_a2a_routes card_path extended_path env rpc_path capabilities agent_version app_url =
     (let resolved_app_url = (if app_url \<noteq> None \<and> app_url \<noteq> Some [] then the app_url
                              else env_default env ''APP_URL'' ''http://0.0.0.0:8000'');
          resolved_version = (if agent_version \<noteq> None \<and> agent_version \<noteq> Some [] then the agent_version
                              else env_default env ''AGENT_VERSION'' ''0.1.0'')
      in \<lparr>rt_card_url = rpc_path @ card_path, rt_rpc_url = rpc_path,
          rt_extended_card_url = rpc_path @ extended_path,
          rt_advertised_url = resolved_app_url @ rpc_path, rt_agent_version = resolved_version,
          rt_capabilities = (case capabilities of None \<Rightarrow> default_capabilities | Some c \<Rightarrow> c)\<rparr>)"

section \<open>The lifespan\<close>

definition APP_NAME :: string where "APP_NAME = ''app''"

record runtime =
  rn_session :: session_handle
  rn_artifact :: artifact_handle
  rn_case :: case_store_choice
  rn_task :: task_store
  rn_auto_create_session :: bool
  rn_routes :: a2a_routes

definition lifespan_enter :: "string \<Rightarrow> string \<Rightarrow> env \<Rightarrow> services \<Rightarrow> runtime" where
  "lifespan_enter card_path extended_path env sv =
     \<lparr>rn_session = InjectedSession (sv_session sv), rn_artifact = InjectedArtifacts (sv_artifact sv),
      rn_case = sv_case sv, rn_task = sv_task sv, rn_auto_create_session = True,
      rn_routes = attach_a2a_routes card_path extended_path env (''/a2a/'' @ APP_NAME) None None None\<rparr>"

definition lifespan_exit :: "services \<Rightarrow> services" where
  "lifespan_exit sv = sv\<lparr>sv_database := aclose (sv_database sv)\<rparr>"

section \<open>The tools with fixed answers\<close>

definition echo :: "string \<Rightarrow> string" where
  "echo txt = ''[shared] '' @ txt"

definition web_search :: "string \<Rightarrow> (string, string) dict" where
  "web_search query =
     [(''status'', ''ok''), (''query'', query),
      (''result'', ''No live search configured; replace web_search to answer: '' @ query)]"

section \<open>What holds\<close>

text \<open>The web routes and the Runner: which services they share.\<close>

lemma registry_shares:
  assumes "app_registry env = Inr R"
  shows "\<exists>c. database_from_env env [] = Inr c \<and>
    (rg_session R sv = rn_session (lifespan_enter card_path extended_path env' sv)) = config_enabled c \<and>
    (rg_artifact R sv = rn_artifact (lifespan_enter card_path extended_path env' sv)) =
      (build_artifact_service env \<noteq> InMemoryArtifactService)"
  using assms
  by (auto simp: app_registry_def DATABASE_CONFIGURED_def result_simps register_artifact_def register_session_def
      services_registry_def lifespan_enter_def build_artifact_service_def Let_def)

text \<open>The web routes use the Runner's own session service exactly when a database is configured, and its artifact service exactly when a storage URI is.\<close>

theorem web_routes_share_the_session_iff_database:
  assumes "app_registry env = Inr R"
  shows "\<exists>c. database_from_env env [] = Inr c \<and>
    (rg_session R sv = rn_session (lifespan_enter card_path extended_path env sv)) = config_enabled c \<and>
    (rg_artifact R sv = rn_artifact (lifespan_enter card_path extended_path env sv)) =
      (build_artifact_service env \<noteq> InMemoryArtifactService)"
  using assms by (rule registry_shares)

theorem web_routes_share_the_session_iff_database_witness:
  "\<exists>R. app_registry [] = Inr R \<and>
     (\<forall>sv. rg_session R sv \<noteq> rn_session (lifespan_enter ''/c'' ''/e'' [] sv))"
proof -
  have "\<not> isl (database_from_env [] [])" "\<not> config_enabled (projr (database_from_env [] []))" by code_simp+
  then obtain c where c: "database_from_env [] [] = Inr c" "\<not> config_enabled c"
    by (cases "database_from_env [] []") auto
  then have "\<exists>R. app_registry [] = Inr R" by (simp add: app_registry_def DATABASE_CONFIGURED_def)
  then obtain R where R: "app_registry [] = Inr R" by blast
  have "rg_session R sv \<noteq> rn_session (lifespan_enter ''/c'' ''/e'' [] sv)" for sv
    using web_routes_share_the_session_iff_database [OF R, of sv "''/c''" "''/e''"] c by auto
  with R show ?thesis by blast
qed

lemma default_rpc_path:
  "dict_get env ''A2A_RPC_PATH'' = None \<Longrightarrow> cc_rpc_path (provide_config env) = DEFAULT_RPC_PATH"
  by (simp add: provide_config_def cluster_from_env_def Let_def normalize_rpc_path_def)

text \<open>With the default RPC path, the address at which an agent looks for a peer's card is the peer's base URL followed by the path at which every agent serves its card.\<close>

theorem card_is_served_where_peers_look:
  assumes "dict_get env ''A2A_RPC_PATH'' = None"
  shows "card_url (provide_resolver card_path (provide_config env)) peer =
    peer_base_url peer @ rt_card_url (rn_routes (lifespan_enter card_path extended_path peer_env sv)) \<and>
    rt_extended_card_url (rn_routes (lifespan_enter card_path extended_path peer_env sv)) =
      cc_rpc_path (provide_config env) @ extended_path"
  using default_rpc_path [OF assms]
  by (simp add: card_url_def provide_resolver_def lifespan_enter_def attach_a2a_routes_def Let_def APP_NAME_def
      DEFAULT_RPC_PATH_def)

theorem card_is_served_where_peers_look_witness:
  "card_url (provide_resolver ''/card'' (provide_config [])) \<lparr>peer_name = ''math'', peer_base_url = ''http://m''\<rparr> =
   ''http://m/a2a/app/card''"
  using card_is_served_where_peers_look [of "[]" "''/card''" "\<lparr>peer_name = ''math'', peer_base_url = ''http://m''\<rparr>"]
  by (simp add: lifespan_enter_def attach_a2a_routes_def APP_NAME_def Let_def)

lemma lifespan_closes_the_pool: "dt_engine (sv_database (lifespan_exit sv)) = None"
  using aclose_empty by (simp add: lifespan_exit_def)

end
