(* ===== verification/Observability.thy ===== *)
theory Observability
  imports Py_Values
begin

text \<open>
  \<^verbatim>\<open>src/app/shared/logging.py\<close>, \<^verbatim>\<open>telemetry.py\<close> and \<^verbatim>\<open>observability.py\<close>: what a log record
  becomes in Cloud Logging, how logging is configured, and which trace exporter is chosen. The
  standard library's logging state (the root logger and the named loggers) is modelled; loguru and
  OpenTelemetry are third-party: the levels loguru knows are a parameter, and what the code asks
  OpenTelemetry to install is recorded as the list of its calls.
\<close>

section \<open>Trace ids\<close>

record span_context =
  sp_valid :: bool
  sp_trace_id :: nat
  sp_span_id :: nat

fun hex_str :: "nat \<Rightarrow> string" where
  "hex_str n = (if n < 16 then [hex_digit n] else hex_str (n div 16) @ [hex_digit (n mod 16)])"

declare hex_str.simps [simp del]

text \<open>\<open>format(n, "0<w>x")\<close>.\<close>

definition hex_padded :: "nat \<Rightarrow> nat \<Rightarrow> string" where
  "hex_padded w n = replicate (w - length (hex_str n)) (CHR ''0'') @ hex_str n"

definition current_trace_ids :: "span_context \<Rightarrow> string \<times> string" where
  "current_trace_ids ctx =
     (if sp_valid ctx then (hex_padded 32 (sp_trace_id ctx), hex_padded 16 (sp_span_id ctx)) else ([], []))"

section \<open>Records\<close>

definition GCP_SEVERITY :: "(string, string) dict" where
  "GCP_SEVERITY =
     [(''TRACE'', ''DEBUG''), (''DEBUG'', ''DEBUG''), (''INFO'', ''INFO''), (''SUCCESS'', ''NOTICE''),
      (''WARNING'', ''WARNING''), (''ERROR'', ''ERROR''), (''CRITICAL'', ''CRITICAL'')]"

definition gcp_severity :: "string \<Rightarrow> string" where
  "gcp_severity level_name = (case dict_get GCP_SEVERITY (upper level_name) of None \<Rightarrow> ''DEFAULT'' | Some s \<Rightarrow> s)"

definition trace_field :: "string \<Rightarrow> string \<Rightarrow> string" where
  "trace_field project trace_id =
     (if project \<noteq> [] then ''projects/'' @ project @ ''/traces/'' @ trace_id else trace_id)"

text \<open>A loguru record: its exception, if any, is the text of the formatted traceback.\<close>

record log_record =
  lr_level :: string
  lr_message :: string
  lr_time :: string
  lr_file :: string
  lr_line :: int
  lr_function :: string
  lr_extra :: json_dict
  lr_exception :: "string option"

definition patch :: "string \<Rightarrow> span_context \<Rightarrow> log_record \<Rightarrow> log_record" where
  "patch project ctx r =
     (case current_trace_ids ctx of
        (trace_id, span_id) \<Rightarrow>
          r\<lparr>lr_extra :=
              dict_set (dict_set (dict_set (lr_extra r) ''trace_id'' (JStr trace_id)) ''span_id'' (JStr span_id))
                ''gcp_project'' (JStr project)\<rparr>)"

definition pop_field :: "json_dict \<Rightarrow> string \<Rightarrow> json \<times> json_dict" where
  "pop_field d k = (case dict_get d k of None \<Rightarrow> JStr [] | Some v \<Rightarrow> v, AList.delete k d)"

definition build_gcp_payload :: "log_record \<Rightarrow> json_dict" where
  "build_gcp_payload r =
     (case pop_field (lr_extra r) ''trace_id'' of (trace_id, e1) \<Rightarrow>
      case pop_field e1 ''span_id'' of (span_id, e2) \<Rightarrow>
      case pop_field e2 ''gcp_project'' of (project, extra) \<Rightarrow>
        [(''severity'', JStr (gcp_severity (lr_level r))), (''message'', JStr (lr_message r)),
         (''timestamp'', JStr (lr_time r)),
         (''logging.googleapis.com/sourceLocation'',
            JObj [(''file'', JStr (lr_file r)), (''line'', JStr (int_str (lr_line r))),
                  (''function'', JStr (lr_function r))])] @
        (if truthy trace_id
         then [(''logging.googleapis.com/trace'',
                  if truthy project then JStr (trace_field (py_str project) (py_str trace_id)) else trace_id),
               (''logging.googleapis.com/spanId'', span_id),
               (''logging.googleapis.com/trace_sampled'', JBool True)]
         else []) @
        (if extra \<noteq> [] then [(''extra'', JObj extra)] else []) @
        (case lr_exception r of None \<Rightarrow> [] | Some txt \<Rightarrow> [(''exception'', JStr txt)]))"

text \<open>The JSON sink: one object and a line break, appended to the stream.\<close>

definition json_sink :: "string \<Rightarrow> log_record \<Rightarrow> string" where
  "json_sink stdout r = stdout @ dumps (JObj (build_gcp_payload r)) @ [newline]"

section \<open>Configuring logging\<close>

definition LOG_LEVEL_ENV :: string where "LOG_LEVEL_ENV = ''LOG_LEVEL''"
definition LOG_FORMAT_ENV :: string where "LOG_FORMAT_ENV = ''LOG_FORMAT''"
definition PROJECT_ENV :: string where "PROJECT_ENV = ''GOOGLE_CLOUD_PROJECT''"
definition DEFAULT_LOG_LEVEL :: string where "DEFAULT_LOG_LEVEL = ''INFO''"

definition STDLIB_LOGGERS_TO_RESET :: "string list" where
  "STDLIB_LOGGERS_TO_RESET =
     [''uvicorn'', ''uvicorn.error'', ''uvicorn.access'', ''gunicorn'', ''gunicorn.error'', ''fastapi'',
      ''google_adk'', ''google.adk'', ''google.genai'']"

definition env_or :: "(string, string) dict \<Rightarrow> string \<Rightarrow> string \<Rightarrow> string" where
  "env_or env k dflt = (case dict_get env k of None \<Rightarrow> dflt | Some v \<Rightarrow> v)"

definition use_json :: "bool option \<Rightarrow> (string, string) dict \<Rightarrow> bool \<Rightarrow> bool" where
  "use_json explicit env stderr_isatty =
     (case explicit of
        Some b \<Rightarrow> b
      | None \<Rightarrow>
          (let fmt = lower (strip (env_or env LOG_FORMAT_ENV []))
           in if fmt = ''json'' then True else if fmt = ''console'' then False else \<not> stderr_isatty))"

text \<open>
  The handlers of a standard logger are named by their class. The level names the standard library
  takes are its own; those loguru takes are the parameter \<open>loguru\<close>.
\<close>

record py_logger =
  pl_handlers :: "string list"
  pl_propagate :: bool

datatype sink_kind = JsonStdout | ConsoleStderr | OtherSink string

record logging =
  lg_configured :: bool
  lg_root_handlers :: "string list"
  lg_root_level :: string
  lg_loggers :: "(string, py_logger) dict"
  lg_project :: "string option"
  lg_sinks :: "(sink_kind \<times> string) list"

definition STDLIB_LEVELS :: "string list" where
  "STDLIB_LEVELS = [''CRITICAL'', ''FATAL'', ''ERROR'', ''WARN'', ''WARNING'', ''INFO'', ''DEBUG'', ''NOTSET'']"

definition basic_config :: "string \<Rightarrow> string \<Rightarrow> logging \<Rightarrow> unit result \<times> logging" where
  "basic_config handler level L =
     (let L1 = L\<lparr>lg_root_handlers := [handler]\<rparr>
      in if level \<in> set STDLIB_LEVELS then (Inr (), L1\<lparr>lg_root_level := level\<rparr>)
         else (Inl (ValueError (''Unknown level: '' @ repr level)), L1))"

definition reset_logger :: "string \<Rightarrow> logging \<Rightarrow> logging" where
  "reset_logger name L = L\<lparr>lg_loggers := dict_set (lg_loggers L) name \<lparr>pl_handlers = [], pl_propagate = True\<rparr>\<rparr>"

definition add_sink :: "(string \<Rightarrow> bool) \<Rightarrow> sink_kind \<Rightarrow> string \<Rightarrow> logging \<Rightarrow> unit result \<times> logging" where
  "add_sink loguru kind level L =
     (if loguru level then (Inr (), L\<lparr>lg_sinks := lg_sinks L @ [(kind, level)]\<rparr>)
      else (Inl (ValueError (''Level '' @ repr level @ '' does not exist'')), L))"

definition configure_logging ::
  "(string \<Rightarrow> bool) \<Rightarrow> (string, string) dict \<Rightarrow> bool \<Rightarrow> string \<Rightarrow> string option \<Rightarrow> bool option \<Rightarrow> bool \<Rightarrow>
   logging \<Rightarrow> unit result \<times> logging" where
  "configure_logging loguru env stderr_isatty project level json_logs force L =
     (if lg_configured L \<and> \<not> force then (Inr (), L)
      else
        (let project1 = (if project \<noteq> [] then project else env_or env PROJECT_ENV []);
             level0 = (if level \<noteq> None \<and> level \<noteq> Some [] then the level
                       else if env_or env LOG_LEVEL_ENV [] \<noteq> [] then env_or env LOG_LEVEL_ENV []
                       else DEFAULT_LOG_LEVEL);
             level1 = upper level0
         in case basic_config ''InterceptHandler'' level1 L of
              (Inl e, L1) \<Rightarrow> (Inl e, L1)
            | (Inr _, L1) \<Rightarrow>
                (let L2 = fold reset_logger STDLIB_LOGGERS_TO_RESET L1;
                     L3 = L2\<lparr>lg_project := Some project1, lg_sinks := []\<rparr>
                 in case add_sink loguru (if use_json json_logs env stderr_isatty then JsonStdout else ConsoleStderr)
                           level1 L3 of
                      (Inl e, L4) \<Rightarrow> (Inl e, L4)
                    | (Inr _, L4) \<Rightarrow> (Inr (), L4\<lparr>lg_configured := True\<rparr>))))"

text \<open>
  \<^verbatim>\<open>InterceptHandler.emit\<close>: the level is passed by name when loguru knows it and by number
  otherwise; the depth counts the frames of the logging module. What it passes on is the result.
\<close>

datatype level_arg = Named string | Numbered int

definition intercept_emit ::
  "(string \<Rightarrow> bool) \<Rightarrow> string \<Rightarrow> string list \<Rightarrow> string \<Rightarrow> int \<Rightarrow> string \<Rightarrow> nat \<times> level_arg \<times> string" where
  "intercept_emit loguru logging_file frames levelname levelno message =
     (2 + length (takeWhile (\<lambda>f. f = logging_file) frames),
      if loguru levelname then Named levelname else Numbered levelno,
      message)"

section \<open>Tracing\<close>

definition OTLP_ENDPOINT_ENV :: string where "OTLP_ENDPOINT_ENV = ''OTEL_EXPORTER_OTLP_ENDPOINT''"
definition OTLP_TRACES_ENDPOINT_ENV :: string where
  "OTLP_TRACES_ENDPOINT_ENV = ''OTEL_EXPORTER_OTLP_TRACES_ENDPOINT''"
definition SERVICE_NAME_ENV :: string where "SERVICE_NAME_ENV = ''OTEL_SERVICE_NAME''"
definition DEFAULT_SERVICE_NAME :: string where "DEFAULT_SERVICE_NAME = ''adk-agent''"

datatype exporter_kind = Otlp | Cloud | NoExporter

definition select_exporter_kind :: "(string, string) dict \<Rightarrow> bool \<Rightarrow> exporter_kind" where
  "select_exporter_kind env has_adc =
     (if env_or env OTLP_ENDPOINT_ENV [] \<noteq> [] \<or> env_or env OTLP_TRACES_ENDPOINT_ENV [] \<noteq> [] then Otlp
      else if env_or env PROJECT_ENV [] \<noteq> [] \<or> has_adc then Cloud
      else NoExporter)"

text \<open>Probing the credentials: whatever the probe raises means there are none.\<close>

definition has_adc :: "unit result \<Rightarrow> bool" where
  "has_adc probe = (case probe of Inl _ \<Rightarrow> False | Inr _ \<Rightarrow> True)"

definition resource_service_name :: "(string, string) dict \<Rightarrow> string \<Rightarrow> string" where
  "resource_service_name env service_name =
     (if service_name \<noteq> [] then service_name
      else if env_or env SERVICE_NAME_ENV [] \<noteq> [] then env_or env SERVICE_NAME_ENV []
      else DEFAULT_SERVICE_NAME)"

text \<open>
  What is asked of OpenTelemetry and of ADK's set-up; a resource is named by its service. The two
  instrumentations are asked for and whatever they raise is swallowed.
\<close>

datatype otel_call =
    ProbeCredentials
  | SetPropagators "string list"
  | InstrumentHttpx
  | InstrumentFastApi
  | SetTracerProvider string
  | MaybeSetProviders "string list" string

definition instrument_http :: "otel_call list" where
  "instrument_http = [InstrumentHttpx]"

definition instrument_fastapi_app :: "otel_call list" where
  "instrument_fastapi_app = [InstrumentFastApi]"

text \<open>OpenTelemetry's own proxy until an SDK provider is installed.\<close>

datatype tracer_provider = ProxyProvider | SdkProvider

definition is_real_tracer_provider :: "tracer_provider \<Rightarrow> bool" where
  "is_real_tracer_provider p = (case p of SdkProvider \<Rightarrow> True | ProxyProvider \<Rightarrow> False)"

definition setup_provider :: "(string, string) dict \<Rightarrow> unit result \<Rightarrow> string \<Rightarrow> otel_call list" where
  "setup_provider env probe service_name =
     (let resource = resource_service_name env service_name;
          needs_adc = (env_or env OTLP_ENDPOINT_ENV [] = [] \<and> env_or env OTLP_TRACES_ENDPOINT_ENV [] = [] \<and>
                       env_or env PROJECT_ENV [] = []);
          kind = select_exporter_kind env (if needs_adc then has_adc probe else False)
      in (if needs_adc then [ProbeCredentials] else []) @
         (case kind of
            NoExporter \<Rightarrow> [SetTracerProvider resource]
          | Cloud \<Rightarrow> [MaybeSetProviders [''gcp''] resource]
          | Otlp \<Rightarrow> [MaybeSetProviders [] resource]))"

definition configure_tracing ::
  "(string, string) dict \<Rightarrow> (string, string) dict option \<Rightarrow> tracer_provider \<Rightarrow> unit result \<Rightarrow> string \<Rightarrow> bool \<Rightarrow> bool \<Rightarrow>
   otel_call list \<times> bool" where
  "configure_tracing environ env tracer probe service_name force configured =
     (if configured \<and> \<not> force then ([], configured)
      else
        (let env1 = (case env of None \<Rightarrow> environ | Some e \<Rightarrow> e)
         in ([SetPropagators [''tracecontext'', ''baggage'']] @ instrument_http @
               (if is_real_tracer_provider tracer then [] else setup_provider env1 probe service_name), True)))"

record observability =
  ob_logging :: logging
  ob_tracing_configured :: bool
  ob_otel_calls :: "otel_call list"

definition configure_observability ::
  "(string \<Rightarrow> bool) \<Rightarrow> (string, string) dict \<Rightarrow> bool \<Rightarrow> tracer_provider \<Rightarrow> unit result \<Rightarrow> string \<Rightarrow> string \<Rightarrow> string option \<Rightarrow>
   bool option \<Rightarrow> observability \<Rightarrow> unit result \<times> observability" where
  "configure_observability loguru environ stderr_isatty tracer probe project service_name log_level json_logs B =
     (let project1 = (if project \<noteq> [] then project else env_or environ PROJECT_ENV [])
      in case configure_logging loguru environ stderr_isatty project1 log_level json_logs False (ob_logging B) of
           (Inl e, L) \<Rightarrow> (Inl e, B\<lparr>ob_logging := L\<rparr>)
         | (Inr _, L) \<Rightarrow>
             (case configure_tracing environ None tracer probe service_name False (ob_tracing_configured B) of
                (calls, now_done) \<Rightarrow>
                  (Inr (), B\<lparr>ob_logging := L, ob_tracing_configured := now_done,
                             ob_otel_calls := ob_otel_calls B @ calls\<rparr>)))"

text \<open>A tracer is known by the name of its instrumentation scope; the injected one does not use the project.\<close>

datatype tracer = Tracer string

definition get_tracer :: "string \<Rightarrow> tracer" where
  "get_tracer name = Tracer name"

definition provide_tracer :: "string \<Rightarrow> tracer" where
  "provide_tracer project = get_tracer ''app''"

section \<open>Records reach Cloud Logging whole\<close>

lemma hex_str_length: "0 < k \<Longrightarrow> n < 16 ^ k \<Longrightarrow> length (hex_str n) \<le> k"
proof (induction k arbitrary: n)
  case (Suc k)
  show ?case
  proof (cases "n < 16")
    case False
    then have k: "0 < k" using Suc.prems by (cases k) auto
    have "n div 16 < 16 ^ k" using Suc.prems(2) by (simp add: less_mult_imp_div_less mult.commute)
    from Suc.IH [OF k this] show ?thesis using False by (subst hex_str.simps) simp
  qed (subst hex_str.simps, simp)
qed simp

lemma hex_padded_length: "0 < w \<Longrightarrow> n < 16 ^ w \<Longrightarrow> length (hex_padded w n) = w"
  using hex_str_length [of w n] by (simp add: hex_padded_def)

lemma dict_get_pop: "dict_get (snd (pop_field d k)) k' = (if k' = k then None else dict_get d k')"
  by (simp add: pop_field_def delete_conv')

lemma pop_present: "dict_get d k = Some v \<Longrightarrow> fst (pop_field d k) = v"
  by (simp add: pop_field_def)

text \<open>With a valid span, a log record written in it carries the span's ids as zero-padded hexadecimal of 32 and 16 digits, the trace id under the project's resource name.\<close>

theorem log_entry_is_linked_to_its_trace:
  assumes "sp_valid ctx" "sp_trace_id ctx < 2 ^ 128" "sp_span_id ctx < 2 ^ 64"
  shows "\<exists>t s. current_trace_ids ctx = (t, s) \<and> length t = 32 \<and> length s = 16 \<and>
    dict_get (build_gcp_payload (patch project ctx r)) ''logging.googleapis.com/trace'' = Some (JStr (trace_field project t)) \<and>
    dict_get (build_gcp_payload (patch project ctx r)) ''logging.googleapis.com/spanId'' = Some (JStr s)"
proof -
  define t where "t = hex_padded 32 (sp_trace_id ctx)"
  define s where "s = hex_padded 16 (sp_span_id ctx)"
  have len: "length t = 32" "length s = 16"
    using assms(2,3) hex_padded_length [of 32 "sp_trace_id ctx"] hex_padded_length [of 16 "sp_span_id ctx"]
    by (simp_all add: t_def s_def)
  then have t: "t \<noteq> []" by auto
  have ids: "current_trace_ids ctx = (t, s)" using assms(1) by (simp add: current_trace_ids_def t_def s_def)
  define e where "e = lr_extra (patch project ctx r)"
  have e: "dict_get e ''trace_id'' = Some (JStr t)" "dict_get e ''span_id'' = Some (JStr s)"
    "dict_get e ''gcp_project'' = Some (JStr project)"
    by (simp_all add: e_def patch_def ids)
  obtain e1 where e1: "pop_field e ''trace_id'' = (JStr t, e1)" using pop_present [OF e(1)] by (metis prod.collapse)
  have "dict_get e1 ''span_id'' = Some (JStr s)" "dict_get e1 ''gcp_project'' = Some (JStr project)"
    using dict_get_pop [of e "''trace_id''" "''span_id''"] dict_get_pop [of e "''trace_id''" "''gcp_project''"] e e1
    by simp_all
  note g1 = this
  obtain e2 where e2: "pop_field e1 ''span_id'' = (JStr s, e2)" using pop_present [OF g1(1)] by (metis prod.collapse)
  have "dict_get e2 ''gcp_project'' = Some (JStr project)"
    using dict_get_pop [of e1 "''span_id''" "''gcp_project''"] g1 e2 by simp
  then obtain e3 where e3: "pop_field e2 ''gcp_project'' = (JStr project, e3)"
    using pop_present by (metis prod.collapse)
  show ?thesis
    using ids len t e1 e2 e3
    by (intro exI [of _ t] exI [of _ s] conjI)
      (simp_all add: build_gcp_payload_def e_def [symmetric] py_str_def trace_field_def)
qed

definition demo_span :: span_context where
  "demo_span = \<lparr>sp_valid = True, sp_trace_id = 255, sp_span_id = 1\<rparr>"

definition demo_record :: log_record where
  "demo_record = \<lparr>lr_level = ''WARNING'', lr_message = ''hello'', lr_time = ''2026-08-17T00:00:00+00:00'',
     lr_file = ''app.py'', lr_line = 7, lr_function = ''f'', lr_extra = [], lr_exception = None\<rparr>"

theorem log_entry_is_linked_to_its_trace_witness:
  "\<exists>t s. current_trace_ids demo_span = (t, s) \<and> length t = 32 \<and>
    dict_get (build_gcp_payload (patch ''p'' demo_span demo_record)) ''logging.googleapis.com/trace'' =
      Some (JStr (''projects/p/traces/'' @ t))"
  using log_entry_is_linked_to_its_trace [of demo_span "''p''" demo_record]
  by (auto simp: demo_span_def trace_field_def)

lemma fold_json_sink:
  "foldl json_sink out rs = out @ concat (map (\<lambda>d. dumps (JObj d) @ [newline]) (map build_gcp_payload rs))"
  by (induction rs arbitrary: out) (simp_all add: json_sink_def del: dumps.simps)

text \<open>C32. Round trip: the text the JSON sink writes for a sequence of records splits into lines that parse back to exactly the payloads of the records, in order; no message text can forge a second entry.\<close>

theorem every_log_line_is_one_record:
  assumes "list_all (\<lambda>r. json_ok (JObj (build_gcp_payload r))) rs"
  shows "map loads (butlast (split_on newline (foldl json_sink [] rs))) = map (\<lambda>r. Inr (JObj (build_gcp_payload r))) rs"
proof -
  have "list_all (\<lambda>d. json_ok (JObj d)) (map build_gcp_payload rs)"
    using assms by (simp only: list_all_iff set_map) blast
  from json_line.stream_read_back [OF this] show ?thesis
    unfolding fold_json_sink by (simp only: append_Nil map_map comp_def)
qed

theorem every_log_line_is_one_record_witness:
  "map loads (butlast (split_on newline (foldl json_sink [] [demo_record, demo_record]))) =
   [Inr (JObj (build_gcp_payload demo_record)), Inr (JObj (build_gcp_payload demo_record))]"
proof -
  have "json_ok (JObj (build_gcp_payload demo_record))"
    by (simp add: build_gcp_payload_def demo_record_def pop_field_def gcp_severity_def GCP_SEVERITY_def upper_def
        upper_char_def is_lower_letter_def ascii_text_ok ascii_def int_str_def)
      (subst nat_str.simps, simp add: digit_char_def ascii_text_ok ascii_def)?
  then show ?thesis
    using every_log_line_is_one_record [of "[demo_record, demo_record]"] by (simp del: json_ok.simps dumps.simps)
qed

section \<open>Configuration\<close>

lemma reset_loggers:
  "lg_loggers (fold reset_logger names L) = fold (\<lambda>n d. dict_set d n \<lparr>pl_handlers = [], pl_propagate = True\<rparr>) names (lg_loggers L)"
  "lg_root_handlers (fold reset_logger names L) = lg_root_handlers L"
  "lg_configured (fold reset_logger names L) = lg_configured L"
  "lg_root_level (fold reset_logger names L) = lg_root_level L"
  by (induction names arbitrary: L) (simp_all add: reset_logger_def)

lemma fold_dict_set_get:
  "dict_get (fold (\<lambda>n d. dict_set d n x) names d) k = (if k \<in> set names then Some x else dict_get d k)"
  by (induction names arbitrary: d) auto

lemma basic_config_Inr:
  "basic_config h l L = (Inr x, M) \<Longrightarrow> M = L\<lparr>lg_root_handlers := [h], lg_root_level := l\<rparr>"
  unfolding basic_config_def Let_def by (cases "l \<in> set STDLIB_LEVELS") simp_all

lemma add_sink_Inr: "add_sink loguru k l L = (Inr x, M) \<Longrightarrow> M = L\<lparr>lg_sinks := lg_sinks L @ [(k, l)]\<rparr>"
  unfolding add_sink_def by (cases "loguru l") simp_all

lemma configure_logging_Inr:
  assumes "configure_logging loguru env tty project level json_logs force L = (Inr (), L')"
    and "force \<or> \<not> lg_configured L"
  obtains lvl project1 where
    "L' = (fold reset_logger STDLIB_LOGGERS_TO_RESET (L\<lparr>lg_root_handlers := [''InterceptHandler''], lg_root_level := lvl\<rparr>))
       \<lparr>lg_project := Some project1, lg_sinks := [(if use_json json_logs env tty then JsonStdout else ConsoleStderr, lvl)],
        lg_configured := True\<rparr>"
proof -
  have f: "\<not> (lg_configured L \<and> \<not> force)" using assms(2) by blast
  obtain lvl project1 L1 L4 where
    b: "basic_config ''InterceptHandler'' lvl L = (Inr (), L1)"
    and s: "add_sink loguru (if use_json json_logs env tty then JsonStdout else ConsoleStderr) lvl
       ((fold reset_logger STDLIB_LOGGERS_TO_RESET L1)\<lparr>lg_project := Some project1, lg_sinks := []\<rparr>) = (Inr (), L4)"
    and l: "L' = L4\<lparr>lg_configured := True\<rparr>"
    using assms(1) unfolding configure_logging_def if_not_P [OF f] Let_def
    by (fastforce split: prod.splits sum.splits)
  show thesis
    using that [of lvl project1] l add_sink_Inr [OF s] basic_config_Inr [OF b] by simp
qed

text \<open>A configuration that takes effect leaves one root handler, one sink of the chosen format and the listed standard loggers without handlers, touches no other logger, and makes every later call without \<^verbatim>\<open>force\<close> do nothing.\<close>

theorem logging_is_configured_once:
  assumes "configure_logging loguru env tty project level json_logs force L = (Inr (), L')"
    and "force \<or> \<not> lg_configured L"
  shows "lg_root_handlers L' = [''InterceptHandler''] \<and>
    map fst (lg_sinks L') = [if use_json json_logs env tty then JsonStdout else ConsoleStderr] \<and>
    (\<forall>name. dict_get (lg_loggers L') name =
       (if name \<in> set STDLIB_LOGGERS_TO_RESET then Some \<lparr>pl_handlers = [], pl_propagate = True\<rparr>
        else dict_get (lg_loggers L) name)) \<and>
    configure_logging loguru env2 tty2 project2 level2 json_logs2 False L' = (Inr (), L')"
proof -
  obtain lvl project1 where
    "L' = (fold reset_logger STDLIB_LOGGERS_TO_RESET (L\<lparr>lg_root_handlers := [''InterceptHandler''], lg_root_level := lvl\<rparr>))
       \<lparr>lg_project := Some project1, lg_sinks := [(if use_json json_logs env tty then JsonStdout else ConsoleStderr, lvl)],
        lg_configured := True\<rparr>"
    using assms by (rule configure_logging_Inr)
  then show ?thesis
    by (simp add: reset_loggers fold_dict_set_get configure_logging_def)
qed

definition demo_logging :: logging where
  "demo_logging = \<lparr>lg_configured = False, lg_root_handlers = [''StreamHandler''], lg_root_level = ''WARNING'',
     lg_loggers = [(''uvicorn'', \<lparr>pl_handlers = [''StreamHandler''], pl_propagate = False\<rparr>)],
     lg_project = None, lg_sinks = [(OtherSink ''stderr'', ''DEBUG'')]\<rparr>"

definition demo_levels :: "string \<Rightarrow> bool" where
  "demo_levels l \<longleftrightarrow> dict_get GCP_SEVERITY l \<noteq> None"

theorem logging_is_configured_once_witness:
  "map fst (lg_sinks (snd (configure_logging demo_levels [] False [] None None False demo_logging))) = [JsonStdout] \<and>
   dict_get (lg_loggers (snd (configure_logging demo_levels [] False [] None None False demo_logging))) ''uvicorn'' =
     Some \<lparr>pl_handlers = [], pl_propagate = True\<rparr>"
proof -
  let ?r = "configure_logging demo_levels [] False [] None None False demo_logging"
  have "fst ?r = Inr ()" by code_simp
  then have r: "?r = (Inr (), snd ?r)" by (metis prod.collapse)
  have f: "False \<or> \<not> lg_configured demo_logging" by (simp add: demo_logging_def)
  have j: "use_json None [] False = True" by code_simp
  have u: "''uvicorn'' \<in> set STDLIB_LOGGERS_TO_RESET" by (simp add: STDLIB_LOGGERS_TO_RESET_def)
  note c = logging_is_configured_once [OF r f]
  have "map fst (lg_sinks (snd ?r)) = [JsonStdout]" using c j by (simp only: if_True)
  moreover have "dict_get (lg_loggers (snd ?r)) ''uvicorn'' = Some \<lparr>pl_handlers = [], pl_propagate = True\<rparr>"
    using c u by (simp only: if_True)
  ultimately show ?thesis by (rule conjI)
qed

text \<open>
  A level that only one of the two libraries knows stops start-up: the standard library knows no
  \<open>TRACE\<close>; a level loguru does not know is refused after its sinks were removed.
\<close>

lemma trace_level_is_refused:
  "fst (configure_logging loguru [(''LOG_LEVEL'', ''trace'')] tty project None json_logs True L) =
   Inl (ValueError (''Unknown level: '' @ repr ''TRACE''))"
proof -
  have "upper ''trace'' = ''TRACE''" by code_simp
  then show ?thesis
    by (simp add: configure_logging_def env_or_def LOG_LEVEL_ENV_def basic_config_def STDLIB_LEVELS_def Let_def)
qed

lemma warn_level_loses_the_sinks:
  assumes "\<not> loguru ''WARN''"
  shows "\<exists>e L'. configure_logging loguru [(''LOG_LEVEL'', ''warn'')] tty project None json_logs True L = (Inl e, L') \<and>
    lg_sinks L' = []"
proof -
  have "upper ''warn'' = ''WARN''" by code_simp
  with assms show ?thesis
    by (simp add: configure_logging_def env_or_def LOG_LEVEL_ENV_def basic_config_def STDLIB_LEVELS_def add_sink_def Let_def)
qed

section \<open>Exporters\<close>

text \<open>Credentials are probed exactly when their presence decides the exporter, and what is installed is what an unconditional probe would have installed.\<close>

theorem skipping_the_probe_changes_nothing:
  "last (setup_provider env probe service_name) =
     (case select_exporter_kind env (has_adc probe) of
        NoExporter \<Rightarrow> SetTracerProvider (resource_service_name env service_name)
      | Cloud \<Rightarrow> MaybeSetProviders [''gcp''] (resource_service_name env service_name)
      | Otlp \<Rightarrow> MaybeSetProviders [] (resource_service_name env service_name)) \<and>
   (ProbeCredentials \<in> set (setup_provider env probe service_name)) =
     (select_exporter_kind env True \<noteq> select_exporter_kind env False)"
  by (auto simp: setup_provider_def select_exporter_kind_def Let_def)

lemma tracing_is_configured_once:
  "configure_tracing environ env tracer probe service_name False
     (snd (configure_tracing environ0 env0 tracer0 probe0 service_name0 force0 configured0)) = ([], True)"
  by (simp add: configure_tracing_def Let_def)

end
