(* ===== verification/Startup.thy ===== *)
theory Startup
  imports App_Setup Model_Selection Observability
begin

text \<open>
  How a process comes up: \<^verbatim>\<open>src/app/agent.py\<close>, which configures logging and tracing, resolves the
  models, the services and the agent from one injector, and \<^verbatim>\<open>src/app/fast_api_app.py\<close>, which
  imports it and builds the web application around it. Both run at import time, top to bottom; what
  raises there ends the process. The surroundings of a process (the logging library's levels, the
  terminal, the credentials, the model provider, the database driver, dotenv) are its platform.
\<close>

section \<open>The surroundings\<close>

record platform =
  pf_levels :: "string \<Rightarrow> bool"
  pf_stderr_isatty :: bool
  pf_tracer_provider :: tracer_provider
  pf_credentials :: "unit result"
  pf_logging_client :: "unit result"
  pf_list_models :: "nat \<Rightarrow> string option list result"
  pf_driver :: "string \<Rightarrow> string result"
  pf_card_path :: string
  pf_extended_card_path :: string
  pf_load_dotenv :: "env \<Rightarrow> env"

section \<open>The agent module\<close>

definition ModelModule :: model_module where
  "ModelModule = \<lparr>mm_project = None, mm_location = None, mm_fast = None, mm_balanced = None,
     mm_capable = None, mm_embedding = None\<rparr>"

definition provide_catalog :: "genai_client \<Rightarrow> catalog" where
  "provide_catalog client = ModelCatalog"

definition Models :: "gemini \<times> gemini \<times> gemini \<Rightarrow> gemini models" where
  "Models ms = (case ms of (fast, balanced, capable) \<Rightarrow>
     \<lparr>md_fast = fast, md_balanced = balanced, md_capable = capable\<rparr>)"

definition injected_models :: "platform \<Rightarrow> env \<Rightarrow> gemini models result" where
  "injected_models pf env =
     (let client = provide_genai_client (provide_project ModelModule env) (provide_location ModelModule env)
      in map_sum id Models (fst (provide_models (pf_list_models pf) ModelModule env (provide_catalog client))))"

definition service_name :: "env \<Rightarrow> string" where
  "service_name env =
     (case env_given env ''OTEL_SERVICE_NAME'' of Some n \<Rightarrow> n | None \<Rightarrow> env_default env ''AGENT_NAME'' [])"

record agent_app =
  ap_name :: string
  ap_root_agent :: "gemini llm_agent"
  ap_models :: "gemini models"
  ap_services :: services

definition agent_module :: "platform \<Rightarrow> env \<Rightarrow> observability \<Rightarrow> agent_app result \<times> observability" where
  "agent_module pf env B =
     (case configure_observability (pf_levels pf) env (pf_stderr_isatty pf) (pf_tracer_provider pf)
             (pf_credentials pf) [] (service_name env) None None B of
        (Inl e, B1) \<Rightarrow> (Inl e, B1)
      | (Inr _, B1) \<Rightarrow>
          (bind_result (injected_models pf env) (\<lambda>models.
           bind_result (start_services (pf_driver pf) env (provide_project ModelModule env)
               (provide_location ModelModule env)) (\<lambda>sv.
           bind_result (root_agent (pf_card_path pf) models env) (\<lambda>root.
             Inr \<lparr>ap_name = APP_NAME, ap_root_agent = root, ap_models = models, ap_services = sv\<rparr>))), B1))"

section \<open>The web application\<close>

definition SESSION_SERVICE_URI :: string where "SESSION_SERVICE_URI = ''shared://session''"
definition ARTIFACT_SERVICE_URI :: string where "ARTIFACT_SERVICE_URI = ''shared://artifact''"

record web_app =
  wa_web :: bool
  wa_session_service_uri :: string
  wa_artifact_service_uri :: string
  wa_allow_origins :: "string list option"
  wa_otel_to_cloud :: bool
  wa_title :: string
  wa_description :: string
  wa_registry :: registry
  wa_agent :: agent_app

definition get_fast_api_app :: "string list option \<Rightarrow> registry \<Rightarrow> agent_app \<Rightarrow> web_app" where
  "get_fast_api_app origins R A =
     \<lparr>wa_web = True, wa_session_service_uri = SESSION_SERVICE_URI,
      wa_artifact_service_uri = ARTIFACT_SERVICE_URI, wa_allow_origins = origins, wa_otel_to_cloud = True,
      wa_title = ''Multi-agent system (GKE)'',
      wa_description = ''API for interacting with the GKE multi-agent system'',
      wa_registry = R, wa_agent = A\<rparr>"

text \<open>
  Importing the module runs \<open>agent_module\<close> first, in the environment of the process; only what
  follows sees the variables that dotenv adds. The credentials and the logging client are resolved
  in between, and the application is instrumented for tracing at the end.
\<close>

definition fast_api_module :: "platform \<Rightarrow> env \<Rightarrow> observability \<Rightarrow> web_app result \<times> observability" where
  "fast_api_module pf env B =
     (case agent_module pf env B of
        (Inl e, B1) \<Rightarrow> (Inl e, B1)
      | (Inr A, B1) \<Rightarrow>
          (let env1 = pf_load_dotenv pf env
           in case bind_result (pf_credentials pf) (\<lambda>_. bind_result (pf_logging_client pf) (\<lambda>_. app_registry env1)) of
                Inl e \<Rightarrow> (Inl e, B1)
              | Inr R \<Rightarrow>
                  (Inr (get_fast_api_app (allow_origins env1) R A),
                   B1\<lparr>ob_otel_calls := ob_otel_calls B1 @ instrument_fastapi_app\<rparr>)))"

text \<open>The server enters the lifespan with the services of the agent module.\<close>

definition serve_process :: "platform \<Rightarrow> env \<Rightarrow> observability \<Rightarrow> (web_app \<times> runtime) result \<times> observability" where
  "serve_process pf env B =
     (case fast_api_module pf env B of (r, B1) \<Rightarrow>
        (map_sum id (\<lambda>W. (W, lifespan_enter (pf_card_path pf) (pf_extended_card_path pf) (pf_load_dotenv pf env)
                               (ap_services (wa_agent W)))) r, B1))"

section \<open>Feedback\<close>

record feedback =
  fb_score :: json
  fb_text :: "string option"
  fb_log_type :: string
  fb_service_name :: string
  fb_user_id :: string
  fb_session_id :: string

text \<open>The fields that may be absent, with their defaults; each id draws a UUID of its own.\<close>

definition Feedback ::
  "json \<Rightarrow> string option option \<Rightarrow> string option \<Rightarrow> string option \<Rightarrow> string \<Rightarrow> string \<Rightarrow> feedback" where
  "Feedback score text_given user session uuid1 uuid2 =
     \<lparr>fb_score = score, fb_text = (case text_given of None \<Rightarrow> Some [] | Some t \<Rightarrow> t),
      fb_log_type = ''feedback'', fb_service_name = ''mas-gke'',
      fb_user_id = (case user of None \<Rightarrow> uuid1 | Some u \<Rightarrow> u),
      fb_session_id = (case session of None \<Rightarrow> uuid2 | Some s \<Rightarrow> s)\<rparr>"

definition feedback_dump :: "feedback \<Rightarrow> json_dict" where
  "feedback_dump f =
     [(''score'', fb_score f), (''text'', case fb_text f of None \<Rightarrow> JNull | Some t \<Rightarrow> JStr t),
      (''log_type'', JStr (fb_log_type f)), (''service_name'', JStr (fb_service_name f)),
      (''user_id'', JStr (fb_user_id f)), (''session_id'', JStr (fb_session_id f))]"

text \<open>The entries of the cloud log: what was logged, and its severity.\<close>

definition collect_feedback ::
  "feedback \<Rightarrow> (json_dict \<times> string) list \<Rightarrow> (string, string) dict \<times> (json_dict \<times> string) list" where
  "collect_feedback f log = ([(''status'', ''success'')], log @ [(feedback_dump f, ''INFO'')])"

section \<open>A process that came up\<close>

lemma agent_module_Inr:
  assumes "agent_module pf env B = (Inr A, B1)"
  shows "start_services (pf_driver pf) env (provide_project ModelModule env) (provide_location ModelModule env) =
      Inr (ap_services A)"
    "root_agent (pf_card_path pf) (ap_models A) env = Inr (ap_root_agent A)"
    "ap_name A = APP_NAME" "ob_tracing_configured B1"
  using assms
  by (auto simp: agent_module_def configure_observability_def configure_tracing_def bind_result_Inr_iff Let_def
      split: sum.splits prod.splits if_splits)

lemma fast_api_module_Inr:
  assumes "fast_api_module pf env B = (Inr W, B1)"
  obtains B0 where "agent_module pf env B = (Inr (wa_agent W), B0)"
    "app_registry (pf_load_dotenv pf env) = Inr (wa_registry W)"
    "B1 = B0\<lparr>ob_otel_calls := ob_otel_calls B0 @ instrument_fastapi_app\<rparr>"
proof -
  obtain A B0 where a: "agent_module pf env B = (Inr A, B0)"
    using assms by (auto simp: fast_api_module_def split: prod.splits sum.splits)
  let ?r = "bind_result (pf_credentials pf) (\<lambda>_. bind_result (pf_logging_client pf) (\<lambda>_. app_registry (pf_load_dotenv pf env)))"
  obtain R where r: "?r = Inr R" using assms a by (cases ?r) (auto simp: fast_api_module_def Let_def)
  then have "app_registry (pf_load_dotenv pf env) = Inr R" by (auto simp: bind_result_Inr_iff)
  moreover have "wa_registry W = R" "wa_agent W = A" "B1 = B0\<lparr>ob_otel_calls := ob_otel_calls B0 @ instrument_fastapi_app\<rparr>"
    using assms a r by (auto simp: fast_api_module_def get_fast_api_app_def Let_def)
  ultimately show thesis using that a by simp
qed

lemma serve_process_Inr:
  assumes "serve_process pf env B = (Inr (W, rn), B1)"
  shows "fast_api_module pf env B = (Inr W, B1)"
    "rn = lifespan_enter (pf_card_path pf) (pf_extended_card_path pf) (pf_load_dotenv pf env) (ap_services (wa_agent W))"
  using assms by (auto simp: serve_process_def split: prod.splits) (case_tac x1; auto)+



text \<open>What dotenv adds to the environment changes neither the agent, nor the services it runs on, nor logging and tracing: they are all built before.\<close>

theorem dotenv_reaches_only_the_web_side:
  assumes "serve_process pf env B = (Inr (W, rn), B1)" "serve_process (pf\<lparr>pf_load_dotenv := f\<rparr>) env B = (Inr (W', rn'), B1')"
  shows "wa_agent W' = wa_agent W \<and> rn_session rn' = rn_session rn \<and> rn_artifact rn' = rn_artifact rn \<and>
    rn_case rn' = rn_case rn \<and> rn_task rn' = rn_task rn \<and> B1' = B1"
proof -
  note s = serve_process_Inr [OF assms(1)] and s' = serve_process_Inr [OF assms(2)]
  have "pf_levels (pf\<lparr>pf_load_dotenv := f\<rparr>) = pf_levels pf"
    "pf_stderr_isatty (pf\<lparr>pf_load_dotenv := f\<rparr>) = pf_stderr_isatty pf"
    "pf_tracer_provider (pf\<lparr>pf_load_dotenv := f\<rparr>) = pf_tracer_provider pf"
    "pf_credentials (pf\<lparr>pf_load_dotenv := f\<rparr>) = pf_credentials pf"
    "pf_list_models (pf\<lparr>pf_load_dotenv := f\<rparr>) = pf_list_models pf"
    "pf_driver (pf\<lparr>pf_load_dotenv := f\<rparr>) = pf_driver pf"
    "pf_card_path (pf\<lparr>pf_load_dotenv := f\<rparr>) = pf_card_path pf" by simp_all
  then have same: "agent_module (pf\<lparr>pf_load_dotenv := f\<rparr>) env B = agent_module pf env B"
    unfolding agent_module_def injected_models_def by (simp only:)
  obtain B0 where a: "agent_module pf env B = (Inr (wa_agent W), B0)"
    "B1 = B0\<lparr>ob_otel_calls := ob_otel_calls B0 @ instrument_fastapi_app\<rparr>"
    using s(1) by (rule fast_api_module_Inr)
  obtain B0' where a': "agent_module pf env B = (Inr (wa_agent W'), B0')"
    "B1' = B0'\<lparr>ob_otel_calls := ob_otel_calls B0' @ instrument_fastapi_app\<rparr>"
    using s'(1) unfolding same [symmetric] by (rule fast_api_module_Inr)
  from a(1) a'(1) have "wa_agent W' = wa_agent W" "B0' = B0" by simp_all
  with a(2) a'(2) show ?thesis by (simp only: s(2) s'(2) lifespan_enter_def runtime.simps)
qed

definition demo_process_env :: env where
  "demo_process_env = demo_env @ [(''GEMINI_FAST_MODEL'', ''gemini-f''), (''GEMINI_BALANCED_MODEL'', ''gemini-b''),
     (''GEMINI_CAPABLE_MODEL'', ''gemini-c'')]"

definition demo_platform :: platform where
  "demo_platform = \<lparr>pf_levels = demo_levels, pf_stderr_isatty = False, pf_tracer_provider = ProxyProvider,
     pf_credentials = Inr (), pf_logging_client = Inr (), pf_list_models = (\<lambda>n. Inl (StorageError ''offline'')),
     pf_driver = (\<lambda>s. Inr s), pf_card_path = ''/card'', pf_extended_card_path = ''/extended'',
     pf_load_dotenv = (\<lambda>env. env)\<rparr>"

definition demo_observability :: observability where
  "demo_observability = \<lparr>ob_logging = demo_logging, ob_tracing_configured = False, ob_otel_calls = []\<rparr>"

lemma demo_serve_1: "\<not> isl (fst (configure_observability demo_levels demo_process_env False ProxyProvider (Inr ()) []
    (service_name demo_process_env) None None demo_observability))"
  by code_simp

lemma demo_serve_2: "\<not> isl (injected_models demo_platform demo_process_env)"
  by code_simp

lemma demo_serve_3: "\<not> isl (start_services (\<lambda>s. Inr s) demo_process_env (provide_project ModelModule demo_process_env)
   (provide_location ModelModule demo_process_env))"
  by code_simp

lemma demo_serve_4: "\<not> isl (app_registry demo_process_env)"
  by code_simp

lemma demo_serve_5: "\<not> isl (root_agent ''/card'' ms demo_process_env)"
proof -
  have "or_else (strip (env_default demo_process_env ''AGENT_NAME'' DEFAULT_AGENT_NAME)) DEFAULT_AGENT_NAME = ''orchestrator''"
    by code_simp
  then show ?thesis unfolding root_agent_fails_iff by (simp add: AGENTS_eq)
qed


lemma demo_served: "\<exists>W rn B1. serve_process demo_platform demo_process_env demo_observability = (Inr (W, rn), B1)"
proof -
  obtain x B1 where c: "configure_observability demo_levels demo_process_env False ProxyProvider (Inr ()) []
      (service_name demo_process_env) None None demo_observability = (Inr x, B1)"
    using demo_serve_1 by (metis isl_def prod.collapse sum.collapse(2) sum.exhaust_sel)
  obtain ms where m: "injected_models demo_platform demo_process_env = Inr ms"
    using demo_serve_2 by (metis sum.collapse(2))
  obtain sv where s: "start_services (\<lambda>s. Inr s) demo_process_env (provide_project ModelModule demo_process_env)
      (provide_location ModelModule demo_process_env) = Inr sv"
    using demo_serve_3 by (metis sum.collapse(2))
  obtain R where r: "app_registry demo_process_env = Inr R"
    using demo_serve_4 by (metis sum.collapse(2))
  obtain a where a: "root_agent ''/card'' ms demo_process_env = Inr a"
    using demo_serve_5 [of ms] by (metis sum.collapse(2))
  have "agent_module demo_platform demo_process_env demo_observability =
    (Inr \<lparr>ap_name = APP_NAME, ap_root_agent = a, ap_models = ms, ap_services = sv\<rparr>, B1)"
    unfolding agent_module_def m by (simp add: demo_platform_def c s a)
  then show ?thesis
    unfolding serve_process_def fast_api_module_def by (simp add: demo_platform_def r)
qed


theorem dotenv_reaches_only_the_web_side_witness:
  "\<exists>W rn W' rn' B1. serve_process demo_platform demo_process_env demo_observability = (Inr (W, rn), B1) \<and>
     serve_process (demo_platform\<lparr>pf_load_dotenv := (\<lambda>env. env)\<rparr>) demo_process_env demo_observability = (Inr (W', rn'), B1) \<and>
     wa_agent W' = wa_agent W"
proof -
  obtain W rn B1 where w: "serve_process demo_platform demo_process_env demo_observability = (Inr (W, rn), B1)"
    using demo_served by blast
  have "demo_platform\<lparr>pf_load_dotenv := (\<lambda>env. env)\<rparr> = demo_platform" by (simp add: demo_platform_def)
  with w have "serve_process (demo_platform\<lparr>pf_load_dotenv := (\<lambda>env. env)\<rparr>) demo_process_env demo_observability = (Inr (W, rn), B1)"
    by simp
  with dotenv_reaches_only_the_web_side [OF w this] w show ?thesis by blast
qed

end
