(* ===== verification/Spec2Isabelle.thy ===== *)
theory Spec2Isabelle
  imports Requests Deployment Documents Model_Selection Artifact_Shelf Secrets Startup
begin

text \<open>
  A verification development for the multi-agent system of this repository: a Python service that
  runs one agent per process (an orchestrator or a specialist), delegates to peers over A2A, and
  holds the specialists' actions back until a human has approved them. All the Python under
  \<^verbatim>\<open>src/app\<close> that decides something is modelled, and both of the scripts.

  THE PROGRAM AND ITS PARTS

  A process reads its configuration from the environment, builds the services (database engine,
  session service, task store, case store, artifact store, models) and the one agent it serves.
  In the orchestrator a request to run a turn collects the texts of the agent's events, finds the
  proposals in them and opens a case for each; a request to decide a case records the decision,
  and for an approved case runs a turn that tells the agent what was approved, then records the
  execution when the turn's texts hold a result that confirms the approved content. In a
  specialist the tools produce the proposals and the results, and a callback restates them as text
  so that they survive the way back.

  THEORIES AND SOURCES

  Foundations, Python and its standard library as the program uses them:
  Prelude (exceptions as \<^verbatim>\<open>py_error\<close>, a fallible result as \<^verbatim>\<open>py_error + 'a\<close>, dicts as association
  lists, the named collections of facts); Py_Text (str methods on UTF-8 text as lists of bytes);
  Py_Float (binary64 with round to nearest even, its shortest decimal text); Py_Json and
  Json_Roundtrip (\<^verbatim>\<open>raw_decode\<close>, \<^verbatim>\<open>loads\<close>, \<^verbatim>\<open>dumps\<close>, and what \<^verbatim>\<open>dumps\<close> writes being read back);
  Py_Values (truth, equality, str and repr, datetime as a \<^verbatim>\<open>linorder\<close>); Base64; Float_Exact;
  Interfaces (the contracts several components share, as locales: \<^verbatim>\<open>codec\<close> for an encoding that is
  read back, interpreted for decimals and base64; \<^verbatim>\<open>line_codec\<close> for one whose codes stay on a line,
  for JSON; \<^verbatim>\<open>memo\<close> for a value that is kept once it is there, for the engine, the model catalog and
  the secrets; \<^verbatim>\<open>simulation\<close> for a service that answers requests as its specification does, for the
  artifact store).

  Approval, \<^verbatim>\<open>app/cluster/cases.py\<close> and \<^verbatim>\<open>app/fast_api_app.py\<close>:
  Cases (\<^verbatim>\<open>ApprovalCase\<close>, the in-memory store); Case_Database (\<^verbatim>\<open>DatabaseCaseStore\<close> over rows with
  column widths, on PostgreSQL and SQLite); Case_Store_Spec (the contract of a store as the locale
  \<^verbatim>\<open>case_store_spec\<close>, interpreted for both stores, and the refinement of the one by the other);
  Proposals (\<^verbatim>\<open>_json_objects_in\<close>, \<^verbatim>\<open>find_proposals\<close>, \<^verbatim>\<open>case_from_proposal\<close>, \<^verbatim>\<open>find_execution\<close>,
  \<^verbatim>\<open>execution_instruction\<close>, \<^verbatim>\<open>reply_texts\<close>); Serving (the endpoints, a handler maps the state of the
  process to a response and a state); Case_Protocol (interleaved handlers as the inductive step
  relation \<^verbatim>\<open>protocol_step\<close>, whose threads wait for the store, for the turn, for the store again);
  Approval_Flow (no code of its own: the tools, the callback and the endpoints composed, from a
  specialist's proposal to a stored case and from an approval to an executed one); Requests (the
  four endpoints, and a server's history as a list of requests).

  Specialists: Math_Tools (\<^verbatim>\<open>app/agents/math/tools.py\<close>); Reporting (\<^verbatim>\<open>app/agents/reporting.py\<close>);
  Documents (\<^verbatim>\<open>app/agents/documents.py\<close>); Agent_Prose (the descriptions and
  instructions of the agents, as they are); Agents (\<^verbatim>\<open>app/agents/\<close>, \<^verbatim>\<open>cluster/resolver.py\<close>,
  \<^verbatim>\<open>cluster/peer_tool.py\<close>, \<^verbatim>\<open>cluster/di.py\<close>, \<^verbatim>\<open>app/agent.py\<close>); Model_Selection (\<^verbatim>\<open>shared/config.py\<close>,
  \<^verbatim>\<open>model_selection.py\<close>, \<^verbatim>\<open>model_catalog.py\<close>, \<^verbatim>\<open>model_factory.py\<close>; the locale \<^verbatim>\<open>keyed_selection\<close>
  is the one contract of choosing a Gemini model and choosing an embedding model).

  Services and configuration: Cluster_Config (\<^verbatim>\<open>cluster/config.py\<close>); Db_Config (\<^verbatim>\<open>cluster/db.py\<close>,
  with the double-checked lock as a step relation); Backends (\<^verbatim>\<open>cluster/session.py\<close>, \<^verbatim>\<open>tasks.py\<close>,
  \<^verbatim>\<open>artifacts.py\<close>, \<^verbatim>\<open>build_case_store\<close>, the providers of \<^verbatim>\<open>SessionModule\<close>); App_Setup (the service
  registry, the lifespan, \<^verbatim>\<open>app_utils/a2a.py\<close>); Startup (\<^verbatim>\<open>app/agent.py\<close> and the module level of
  \<^verbatim>\<open>fast_api_app.py\<close> in the order they run, \<^verbatim>\<open>Feedback\<close> and its endpoint); Artifacts and Artifact_Facts
  (\<^verbatim>\<open>shared/artifacts.py\<close> over a tree of files); Artifact_Shelf (no code of its own: the store's
  specification, an artifact as the list of what was saved, and the proof that the tree of files
  keeps it, request by request); Secrets (\<^verbatim>\<open>shared/secrets.py\<close>); Observability
  (\<^verbatim>\<open>shared/logging.py\<close>, \<^verbatim>\<open>telemetry.py\<close>, \<^verbatim>\<open>observability.py\<close>).

  Database administration: Ddl (statements and their effect on a PostgreSQL schema); Migrations
  (\<^verbatim>\<open>app/migrations\<close>, each revision a list of statements); Revisions (the chain of revisions, and a
  schema moved along it as the step relation \<^verbatim>\<open>migration_step\<close>); Admin (\<^verbatim>\<open>cluster/bootstrap.py\<close> and
  \<^verbatim>\<open>scripts/grant_readers.py\<close>); Dbcheck (\<^verbatim>\<open>scripts/dbcheck.py\<close> over a snapshot of the server);
  Deployment (no code of its own: these jobs one after the other, from an empty server to one that
  passes the check).

  HOW STATE AND EFFECTS ARE REPRESENTED

  Stores, caches and files are explicit state, passed in and returned. A raise is \<^verbatim>\<open>Inl\<close> of the
  exception. An \<^verbatim>\<open>await\<close> is a point where other requests may run only in Case_Protocol and
  Db_Config; \<^verbatim>\<open>endpoints_are_protocol_runs\<close> is the bridge, that a handler run alone is a
  sequence of the protocol's steps, so that the invariants of reachable states hold of it. Code
  outside the repository is an argument: the agent runner (\<^verbatim>\<open>'w runner\<close>, from a world to events and
  a world), uuid and clock, the parser of expressions and float power, the storage behind
  documents, the artifact helpers of ADK (\<^verbatim>\<open>adk\<close>), the secret client, the levels loguru knows, the
  names PostgreSQL quotes, pydantic's validation and schemas, dotenv. Which revision Alembic runs next
  is the order of the chain; its own bookkeeping is the version beside the schema.

  WHAT THE LEMMAS SHOW

  Approval: nothing is executed that was not approved, the first decision stands, a case is
  EXECUTED only with a confirmation of exactly its content, rejected and closed cases run nothing,
  what an agent reports is found in prose and in nested tool results, opened once per report, and
  handed back for execution as it was. Composed over the processes: an unapproved publication
  reaches the queue, an approved one closes its case, anything else leaves it open, and no case that
  is not rejected is ever stuck. Stores: the database store refines the in-memory one on any
  sequence of requests that fit the columns. Artifacts: versions are fresh, content is read back,
  references are followed to their end, and on a directory that starts empty every reply is the
  one of the specification, so that a saved version stays until its artifact is deleted. Secrets, catalog, engine, logging: each is set up once.
  Migrations: every revision is undone by its downgrade, a schema and the role's privileges follow
  from its revision whatever way it came, the remaining revisions always apply, grants cover tables
  created later, the store's table and the migrated one agree, and a deployment whose settings are accepted
  comes up as a whole. Start-up: a process that comes up
  runs on one set of services, and dotenv reaches only its web side. Configuration: what is accepted is well formed, and
  what is refused is a ValueError.

  BOUNDS AND FUEL

  The JSON scanner recurses with fuel twice the length of its text; \<^verbatim>\<open>scan_fuel\<close> shows that more
  never changes the result. Nesting beyond the recursion limit of the interpreter is not
  modelled, there a real run raises RecursionError. The search for the shortest decimal of a float
  tries the 17 digits that always suffice. Loading an artifact takes the number of stack frames left
  as an argument, since a chain of references recurses once per reference and may be a cycle:
  \<^verbatim>\<open>reference_chains_are_followed\<close> says how many frames a chain needs, and
  \<^verbatim>\<open>self_reference_exhausts_the_stack\<close> that for a cycle none are enough. Everything else is
  structural recursion or has a measure.

  NOT MODELLED

  What injector, SQLAlchemy, Alembic, ADK, OpenTelemetry and loguru do inside is theirs: an engine is a
  record of what it is created with, a revision the list of its statements, tracing the list of
  the set-up actions. Times are points on a line with or without a zone. Terraform, Kubernetes
  manifests and the Makefile are not Python.
\<close>

section \<open>Decisions\<close>

definition demo_runner :: "nat runner" where
  "demo_runner user session txt w = (Inr demo_events, Suc w)"

definition demo_dep :: "(case_table, nat) deployment" where
  "demo_dep = \<lparr>dep_store = DatabaseCaseStore SQLite, dep_runner = demo_runner,
     dep_uuid = (\<lambda>n. replicate 32 CHR ''a''), dep_clock = (\<lambda>n. Aware (int n))\<rparr>"

definition demo_state :: "(case_table, nat) app_state" where
  "demo_state = \<lparr>st_store = demo_table, st_world = 0, st_draws = 0, st_ticks = 1\<rparr>"

definition demo_decision :: "bool \<Rightarrow> CaseDecision" where
  "demo_decision ok = \<lparr>dec_approved = ok, dec_note = ''ok'', dec_decided_by = ''alice''\<rparr>"

lemma demo_dep_simps: "dep_store demo_dep = DatabaseCaseStore SQLite" "clock_aware demo_dep"
  "dep_runner demo_dep = demo_runner"
  by (simp_all add: demo_dep_def clock_aware_def)

text \<open>C5. Approving a pending case (or posting an approval again on an approved, unexecuted one) leaves exactly that case changed: it becomes EXECUTED with the agent's confirmation when the turn's texts hold one, and stays APPROVED otherwise; every other case is untouched.\<close>

theorem approval_recorded_then_confirmed:
  assumes "dep_store dep = DatabaseCaseStore d" "clock_aware dep" "db_inv d (st_store st)"
    and "name_fits d (dec_decided_by decision)" "db_get pid (st_store st) = Some c0"
    and "ac_status c0 = PENDING \<and> dec_approved decision \<and> c = decided_now dep decision st c0
         \<or> ac_status c0 = APPROVED \<and> c = c0"
    and "case_decide dep pid decision user st = (resp, st')"
  shows "\<forall>q. db_get q (st_store st') =
    (if q = pid then
       Some (case confirmation dep user c (st_world st) of
               None \<Rightarrow> c
             | Some performed \<Rightarrow> executed (dep_clock dep (Suc (st_ticks st))) True performed c)
     else db_get q (st_store st))"
  using db.case_decide_approves [OF assms(1-4) _ assms(6,7)] assms(5)
  by (simp add: db_get_cases)

theorem approval_recorded_then_confirmed_witness:
  "db_get ''p1'' (st_store (snd (case_decide demo_dep ''p1'' (demo_decision True) ''u'' demo_state))) =
   Some (executed (Aware 2) True demo_result demo_approved)"
proof -
  let ?r = "case_decide demo_dep ''p1'' (demo_decision True) ''u'' demo_state"
  have c: "decided_now demo_dep (demo_decision True) demo_state demo_case = demo_approved"
    by (simp add: decided_now_def demo_dep_def demo_state_def demo_decision_def demo_approved_def)
  have "confirmation demo_dep ''u'' demo_approved 0 = Some demo_result"
    using demo_find by (simp add: confirmation_def demo_dep_simps demo_runner_def demo_approved_def)
  with approval_recorded_then_confirmed [OF demo_dep_simps(1,2), of demo_state "demo_decision True" "''p1''"
      demo_case demo_approved "''u''" "fst ?r" "snd ?r"]
  show ?thesis
    using demo_inv demo_get demo_fresh c
    by (simp add: demo_state_def name_fits_def demo_decision_def) (simp add: demo_dep_def)
qed

text \<open>C15. Rejecting a pending case answers ``rejected'' with the recorded decision, runs no turn (the runner's world is unchanged), and changes only that case.\<close>

theorem rejection_runs_nothing:
  assumes "dep_store dep = DatabaseCaseStore d" "clock_aware dep" "db_inv d (st_store st)"
    and "name_fits d (dec_decided_by decision)" "db_get pid (st_store st) = Some c0"
    and "ac_status c0 = PENDING" "\<not> dec_approved decision"
    and "case_decide dep pid decision user st = (resp, st')"
  shows "resp = Inr (case_response ''rejected'' (decided_now dep decision st c0)) \<and>
    st_world st' = st_world st \<and>
    (\<forall>q. db_get q (st_store st') = (if q = pid then Some (decided_now dep decision st c0) else db_get q (st_store st)))"
  using db.case_decide_rejects [OF assms(1-4) _ assms(6-8)] assms(5)
  by (simp add: db_get_cases)

theorem rejection_runs_nothing_witness:
  "\<forall>q. db_get q (st_store (snd (case_decide demo_dep ''p1'' (demo_decision False) ''u'' demo_state))) =
     (if q = ''p1'' then Some (decided_now demo_dep (demo_decision False) demo_state demo_case)
      else db_get q demo_table)"
  using rejection_runs_nothing [OF demo_dep_simps(1,2), of demo_state "demo_decision False" "''p1''" demo_case "''u''"
      "fst (case_decide demo_dep ''p1'' (demo_decision False) ''u'' demo_state)"
      "snd (case_decide demo_dep ''p1'' (demo_decision False) ''u'' demo_state)"] demo_inv demo_get demo_fresh
  by (simp add: demo_state_def name_fits_def demo_decision_def)

text \<open>C16. Deciding a case that is REJECTED, EXECUTED or FAILED answers with the stored case, runs no turn and changes no case.\<close>

theorem closed_case_is_not_run_again:
  assumes "dep_store dep = DatabaseCaseStore d" "clock_aware dep" "db_inv d (st_store st)"
    and "name_fits d (dec_decided_by decision)" "db_get pid (st_store st) = Some c0"
    and "ac_status c0 \<in> {REJECTED, EXECUTED, FAILED}"
    and "case_decide dep pid decision user st = (resp, st')"
  shows "resp = Inr (case_response (if ac_status c0 = REJECTED then ''rejected'' else ''already_executed'') c0) \<and>
    st_world st' = st_world st \<and> (\<forall>q. db_get q (st_store st') = db_get q (st_store st))"
  using db.case_decide_closed [OF assms(1-4) _ assms(6,7)] assms(5)
  by (simp add: db_get_cases)

definition done_state :: "(case_table, nat) app_state" where
  "done_state = demo_state\<lparr>st_store := executed_table\<rparr>"

theorem closed_case_is_not_run_again_witness:
  "st_world (snd (case_decide demo_dep ''p1'' (demo_decision True) ''u'' done_state)) = 0"
  using closed_case_is_not_run_again [OF demo_dep_simps(1,2), of done_state "demo_decision True" "''p1''"
      "row_to_case (hd executed_table)" "''u''"
      "fst (case_decide demo_dep ''p1'' (demo_decision True) ''u'' done_state)"
      "snd (case_decide demo_dep ''p1'' (demo_decision True) ''u'' done_state)"] executed_inv executed_get
  by (simp add: done_state_def demo_state_def name_fits_def demo_decision_def)

text \<open>Deciding or reading a proposal the store does not have is the 404 response ``unknown proposal\_id'', and no turn is run.\<close>

theorem unknown_proposal_is_404:
  assumes "dep_store dep = DatabaseCaseStore d" "clock_aware dep" "db_inv d (st_store st)"
    and "name_fits d (dec_decided_by decision)" "db_get pid (st_store st) = None"
  shows "fst (case_decide dep pid decision user st) = Inl (HTTPException 404 ''unknown proposal_id'') \<and>
    st_world (snd (case_decide dep pid decision user st)) = st_world st \<and>
    case_detail dep pid st = (Inl (HTTPException 404 ''unknown proposal_id''), st)"
  using db.case_decide_unknown [OF assms(1-4), of pid user "fst (case_decide dep pid decision user st)"
      "snd (case_decide dep pid decision user st)"] assms(1,5)
  by (simp add: db_get_cases unknown_proposal_def case_detail_def
      DatabaseCaseStore_def)

theorem unknown_proposal_is_404_witness:
  "fst (case_decide demo_dep ''p2'' (demo_decision True) ''u'' demo_state) = Inl (HTTPException 404 ''unknown proposal_id'')"
  using unknown_proposal_is_404 [OF demo_dep_simps(1,2), of demo_state "demo_decision True" "''p2''" "''u''"] demo_inv
  by (simp add: demo_state_def name_fits_def demo_decision_def db_get_def select_row_def insert_row_def demo_fresh)

text \<open>Simulation: every call of the decide handler is a sequence of steps of the protocol's transition system, from a free thread back to a free thread, whatever other requests are under way; what is proved of reachable protocol states holds of the handler.\<close>

theorem decide_endpoint_is_protocol_run:
  assumes "dep_store dep = DatabaseCaseStore d" "clock_aware dep" "db_inv d (st_store st)"
    and "p_store p = st_store st" "p_threads p h = None"
    and "case_decide dep pid decision user st = (resp, st')"
  shows "\<exists>turns. rtranclp (protocol_step (DatabaseCaseStore d)) p
    (p\<lparr>p_store := st_store st', p_turns := p_turns p @ turns\<rparr>)"
  using assms by (rule db.case_decide_steps)

theorem decide_endpoint_is_protocol_run_witness:
  "\<exists>turns. rtranclp (protocol_step (DatabaseCaseStore SQLite)) (start demo_table)
    ((start demo_table)\<lparr>p_store := st_store (snd (case_decide demo_dep ''p1'' (demo_decision True) ''u'' demo_state)),
        p_turns := p_turns (start demo_table) @ turns\<rparr>)"
  by (rule decide_endpoint_is_protocol_run [OF demo_dep_simps(1,2), of demo_state _ 0 "''p1''" "demo_decision True" "''u''"
        "fst (case_decide demo_dep ''p1'' (demo_decision True) ''u'' demo_state)"])
    (simp_all add: demo_state_def demo_inv start_def)

section \<open>From a report to a case and back to the agent\<close>

text \<open>C13. Every case a turn opens was absent before, is stored afterwards as PENDING under the session, and carries the proposal of an object reported in the turn's texts; the cases stored before are kept as they are.\<close>

theorem reported_proposals_are_opened:
  assumes "dep_store dep = DatabaseCaseStore d" "clock_aware dep" "db_inv d (st_store st)"
    and "open_cases dep sid (find_proposals texts) st = (Inr opened, st')"
  shows "(\<forall>c \<in> set opened. db_get (ac_proposal_id c) (st_store st) = None \<and>
       db_get (ac_proposal_id c) (st_store st') = Some c \<and> ac_status c = PENDING \<and> ac_session_id c = sid \<and>
       (\<exists>obj \<in> set (reported texts). reported_proposal obj = Some (ac_proposal c))) \<and>
    (\<forall>q c. db_get q (st_store st) = Some c \<longrightarrow> db_get q (st_store st') = Some c)"
proof -
  note e = db.open_cases_effect [OF assms(1-4)]
  have "\<exists>obj \<in> set (reported texts). reported_proposal obj = Some p"
    if "obj \<in> set (find_proposals texts)" "dict_of_field (dict_get obj ''proposal'') = Inr p" for obj p
  proof -
    note hyp = that
    have "obj \<in> set (reported texts)"
      using hyp(1) first_by_set by (fastforce simp: find_proposals_first)
    moreover obtain q where "reported_proposal obj = Some q" using find_proposals_reported [OF hyp(1)] by blast
    ultimately show ?thesis
      using hyp(2) by (auto simp: reported_proposal_Some_iff dict_of_field_def split: if_splits)
  qed
  then show ?thesis
    using e by (fastforce simp: db_get_cases)
qed

definition empty_state :: "(case_table, nat) app_state" where
  "empty_state = \<lparr>st_store = [], st_world = 0, st_draws = 0, st_ticks = 0\<rparr>"

definition opened_case :: approval_case where
  "opened_case = ApprovalCase (Aware 0) ''s1'' (replicate 12 CHR ''a'') [] ''publish_result'' ''Publish''
     (ac_proposal demo_case) ''s1''"

lemma demo_opened:
  "open_cases demo_dep ''s1'' [demo_envelope] empty_state =
   (Inr [opened_case], empty_state\<lparr>st_store := [insert_row SQLite opened_case], st_draws := 1, st_ticks := 1\<rparr>)"
proof -
  have "reported_proposal demo_envelope = Some (ac_proposal demo_case)"
    by (simp add: reported_proposal_Some_iff demo_envelope_def APPROVAL_REQUIRED_def)
  from case_from_proposal_found [OF this, of "Aware 0" "replicate 32 CHR ''a''" "''s1''" "''s1''" "[]"]
  have "case_from_proposal (Aware 0) (replicate 32 CHR ''a'') demo_envelope ''s1'' ''s1'' [] = Inr opened_case"
    by (simp add: opened_case_def demo_envelope_def str_field_def py_str_def)
  then show ?thesis
    by (simp add: demo_dep_def empty_state_def DatabaseCaseStore_def db_open_def select_row_def row_fits_def)
qed

theorem reported_proposals_are_opened_witness:
  "db_get (ac_proposal_id opened_case) [insert_row SQLite opened_case] = Some opened_case"
  using reported_proposals_are_opened [OF demo_dep_simps(1,2), of empty_state "''s1''" demo_texts "[opened_case]"
      "empty_state\<lparr>st_store := [insert_row SQLite opened_case], st_draws := 1, st_ticks := 1\<rparr>"]
    demo_opened
  by (simp add: demo_proposals) (simp add: empty_state_def db_inv_def table_ok_def)

text \<open>The first JSON object in the instruction sent for an approved case is the approved proposal (its keys sorted).\<close>

theorem instruction_carries_the_proposal:
  assumes "json_ok (JObj (ac_proposal c))" "CHR ''{'' \<notin> set (ac_agent c)"
  shows "\<exists>rest. json_objects_in (execution_instruction c) = sorted_dict (ac_proposal c) # rest"
proof -
  let ?pre = "''A human has APPROVED this proposal from the '' @ [CHR 0x27] @ ac_agent c @ [CHR 0x27] @
         '' specialist:'' @ [newline]"
  let ?post = "[newline] @ ''Approved by: '' @ (if ac_decided_by c \<noteq> [] then ac_decided_by c else ''unknown'') @
         (if ac_note c \<noteq> [] then newline # ''The approver noted: '' @ ac_note c else []) @ [newline, newline] @
         ''Send the specialist the SAME request that produced this proposal, '' @
         ''with `approved_by` set to the approver above and `decision_note` set '' @
         ''to their note. Do not change any other field. Then report what the '' @
         ''specialist returned.''"
  have "execution_instruction c = ?pre @ dumps (JObj (sorted_dict (ac_proposal c))) @ ?post"
    unfolding execution_instruction_def Let_def dumps_sorted_obj by (simp only: append_assoc)
  moreover have "CHR ''{'' \<notin> set ?pre" using assms(2) by simp
  ultimately show ?thesis
    using json_objects_in_dumps [OF _ json_ok_sorted_dict [OF assms(1)], of ?pre ?post] by metis
qed

theorem instruction_carries_the_proposal_witness:
  "\<exists>rest. json_objects_in (execution_instruction demo_approved) = sorted_dict (ac_proposal demo_approved) # rest"
  by (rule instruction_carries_the_proposal)
    (simp_all add: demo_approved_def decided_def demo_case_def ApprovalCase_def ascii_text_ok ascii_def)

end
